theory Spec2Isabelle
  imports Main "HOL-Library.Word"
begin

unbundle bit_operations_syntax

section \<open>Data model\<close>

text \<open>
  Bytes of the WKB buffer, the 4-byte integers read from it, and doubles. A double is
  kept as its 64-bit IEEE-754 pattern: the decoder only copies doubles and tests them
  for NaN, so two doubles are "bit-for-bit identical" exactly when the patterns are equal.
\<close>

type_synonym byte = "8 word"
type_synonym uint32 = "32 word"
type_synonym double = "64 word"

text \<open>
  The geometry type numbers of liblwgeom (\<^verbatim>\<open>POINTTYPE\<close> ...). \<^verbatim>\<open>NOTYPE\<close> stands
  for the value 0 that \<^verbatim>\<open>lwgeom_from_wkb\<close> stores in \<^verbatim>\<open>s.lwtype\<close> before the first
  type number is decoded; no \<^verbatim>\<open>case\<close> of a \<^verbatim>\<open>switch\<close> matches it.
\<close>

datatype lwtype =
    NOTYPE
  | POINTTYPE
  | LINETYPE
  | POLYGONTYPE
  | MULTIPOINTTYPE
  | MULTILINETYPE
  | MULTIPOLYGONTYPE
  | COLLECTIONTYPE
  | CIRCSTRINGTYPE
  | COMPOUNDTYPE
  | CURVEPOLYTYPE
  | MULTICURVETYPE
  | MULTISURFACETYPE
  | POLYHEDRALSURFACETYPE
  | TRIANGLETYPE
  | TINTYPE

text \<open>
  The bits of the \<^verbatim>\<open>check\<close> mask. The code only tests single bits
  (\<^verbatim>\<open>s->check & LW_PARSER_CHECK_MINPOINTS\<close>) and sets one
  (\<^verbatim>\<open>s->check |= LW_PARSER_CHECK_ZCLOSURE\<close>), so the mask is the set of its bits.
\<close>

datatype parser_check =
    LW_PARSER_CHECK_MINPOINTS
  | LW_PARSER_CHECK_ODD
  | LW_PARSER_CHECK_CLOSURE
  | LW_PARSER_CHECK_ZCLOSURE

record POINTARRAY =
  pa_has_z :: bool
  pa_has_m :: bool
  npoints :: uint32
  pointlist :: "double list"

datatype lwgeom =
    LWPOINT uint32 bool bool POINTARRAY
  | LWLINE uint32 bool bool POINTARRAY
  | LWCIRCSTRING uint32 bool bool POINTARRAY
  | LWTRIANGLE uint32 bool bool POINTARRAY
  | LWPOLY uint32 bool bool "POINTARRAY list"
  | LWCURVEPOLY uint32 bool bool "lwgeom list"
  | LWCOLLECTION lwtype uint32 bool bool "lwgeom list"

fun lwgeom_type :: "lwgeom \<Rightarrow> lwtype" where
  "lwgeom_type (LWPOINT _ _ _ _) = POINTTYPE"
| "lwgeom_type (LWLINE _ _ _ _) = LINETYPE"
| "lwgeom_type (LWCIRCSTRING _ _ _ _) = CIRCSTRINGTYPE"
| "lwgeom_type (LWTRIANGLE _ _ _ _) = TRIANGLETYPE"
| "lwgeom_type (LWPOLY _ _ _ _) = POLYGONTYPE"
| "lwgeom_type (LWCURVEPOLY _ _ _ _) = CURVEPOLYTYPE"
| "lwgeom_type (LWCOLLECTION t _ _ _ _) = t"

text \<open>
  What \<^verbatim>\<open>lwin_wkb.cpp\<close> uses and the sources at hand do not define: the host's
  byte order (\<^verbatim>\<open>IS_BIG_ENDIAN\<close>), \<^verbatim>\<open>SRID_UNKNOWN\<close>, \<^verbatim>\<open>clamp_srid\<close>, the
  subtype table behind \<^verbatim>\<open>lwcollection_add_lwgeom\<close>, the two closure tests on
  point arrays and the names of the geometry types (\<^verbatim>\<open>lwtype_name\<close>). They are parameters of the model: every theorem below holds for each
  choice of them, unless it says otherwise.
\<close>

record externals =
  IS_BIG_ENDIAN :: bool
  SRID_UNKNOWN :: uint32
  clamp_srid :: "uint32 \<Rightarrow> uint32"
  lwcollection_allows_subtype :: "lwtype \<Rightarrow> lwtype \<Rightarrow> bool"
  ptarray_is_closed_2d :: "POINTARRAY \<Rightarrow> bool"
  ptarray_is_closed_z :: "POINTARRAY \<Rightarrow> bool"
  lwtype_name :: "lwtype \<Rightarrow> string"

text \<open>
  \<^verbatim>\<open>wkb_parse_state\<close>. The two pointers are offsets into the buffer: \<^verbatim>\<open>wkb\<close> is the
  buffer itself and \<^verbatim>\<open>pos\<close> the distance of the read position from its start. Two
  fields are instrumentation and no field of the C struct: \<open>reported\<close> lists the
  messages passed to \<^verbatim>\<open>lwerror\<close>, in order, and \<open>oob\<close> becomes true when a read
  touches a byte that the buffer does not have.
\<close>

record wkb_parse_state =
  wkb :: "byte list"
  srid :: uint32
  wkb_size :: nat
  swap_bytes :: bool
  check :: "parser_check set"
  lwtype :: lwtype
  has_z :: bool
  has_m :: bool
  has_srid :: bool
  error :: bool
  depth :: "8 word"
  pos :: nat
  reported :: "string list"
  oob :: bool

section \<open>Constants of the wire format\<close>

abbreviation (input) LW_PARSER_MAX_DEPTH :: "8 word" where
  "LW_PARSER_MAX_DEPTH \<equiv> 200"

text \<open>
  Modelled from the spec: the sizes of the fields (section 4.1: "1 endian-indicator
  byte", "4-byte integers and 8-byte doubles"), the flag bits of an extended type code
  (section 6) and the enumeration of type codes (section 4.1, step 2); the header that
  defines these macros is not among the sources.
\<close>

abbreviation (input) WKB_BYTE_SIZE :: nat where
  "WKB_BYTE_SIZE \<equiv> 1"

abbreviation (input) WKB_INT_SIZE :: nat where
  "WKB_INT_SIZE \<equiv> 4"

abbreviation (input) WKB_DOUBLE_SIZE :: nat where
  "WKB_DOUBLE_SIZE \<equiv> 8"

abbreviation (input) WKBZOFFSET :: uint32 where
  "WKBZOFFSET \<equiv> 0x80000000"

abbreviation (input) WKBMOFFSET :: uint32 where
  "WKBMOFFSET \<equiv> 0x40000000"

abbreviation (input) WKBSRIDFLAG :: uint32 where
  "WKBSRIDFLAG \<equiv> 0x20000000"

abbreviation (input) WKB_POINT_TYPE :: uint32 where
  "WKB_POINT_TYPE \<equiv> 1"

abbreviation (input) WKB_LINESTRING_TYPE :: uint32 where
  "WKB_LINESTRING_TYPE \<equiv> 2"

abbreviation (input) WKB_POLYGON_TYPE :: uint32 where
  "WKB_POLYGON_TYPE \<equiv> 3"

abbreviation (input) WKB_MULTIPOINT_TYPE :: uint32 where
  "WKB_MULTIPOINT_TYPE \<equiv> 4"

abbreviation (input) WKB_MULTILINESTRING_TYPE :: uint32 where
  "WKB_MULTILINESTRING_TYPE \<equiv> 5"

abbreviation (input) WKB_MULTIPOLYGON_TYPE :: uint32 where
  "WKB_MULTIPOLYGON_TYPE \<equiv> 6"

abbreviation (input) WKB_GEOMETRYCOLLECTION_TYPE :: uint32 where
  "WKB_GEOMETRYCOLLECTION_TYPE \<equiv> 7"

abbreviation (input) WKB_CIRCULARSTRING_TYPE :: uint32 where
  "WKB_CIRCULARSTRING_TYPE \<equiv> 8"

abbreviation (input) WKB_COMPOUNDCURVE_TYPE :: uint32 where
  "WKB_COMPOUNDCURVE_TYPE \<equiv> 9"

abbreviation (input) WKB_CURVEPOLYGON_TYPE :: uint32 where
  "WKB_CURVEPOLYGON_TYPE \<equiv> 10"

abbreviation (input) WKB_MULTICURVE_TYPE :: uint32 where
  "WKB_MULTICURVE_TYPE \<equiv> 11"

abbreviation (input) WKB_MULTISURFACE_TYPE :: uint32 where
  "WKB_MULTISURFACE_TYPE \<equiv> 12"

abbreviation (input) WKB_CURVE_TYPE :: uint32 where
  "WKB_CURVE_TYPE \<equiv> 13"

abbreviation (input) WKB_SURFACE_TYPE :: uint32 where
  "WKB_SURFACE_TYPE \<equiv> 14"

abbreviation (input) WKB_POLYHEDRALSURFACE_TYPE :: uint32 where
  "WKB_POLYHEDRALSURFACE_TYPE \<equiv> 15"

abbreviation (input) WKB_TIN_TYPE :: uint32 where
  "WKB_TIN_TYPE \<equiv> 16"

abbreviation (input) WKB_TRIANGLE_TYPE :: uint32 where
  "WKB_TRIANGLE_TYPE \<equiv> 17"

section \<open>Errors, bounds check and memory reads\<close>

text \<open>
  \<^verbatim>\<open>lwerror\<close> is declared outside the sources at hand. The decoder is written for an
  \<^verbatim>\<open>lwerror\<close> that returns: \<^verbatim>\<open>wkb_parse_state_check\<close> sets \<^verbatim>\<open>s->error\<close> after the
  call and every other call is followed by its own \<^verbatim>\<open>return NULL\<close>. The model runs
  that code: \<^verbatim>\<open>lwerror\<close> records the message and returns. The message is the first
  argument of the call: the format string as it stands in the source where the call has
  more arguments, and the finished string where the source builds one
  (\<^verbatim>\<open>lwline_from_wkb_state\<close>).
\<close>

definition lwerror :: "string \<Rightarrow> wkb_parse_state \<Rightarrow> wkb_parse_state" where
  "lwerror msg s = s\<lparr>reported := reported s @ [msg]\<rparr>"

definition wkb_parse_state_check :: "wkb_parse_state \<Rightarrow> nat \<Rightarrow> wkb_parse_state" where
  "wkb_parse_state_check s next =
     (if pos s + next > wkb_size s
      then (lwerror ''WKB structure does not match expected size!'' s)\<lparr>error := True\<rparr>
      else s)"

text \<open>The \<open>n\<close> bytes at the read position, and the mark a read of them leaves.\<close>

definition wkb_bytes :: "wkb_parse_state \<Rightarrow> nat \<Rightarrow> byte list" where
  "wkb_bytes s n = take n (drop (pos s) (wkb s))"

definition touch :: "wkb_parse_state \<Rightarrow> nat \<Rightarrow> wkb_parse_state" where
  "touch s n = s\<lparr>oob := oob s \<or> length (wkb s) < pos s + n\<rparr>"

text \<open>
  The value of a stored integer or double: the bytes in memory order, read by a
  little-endian or a big-endian host.
\<close>

fun word_le :: "byte list \<Rightarrow> 'a::len word" where
  "word_le [] = 0"
| "word_le (b # bs) = ucast b OR push_bit 8 (word_le bs)"

definition word_be :: "byte list \<Rightarrow> 'a::len word" where
  "word_be bs = word_le (rev bs)"

definition host_word :: "externals \<Rightarrow> byte list \<Rightarrow> 'a::len word" where
  "host_word ext bs = (if IS_BIG_ENDIAN ext then word_be bs else word_le bs)"

text \<open>
  The endian flip of \<^verbatim>\<open>integer_from_wkb_state\<close> and \<^verbatim>\<open>double_from_wkb_state\<close>:
  for \<open>j\<close> below half the size, swap the bytes \<open>j\<close> and \<open>size - j - 1\<close>.
\<close>

definition flip_bytes :: "nat \<Rightarrow> byte list \<Rightarrow> byte list" where
  "flip_bytes sz bs =
     fold (\<lambda>j b. let tmp = b ! j in (b[j := b ! (sz - j - 1)])[sz - j - 1 := tmp])
       [0 ..< sz div 2] bs"

section \<open>The type number\<close>

definition lwtype_from_wkb_state :: "wkb_parse_state \<Rightarrow> uint32 \<Rightarrow> wkb_parse_state" where
  "lwtype_from_wkb_state s0 wkb_type0 =
     (let s = s0\<lparr>has_z := False, has_m := False, has_srid := False\<rparr>;
          s = (if wkb_type0 AND 0xF0000000 \<noteq> 0
               then s\<lparr>has_z := (wkb_type0 AND WKBZOFFSET \<noteq> 0),
                      has_m := (wkb_type0 AND WKBMOFFSET \<noteq> 0),
                      has_srid := (wkb_type0 AND WKBSRIDFLAG \<noteq> 0)\<rparr>
               else s);
          wkb_type = wkb_type0 AND 0x0FFFFFFF
      in if wkb_type \<ge> 4000 then lwerror ''Unknown WKB type (%d)!'' s
         else
           let wkb_simple_type = wkb_type mod 1000;
               s = (if wkb_type \<ge> 3000 \<and> wkb_type < 4000 then s\<lparr>has_z := True, has_m := True\<rparr>
                    else if wkb_type \<ge> 2000 \<and> wkb_type < 3000 then s\<lparr>has_m := True\<rparr>
                    else if wkb_type \<ge> 1000 \<and> wkb_type < 2000 then s\<lparr>has_z := True\<rparr>
                    else s)
           in if wkb_simple_type = WKB_POINT_TYPE then s\<lparr>lwtype := POINTTYPE\<rparr>
              else if wkb_simple_type = WKB_LINESTRING_TYPE then s\<lparr>lwtype := LINETYPE\<rparr>
              else if wkb_simple_type = WKB_POLYGON_TYPE then s\<lparr>lwtype := POLYGONTYPE\<rparr>
              else if wkb_simple_type = WKB_CIRCULARSTRING_TYPE then s\<lparr>lwtype := CIRCSTRINGTYPE\<rparr>
              else if wkb_simple_type = WKB_MULTIPOINT_TYPE then s\<lparr>lwtype := MULTIPOINTTYPE\<rparr>
              else if wkb_simple_type = WKB_MULTILINESTRING_TYPE then s\<lparr>lwtype := MULTILINETYPE\<rparr>
              else if wkb_simple_type = WKB_MULTIPOLYGON_TYPE then s\<lparr>lwtype := MULTIPOLYGONTYPE\<rparr>
              else if wkb_simple_type = WKB_TRIANGLE_TYPE then s\<lparr>lwtype := TRIANGLETYPE\<rparr>
              else if wkb_simple_type = WKB_GEOMETRYCOLLECTION_TYPE then s\<lparr>lwtype := COLLECTIONTYPE\<rparr>
              else if wkb_simple_type = WKB_COMPOUNDCURVE_TYPE then s\<lparr>lwtype := COMPOUNDTYPE\<rparr>
              else if wkb_simple_type = WKB_CURVEPOLYGON_TYPE then s\<lparr>lwtype := CURVEPOLYTYPE\<rparr>
              else if wkb_simple_type = WKB_MULTICURVE_TYPE then s\<lparr>lwtype := MULTICURVETYPE\<rparr>
              else if wkb_simple_type = WKB_MULTISURFACE_TYPE then s\<lparr>lwtype := MULTISURFACETYPE\<rparr>
              else if wkb_simple_type = WKB_POLYHEDRALSURFACE_TYPE
                then s\<lparr>lwtype := POLYHEDRALSURFACETYPE\<rparr>
              else if wkb_simple_type = WKB_TIN_TYPE then s\<lparr>lwtype := TINTYPE\<rparr>
              else if wkb_simple_type = WKB_CURVE_TYPE then s\<lparr>lwtype := CURVEPOLYTYPE\<rparr>
              else if wkb_simple_type = WKB_SURFACE_TYPE then s\<lparr>lwtype := MULTICURVETYPE\<rparr>
              else lwerror ''Unknown WKB type (%d)! Full WKB type number was (%d).'' s)"

section \<open>Bytes, integers and doubles\<close>

definition byte_from_wkb_state :: "wkb_parse_state \<Rightarrow> byte \<times> wkb_parse_state" where
  "byte_from_wkb_state s0 =
     (let s = wkb_parse_state_check s0 WKB_BYTE_SIZE
      in if error s then (0, s)
         else
           let char_value = (case wkb_bytes s WKB_BYTE_SIZE of [] \<Rightarrow> 0 | b # _ \<Rightarrow> b)
           in (char_value, (touch s WKB_BYTE_SIZE)\<lparr>pos := pos s + WKB_BYTE_SIZE\<rparr>))"

definition integer_from_wkb_state ::
  "externals \<Rightarrow> wkb_parse_state \<Rightarrow> uint32 \<times> wkb_parse_state" where
  "integer_from_wkb_state ext s0 =
     (let s = wkb_parse_state_check s0 WKB_INT_SIZE
      in if error s then (0, s)
         else
           let i = wkb_bytes s WKB_INT_SIZE;
               i = (if swap_bytes s then flip_bytes WKB_INT_SIZE i else i)
           in (host_word ext i, (touch s WKB_INT_SIZE)\<lparr>pos := pos s + WKB_INT_SIZE\<rparr>))"

text \<open>\<^verbatim>\<open>double_from_wkb_state\<close> checks nothing: its callers check before they call.\<close>

definition double_from_wkb_state ::
  "externals \<Rightarrow> wkb_parse_state \<Rightarrow> double \<times> wkb_parse_state" where
  "double_from_wkb_state ext s =
     (let d = wkb_bytes s WKB_DOUBLE_SIZE;
          d = (if swap_bytes s then flip_bytes WKB_DOUBLE_SIZE d else d)
      in (host_word ext d, (touch s WKB_DOUBLE_SIZE)\<lparr>pos := pos s + WKB_DOUBLE_SIZE\<rparr>))"

section \<open>Point arrays\<close>

text \<open>
  Modelled from the spec: \<^verbatim>\<open>ptarray_construct\<close> and \<^verbatim>\<open>ptarray_construct_copy_data\<close>
  are not among the sources. A point array is "an ordered sequence of coordinate tuples",
  its dimensionality fixed by the has-Z and has-M flags (section 3). The first gives an
  array whose doubles the caller then writes; the second copies the doubles from the
  buffer as they stand, so each one is the host's reading of its 8 bytes.
\<close>

definition ptarray_construct :: "bool \<Rightarrow> bool \<Rightarrow> uint32 \<Rightarrow> double list \<Rightarrow> POINTARRAY" where
  "ptarray_construct hasz hasm n dlist =
     \<lparr>pa_has_z = hasz, pa_has_m = hasm, npoints = n, pointlist = dlist\<rparr>"

fun doubles_of_bytes :: "externals \<Rightarrow> nat \<Rightarrow> byte list \<Rightarrow> double list" where
  "doubles_of_bytes ext 0 bs = []"
| "doubles_of_bytes ext (Suc n) bs =
     host_word ext (take WKB_DOUBLE_SIZE bs) # doubles_of_bytes ext n (drop WKB_DOUBLE_SIZE bs)"

definition ptarray_construct_copy_data ::
  "externals \<Rightarrow> bool \<Rightarrow> bool \<Rightarrow> uint32 \<Rightarrow> nat \<Rightarrow> byte list \<Rightarrow> POINTARRAY" where
  "ptarray_construct_copy_data ext hasz hasm n ndoubles bs =
     \<lparr>pa_has_z = hasz, pa_has_m = hasm, npoints = n,
      pointlist = doubles_of_bytes ext ndoubles bs\<rparr>"

text \<open>
  The loop \<^verbatim>\<open>for (i = 0; i < n; i++) dlist[i] = double_from_wkb_state(s)\<close> of the
  byte-swapping branch.
\<close>

fun doubles_from_wkb_state ::
  "externals \<Rightarrow> nat \<Rightarrow> wkb_parse_state \<Rightarrow> double list \<times> wkb_parse_state" where
  "doubles_from_wkb_state ext 0 s = ([], s)"
| "doubles_from_wkb_state ext (Suc n) s =
     (let (d, s1) = double_from_wkb_state ext s;
          (ds, s2) = doubles_from_wkb_state ext n s1
      in (d # ds, s2))"

text \<open>\<^verbatim>\<open>UINT_MAX / WKB_DOUBLE_SIZE / 4\<close>, with a 32-bit \<^verbatim>\<open>unsigned int\<close>.\<close>

abbreviation (input) maxpoints :: uint32 where
  "maxpoints \<equiv> 0xFFFFFFFF div 8 div 4"

text \<open>
  \<^verbatim>\<open>ndims\<close> is a \<^verbatim>\<open>uint32_t\<close>, and so are the products \<^verbatim>\<open>npoints * ndims\<close> and
  \<^verbatim>\<open>npoints * ndims * WKB_DOUBLE_SIZE\<close>: they are computed modulo \<open>2 ^ 32\<close> before
  the result becomes a \<^verbatim>\<open>size_t\<close>.
\<close>

definition ndims_of :: "wkb_parse_state \<Rightarrow> uint32" where
  "ndims_of s = 2 + (if has_z s then 1 else 0) + (if has_m s then 1 else 0)"

definition ptarray_from_wkb_state ::
  "externals \<Rightarrow> wkb_parse_state \<Rightarrow> POINTARRAY option \<times> wkb_parse_state" where
  "ptarray_from_wkb_state ext s0 =
     (let (npoints, s) = integer_from_wkb_state ext s0
      in if error s then (None, s)
         else if npoints > maxpoints then (None, s\<lparr>error := True\<rparr>)
         else
           let ndims = ndims_of s;
               pa_size = unat (npoints * ndims * 8)
           in if npoints = 0 then (Some (ptarray_construct (has_z s) (has_m s) npoints []), s)
              else
                let s = wkb_parse_state_check s pa_size
                in if error s then (None, s)
                   else if \<not> swap_bytes s
                     then (Some (ptarray_construct_copy_data ext (has_z s) (has_m s) npoints
                                   (unat (npoints * ndims)) (wkb_bytes s pa_size)),
                           (touch s pa_size)\<lparr>pos := pos s + pa_size\<rparr>)
                     else
                       let (dlist, s) = doubles_from_wkb_state ext (unat (npoints * ndims)) s
                       in (Some (ptarray_construct (has_z s) (has_m s) npoints dlist), s))"

section \<open>Geometries without children\<close>

text \<open>
  Modelled from the spec: the constructors \<^verbatim>\<open>lwpoint_construct\<close>,
  \<^verbatim>\<open>lwline_construct_empty\<close>, ... are not among the sources. Each geometry carries its
  SRID, its has-Z and has-M flags and its payload (section 3); an empty one has a point
  array of no points, or no rings, or no children. A constructor that is given a point
  array takes the flags from it.
\<close>

definition lwpoint_construct_empty :: "uint32 \<Rightarrow> bool \<Rightarrow> bool \<Rightarrow> lwgeom" where
  "lwpoint_construct_empty sr hasz hasm = LWPOINT sr hasz hasm (ptarray_construct hasz hasm 0 [])"

definition lwpoint_construct :: "uint32 \<Rightarrow> POINTARRAY \<Rightarrow> lwgeom" where
  "lwpoint_construct sr pa = LWPOINT sr (pa_has_z pa) (pa_has_m pa) pa"

definition lwline_construct_empty :: "uint32 \<Rightarrow> bool \<Rightarrow> bool \<Rightarrow> lwgeom" where
  "lwline_construct_empty sr hasz hasm = LWLINE sr hasz hasm (ptarray_construct hasz hasm 0 [])"

definition lwline_construct :: "uint32 \<Rightarrow> POINTARRAY \<Rightarrow> lwgeom" where
  "lwline_construct sr pa = LWLINE sr (pa_has_z pa) (pa_has_m pa) pa"

definition lwcircstring_construct_empty :: "uint32 \<Rightarrow> bool \<Rightarrow> bool \<Rightarrow> lwgeom" where
  "lwcircstring_construct_empty sr hasz hasm =
     LWCIRCSTRING sr hasz hasm (ptarray_construct hasz hasm 0 [])"

definition lwcircstring_construct :: "uint32 \<Rightarrow> POINTARRAY \<Rightarrow> lwgeom" where
  "lwcircstring_construct sr pa = LWCIRCSTRING sr (pa_has_z pa) (pa_has_m pa) pa"

definition lwtriangle_construct_empty :: "uint32 \<Rightarrow> bool \<Rightarrow> bool \<Rightarrow> lwgeom" where
  "lwtriangle_construct_empty sr hasz hasm =
     LWTRIANGLE sr hasz hasm (ptarray_construct hasz hasm 0 [])"

definition lwtriangle_construct :: "uint32 \<Rightarrow> POINTARRAY \<Rightarrow> lwgeom" where
  "lwtriangle_construct sr pa = LWTRIANGLE sr (pa_has_z pa) (pa_has_m pa) pa"

definition lwpoly_construct_empty :: "uint32 \<Rightarrow> bool \<Rightarrow> bool \<Rightarrow> lwgeom" where
  "lwpoly_construct_empty sr hasz hasm = LWPOLY sr hasz hasm []"

definition lwcurvepoly_construct_empty :: "uint32 \<Rightarrow> bool \<Rightarrow> bool \<Rightarrow> lwgeom" where
  "lwcurvepoly_construct_empty sr hasz hasm = LWCURVEPOLY sr hasz hasm []"

definition lwcollection_construct_empty :: "lwtype \<Rightarrow> uint32 \<Rightarrow> bool \<Rightarrow> bool \<Rightarrow> lwgeom" where
  "lwcollection_construct_empty t sr hasz hasm = LWCOLLECTION t sr hasz hasm []"

text \<open>
  \<^verbatim>\<open>std::isnan\<close> on the pattern of a double: all exponent bits set and a fraction that
  is not zero.
\<close>

definition isnan :: "double \<Rightarrow> bool" where
  "isnan d = (d AND 0x7FF0000000000000 = 0x7FF0000000000000 \<and> d AND 0x000FFFFFFFFFFFFF \<noteq> 0)"

text \<open>\<^verbatim>\<open>getPoint2d_cp(pa, 0)\<close>: the first two doubles of the array.\<close>

definition getPoint2d_cp_0 :: "POINTARRAY \<Rightarrow> double \<times> double" where
  "getPoint2d_cp_0 pa =
     (case pointlist pa of x # y # _ \<Rightarrow> (x, y) | [x] \<Rightarrow> (x, 0) | [] \<Rightarrow> (0, 0))"

definition lwpoint_from_wkb_state ::
  "externals \<Rightarrow> wkb_parse_state \<Rightarrow> lwgeom option \<times> wkb_parse_state" where
  "lwpoint_from_wkb_state ext s0 =
     (let ndims = ndims_of s0;
          pa_size = unat (ndims * 8);
          s = wkb_parse_state_check s0 pa_size
      in if error s then (None, s)
         else
           let (pa, s) =
                 (if \<not> swap_bytes s
                  then (ptarray_construct_copy_data ext (has_z s) (has_m s) 1 (unat ndims)
                          (wkb_bytes s pa_size),
                        (touch s pa_size)\<lparr>pos := pos s + pa_size\<rparr>)
                  else
                    let (dlist, s) = doubles_from_wkb_state ext (unat ndims) s
                    in (ptarray_construct (has_z s) (has_m s) 1 dlist, s));
               (x, y) = getPoint2d_cp_0 pa
           in if isnan x \<and> isnan y
              then (Some (lwpoint_construct_empty (srid s) (has_z s) (has_m s)), s)
              else (Some (lwpoint_construct (srid s) pa), s))"

definition lwline_from_wkb_state ::
  "externals \<Rightarrow> wkb_parse_state \<Rightarrow> lwgeom option \<times> wkb_parse_state" where
  "lwline_from_wkb_state ext s0 =
     (let (pa, s) = ptarray_from_wkb_state ext s0
      in if error s then (None, s)
         else case pa of
             None \<Rightarrow> (Some (lwline_construct_empty (srid s) (has_z s) (has_m s)), s)
           | Some pa \<Rightarrow>
               if npoints pa = 0
               then (Some (lwline_construct_empty (srid s) (has_z s) (has_m s)), s)
               else if LW_PARSER_CHECK_MINPOINTS \<in> check s \<and> npoints pa < 2
               then (None, lwerror (lwtype_name ext (lwtype s) @ '' must have at least two points'') s)
               else (Some (lwline_construct (srid s) pa), s))"

definition lwcircstring_from_wkb_state ::
  "externals \<Rightarrow> wkb_parse_state \<Rightarrow> lwgeom option \<times> wkb_parse_state" where
  "lwcircstring_from_wkb_state ext s0 =
     (let (pa, s) = ptarray_from_wkb_state ext s0
      in if error s then (None, s)
         else case pa of
             None \<Rightarrow> (Some (lwcircstring_construct_empty (srid s) (has_z s) (has_m s)), s)
           | Some pa \<Rightarrow>
               if npoints pa = 0
               then (Some (lwcircstring_construct_empty (srid s) (has_z s) (has_m s)), s)
               else if LW_PARSER_CHECK_MINPOINTS \<in> check s \<and> npoints pa < 3
               then (None, s)
               else if LW_PARSER_CHECK_ODD \<in> check s \<and> npoints pa mod 2 = 0
               then (None, s)
               else (Some (lwcircstring_construct (srid s) pa), s))"

text \<open>
  Modelled from the spec: \<^verbatim>\<open>lwpoly_add_ring\<close> is not among the sources. A polygon
  has "an ordered sequence of rings (first = shell, rest = holes)" (section 3), and the
  decoder hands it a polygon and a point array that both exist, so the ring is appended.
\<close>

fun lwpoly_add_ring :: "lwgeom \<Rightarrow> POINTARRAY \<Rightarrow> lwgeom option" where
  "lwpoly_add_ring (LWPOLY sr hasz hasm rings) pa = Some (LWPOLY sr hasz hasm (rings @ [pa]))"
| "lwpoly_add_ring _ pa = None"

text \<open>The loop over the rings of \<^verbatim>\<open>lwpoly_from_wkb_state\<close>; \<open>n\<close> rings are still to read.\<close>

fun lwpoly_rings_from_wkb_state ::
  "externals \<Rightarrow> nat \<Rightarrow> lwgeom \<Rightarrow> wkb_parse_state \<Rightarrow> lwgeom option \<times> wkb_parse_state" where
  "lwpoly_rings_from_wkb_state ext 0 poly s = (Some poly, s)"
| "lwpoly_rings_from_wkb_state ext (Suc n) poly s0 =
     (let (pa, s) = ptarray_from_wkb_state ext s0
      in case pa of
           None \<Rightarrow> (None, s)
         | Some pa \<Rightarrow>
             if LW_PARSER_CHECK_MINPOINTS \<in> check s \<and> npoints pa < 4
             then (None, lwerror ''%s must have at least four points in each ring'' s)
             else if LW_PARSER_CHECK_CLOSURE \<in> check s \<and> \<not> ptarray_is_closed_2d ext pa
             then (None, lwerror ''%s must have closed rings'' s)
             else (case lwpoly_add_ring poly pa of
                 None \<Rightarrow> (None, lwerror ''Unable to add ring to polygon'' s)
               | Some poly \<Rightarrow> lwpoly_rings_from_wkb_state ext n poly s))"

definition lwpoly_from_wkb_state ::
  "externals \<Rightarrow> wkb_parse_state \<Rightarrow> lwgeom option \<times> wkb_parse_state" where
  "lwpoly_from_wkb_state ext s0 =
     (let (nrings, s) = integer_from_wkb_state ext s0
      in if error s then (None, s)
         else
           let poly = lwpoly_construct_empty (srid s) (has_z s) (has_m s)
           in if nrings = 0 then (Some poly, s)
              else lwpoly_rings_from_wkb_state ext (unat nrings) poly s)"

definition lwtriangle_from_wkb_state ::
  "externals \<Rightarrow> wkb_parse_state \<Rightarrow> lwgeom option \<times> wkb_parse_state" where
  "lwtriangle_from_wkb_state ext s0 =
     (let (nrings, s) = integer_from_wkb_state ext s0
      in if error s then (None, s)
         else if nrings = 0
           then (Some (lwtriangle_construct_empty (srid s) (has_z s) (has_m s)), s)
         else if nrings \<noteq> 1
           then (None, lwerror ''Triangle has wrong number of rings: %d'' s)
         else
           let (pa, s) = ptarray_from_wkb_state ext s
           in case pa of
                None \<Rightarrow> (Some (lwtriangle_construct_empty (srid s) (has_z s) (has_m s)), s)
              | Some pa \<Rightarrow>
                  if LW_PARSER_CHECK_MINPOINTS \<in> check s \<and> npoints pa < 4
                  then (None, lwerror ''%s must have at least four points'' s)
                  else if LW_PARSER_CHECK_ZCLOSURE \<in> check s \<and> \<not> ptarray_is_closed_z ext pa
                  then (None, lwerror ''%s must have closed rings'' s)
                  else (Some (lwtriangle_construct (srid s) pa), s))"

section \<open>Geometries with children\<close>

text \<open>
  Modelled from the spec: \<^verbatim>\<open>lwcurvepoly_add_ring\<close> and \<^verbatim>\<open>lwcollection_add_lwgeom\<close>
  are not among the sources. Neither can attach a child that does not exist. A curve
  polygon has "an ordered sequence of ring geometries (each a Line or CircularString or
  CompoundCurve)" and a collection "an ordered sequence of owned child Geometries,
  homogeneously typed per its collection kind" (section 3); which kinds a collection kind
  admits is left to \<open>lwcollection_allows_subtype\<close>.
\<close>

fun lwcurvepoly_add_ring :: "lwgeom \<Rightarrow> lwgeom option \<Rightarrow> lwgeom option" where
  "lwcurvepoly_add_ring (LWCURVEPOLY sr hasz hasm rings) (Some ring) =
     (if lwgeom_type ring = LINETYPE \<or> lwgeom_type ring = CIRCSTRINGTYPE
         \<or> lwgeom_type ring = COMPOUNDTYPE
      then Some (LWCURVEPOLY sr hasz hasm (rings @ [ring]))
      else None)"
| "lwcurvepoly_add_ring _ _ = None"

fun lwcollection_add_lwgeom :: "externals \<Rightarrow> lwgeom \<Rightarrow> lwgeom option \<Rightarrow> lwgeom option" where
  "lwcollection_add_lwgeom ext (LWCOLLECTION t sr hasz hasm geoms) (Some geom) =
     (if lwcollection_allows_subtype ext t (lwgeom_type geom)
      then Some (LWCOLLECTION t sr hasz hasm (geoms @ [geom]))
      else None)"
| "lwcollection_add_lwgeom ext _ _ = None"

text \<open>
  The decoder is recursive: \<^verbatim>\<open>lwgeom_from_wkb_state\<close> calls the reader of the kind,
  and the readers of curve polygons and collections call \<^verbatim>\<open>lwgeom_from_wkb_state\<close> on
  each child. The result of a call is \<open>Some (geometry or NULL, state after)\<close>.

  The readers below take the recursive call as their argument \<open>child\<close>.
  \<^verbatim>\<open>lwgeom_from_wkb_state\<close> itself gets the number of calls that may be open at once,
  itself included: with none left it is \<open>None\<close>, which the readers pass on. So
  \<open>lwgeom_from_wkb_state ext n s = None\<close> says that the decoding of \<open>s\<close> opens more than
  \<open>n\<close> nested calls of \<^verbatim>\<open>lwgeom_from_wkb_state\<close>.
\<close>

type_synonym wkb_result = "(lwgeom option \<times> wkb_parse_state) option"

fun lwcurvepoly_rings_from_wkb_state ::
  "(wkb_parse_state \<Rightarrow> wkb_result) \<Rightarrow> nat \<Rightarrow> lwgeom \<Rightarrow> wkb_parse_state \<Rightarrow> wkb_result" where
  "lwcurvepoly_rings_from_wkb_state child 0 cp s = Some (Some cp, s)"
| "lwcurvepoly_rings_from_wkb_state child (Suc n) cp s0 =
     (case child s0 of
        None \<Rightarrow> None
      | Some (geom, s) \<Rightarrow>
          (case lwcurvepoly_add_ring cp geom of
             None \<Rightarrow> Some (None, lwerror ''Unable to add geometry (%p) to curvepoly (%p)'' s)
           | Some cp \<Rightarrow> lwcurvepoly_rings_from_wkb_state child n cp s))"

definition lwcurvepoly_from_wkb_state ::
  "externals \<Rightarrow> (wkb_parse_state \<Rightarrow> wkb_result) \<Rightarrow> wkb_parse_state \<Rightarrow> wkb_result" where
  "lwcurvepoly_from_wkb_state ext child s0 =
     (let (ngeoms, s) = integer_from_wkb_state ext s0
      in if error s then Some (None, s)
         else
           let cp = lwcurvepoly_construct_empty (srid s) (has_z s) (has_m s)
           in if ngeoms = 0 then Some (Some cp, s)
              else lwcurvepoly_rings_from_wkb_state child (unat ngeoms) cp s)"

fun lwcollection_geoms_from_wkb_state ::
  "externals \<Rightarrow> (wkb_parse_state \<Rightarrow> wkb_result) \<Rightarrow> nat \<Rightarrow> lwgeom \<Rightarrow> wkb_parse_state
     \<Rightarrow> wkb_result" where
  "lwcollection_geoms_from_wkb_state ext child 0 col s = Some (Some col, s)"
| "lwcollection_geoms_from_wkb_state ext child (Suc n) col s0 =
     (case child s0 of
        None \<Rightarrow> None
      | Some (geom, s) \<Rightarrow>
          (case lwcollection_add_lwgeom ext col geom of
             None \<Rightarrow> Some (None, lwerror ''Unable to add geometry (%p) to collection (%p)'' s)
           | Some col \<Rightarrow> lwcollection_geoms_from_wkb_state ext child n col s))"

definition lwcollection_from_wkb_state ::
  "externals \<Rightarrow> (wkb_parse_state \<Rightarrow> wkb_result) \<Rightarrow> wkb_parse_state \<Rightarrow> wkb_result" where
  "lwcollection_from_wkb_state ext child s0 =
     (let (ngeoms, s) = integer_from_wkb_state ext s0
      in if error s then Some (None, s)
         else
           let col = lwcollection_construct_empty (lwtype s) (srid s) (has_z s) (has_m s)
           in if ngeoms = 0 then Some (Some col, s)
              else
                let s = (if lwtype s = POLYHEDRALSURFACETYPE
                         then s\<lparr>check := insert LW_PARSER_CHECK_ZCLOSURE (check s)\<rparr>
                         else s);
                    s = s\<lparr>depth := depth s + 1\<rparr>
                in if depth s \<ge> LW_PARSER_MAX_DEPTH
                   then Some (None, lwerror ''Geometry has too many chained collections'' s)
                   else
                     (case lwcollection_geoms_from_wkb_state ext child (unat ngeoms) col s of
                        None \<Rightarrow> None
                      | Some (None, s) \<Rightarrow> Some (None, s)
                      | Some (Some col, s) \<Rightarrow> Some (Some col, s\<lparr>depth := depth s - 1\<rparr>)))"

text \<open>
  The front of \<^verbatim>\<open>lwgeom_from_wkb_state\<close>: the endian byte, the type number and the
  SRID. \<open>Inl\<close> is the state of an early \<^verbatim>\<open>return NULL\<close>, \<open>Inr\<close> the state at the
  \<^verbatim>\<open>switch\<close>.
\<close>

definition wkb_header_from_wkb_state ::
  "externals \<Rightarrow> wkb_parse_state \<Rightarrow> wkb_parse_state + wkb_parse_state" where
  "wkb_header_from_wkb_state ext s0 =
     (let (wkb_little_endian, s) = byte_from_wkb_state s0
      in if error s then Inl s
         else if wkb_little_endian \<noteq> 1 \<and> wkb_little_endian \<noteq> 0
           then Inl (lwerror ''Invalid endian flag value encountered.'' s)
         else
           let s = s\<lparr>swap_bytes := False\<rparr>;
               s = (if IS_BIG_ENDIAN ext \<and> wkb_little_endian \<noteq> 0 then s\<lparr>swap_bytes := True\<rparr>
                    else if \<not> IS_BIG_ENDIAN ext \<and> wkb_little_endian = 0
                      then s\<lparr>swap_bytes := True\<rparr>
                    else s);
               (wkb_type, s) = integer_from_wkb_state ext s
           in if error s then Inl s
              else
                let s = lwtype_from_wkb_state s wkb_type
                in if has_srid s
                   then
                     let (i, s) = integer_from_wkb_state ext s;
                         s = s\<lparr>srid := clamp_srid ext i\<rparr>
                     in if error s then Inl s else Inr s
                   else Inr s)"

text \<open>
  The last case of the \<^verbatim>\<open>switch\<close> below stands for the nine labels that share
  \<^verbatim>\<open>lwcollection_from_wkb_state\<close>: \<^verbatim>\<open>MULTIPOINTTYPE\<close>, \<^verbatim>\<open>MULTILINETYPE\<close>,
  \<^verbatim>\<open>MULTIPOLYGONTYPE\<close>, \<^verbatim>\<open>COMPOUNDTYPE\<close>, \<^verbatim>\<open>MULTICURVETYPE\<close>,
  \<^verbatim>\<open>MULTISURFACETYPE\<close>, \<^verbatim>\<open>POLYHEDRALSURFACETYPE\<close>, \<^verbatim>\<open>TINTYPE\<close> and
  \<^verbatim>\<open>COLLECTIONTYPE\<close>; \<^verbatim>\<open>NOTYPE\<close> takes the \<^verbatim>\<open>default\<close> label.
\<close>

primrec lwgeom_from_wkb_state :: "externals \<Rightarrow> nat \<Rightarrow> wkb_parse_state \<Rightarrow> wkb_result" where
  "lwgeom_from_wkb_state ext 0 s0 = None"
| "lwgeom_from_wkb_state ext (Suc calls) s0 =
     (case wkb_header_from_wkb_state ext s0 of
        Inl s \<Rightarrow> Some (None, s)
      | Inr s \<Rightarrow>
          (case lwtype s of
             POINTTYPE \<Rightarrow> Some (lwpoint_from_wkb_state ext s)
           | LINETYPE \<Rightarrow> Some (lwline_from_wkb_state ext s)
           | POLYGONTYPE \<Rightarrow> Some (lwpoly_from_wkb_state ext s)
           | CIRCSTRINGTYPE \<Rightarrow> Some (lwcircstring_from_wkb_state ext s)
           | TRIANGLETYPE \<Rightarrow> Some (lwtriangle_from_wkb_state ext s)
           | CURVEPOLYTYPE \<Rightarrow>
               lwcurvepoly_from_wkb_state ext (lwgeom_from_wkb_state ext calls) s
           | NOTYPE \<Rightarrow> Some (None, lwerror ''%s: Unsupported geometry type: %s'' s)
           | _ \<Rightarrow> lwcollection_from_wkb_state ext (lwgeom_from_wkb_state ext calls) s))"

text \<open>
  \<^verbatim>\<open>lwgeom_from_wkb\<close>. The first call of \<^verbatim>\<open>lwgeom_from_wkb_state\<close> is given one
  nested call more than the buffer has bytes; \<open>None\<close> then says that the decoder opens
  more nested calls than that. The null pointer is no value of \<open>byte list\<close>: of the test \<^verbatim>\<open>!wkb || !wkb_size\<close> the
  model has the second half.
\<close>

definition wkb_parse_state_init :: "externals \<Rightarrow> byte list \<Rightarrow> nat \<Rightarrow> parser_check set
     \<Rightarrow> wkb_parse_state" where
  "wkb_parse_state_init ext buf size_of_buf chk =
     \<lparr>wkb = buf, srid = SRID_UNKNOWN ext, wkb_size = size_of_buf, swap_bytes = False,
      check = chk, lwtype = NOTYPE, has_z = False, has_m = False, has_srid = False,
      error = False, depth = 1, pos = 0, reported = [], oob = False\<rparr>"

definition lwgeom_from_wkb :: "externals \<Rightarrow> byte list \<Rightarrow> nat \<Rightarrow> parser_check set \<Rightarrow> wkb_result" where
  "lwgeom_from_wkb ext buf size_of_buf chk =
     (let s = wkb_parse_state_init ext buf size_of_buf chk
      in if size_of_buf = 0 then Some (None, s)
         else lwgeom_from_wkb_state ext (Suc size_of_buf) s)"

section \<open>Geometry introspection\<close>

text \<open>
  Modelled from the spec: \<^verbatim>\<open>lwgeom_is_empty\<close>, \<^verbatim>\<open>lwline_count_vertices\<close>,
  \<^verbatim>\<open>lwpoly_count_vertices\<close> and \<^verbatim>\<open>lwcollection_count_vertices\<close> are not among the
  sources. An empty geometry has "zero vertices / zero children, recursively" (section 3);
  the vertices of a line are the points of its array, those of a polygon the points of
  its rings, those of a collection the vertices of its children (section 4.4). The counts
  are \<^verbatim>\<open>uint32_t\<close>, as in \<^verbatim>\<open>lwgeom_count_vertices\<close>.
\<close>

fun lwgeom_is_empty :: "lwgeom \<Rightarrow> bool" where
  "lwgeom_is_empty (LWPOINT _ _ _ pa) = (npoints pa = 0)"
| "lwgeom_is_empty (LWLINE _ _ _ pa) = (npoints pa = 0)"
| "lwgeom_is_empty (LWCIRCSTRING _ _ _ pa) = (npoints pa = 0)"
| "lwgeom_is_empty (LWTRIANGLE _ _ _ pa) = (npoints pa = 0)"
| "lwgeom_is_empty (LWPOLY _ _ _ rings) = list_all (\<lambda>pa. npoints pa = 0) rings"
| "lwgeom_is_empty (LWCURVEPOLY _ _ _ rings) = list_all lwgeom_is_empty rings"
| "lwgeom_is_empty (LWCOLLECTION _ _ _ _ geoms) = list_all lwgeom_is_empty geoms"

definition lwline_count_vertices :: "POINTARRAY \<Rightarrow> uint32" where
  "lwline_count_vertices pa = npoints pa"

definition lwpoly_count_vertices :: "POINTARRAY list \<Rightarrow> uint32" where
  "lwpoly_count_vertices rings = sum_list (map npoints rings)"

text \<open>
  \<^verbatim>\<open>lwgeom_count_vertices\<close> switches on the type of the geometry; here the constructor
  is the type (a value \<open>LWCOLLECTION t\<close> stands for a collection of any of the kinds
  that \<^verbatim>\<open>lwgeom_from_wkb_state\<close> builds with \<^verbatim>\<open>lwcollection_construct_empty\<close>).
\<close>

fun lwgeom_count_vertices :: "lwgeom \<Rightarrow> uint32" where
  "lwgeom_count_vertices (LWPOINT sr hasz hasm pa) =
     (if lwgeom_is_empty (LWPOINT sr hasz hasm pa) then 0 else 1)"
| "lwgeom_count_vertices (LWLINE sr hasz hasm pa) =
     (if lwgeom_is_empty (LWLINE sr hasz hasm pa) then 0 else lwline_count_vertices pa)"
| "lwgeom_count_vertices (LWCIRCSTRING sr hasz hasm pa) =
     (if lwgeom_is_empty (LWCIRCSTRING sr hasz hasm pa) then 0 else lwline_count_vertices pa)"
| "lwgeom_count_vertices (LWTRIANGLE sr hasz hasm pa) =
     (if lwgeom_is_empty (LWTRIANGLE sr hasz hasm pa) then 0 else lwline_count_vertices pa)"
| "lwgeom_count_vertices (LWPOLY sr hasz hasm rings) =
     (if lwgeom_is_empty (LWPOLY sr hasz hasm rings) then 0 else lwpoly_count_vertices rings)"
| "lwgeom_count_vertices (LWCURVEPOLY sr hasz hasm rings) =
     (if lwgeom_is_empty (LWCURVEPOLY sr hasz hasm rings) then 0
      else sum_list (map lwgeom_count_vertices rings))"
| "lwgeom_count_vertices (LWCOLLECTION t sr hasz hasm geoms) =
     (if lwgeom_is_empty (LWCOLLECTION t sr hasz hasm geoms) then 0
      else sum_list (map lwgeom_count_vertices geoms))"

definition lwgeom_needs_bbox :: "lwgeom \<Rightarrow> bool" where
  "lwgeom_needs_bbox geom =
     (if lwgeom_type geom = POINTTYPE then False
      else if lwgeom_type geom = LINETYPE
        then (if lwgeom_count_vertices geom \<le> 2 then False else True)
      else True)"

section \<open>The enumeration of type codes, as the spec gives it\<close>

text \<open>
  Section 4.1, step 2 of the spec: "Point=1, LineString=2, Polygon=3, MultiPoint=4,
  MultiLineString=5, MultiPolygon=6, GeometryCollection=7, CircularString=8,
  CompoundCurve=9, CurvePolygon=10, MultiCurve=11, MultiSurface=12, Curve=13 maps to
  CurvePolygon, Surface=14 maps to MultiCurve, PolyhedralSurface=15, TIN=16, Triangle=17".
\<close>

definition wkb_type_table :: "(uint32 \<times> lwtype) list" where
  "wkb_type_table =
     [(1, POINTTYPE), (2, LINETYPE), (3, POLYGONTYPE), (4, MULTIPOINTTYPE),
      (5, MULTILINETYPE), (6, MULTIPOLYGONTYPE), (7, COLLECTIONTYPE),
      (8, CIRCSTRINGTYPE), (9, COMPOUNDTYPE), (10, CURVEPOLYTYPE),
      (11, MULTICURVETYPE), (12, MULTISURFACETYPE), (13, CURVEPOLYTYPE),
      (14, MULTICURVETYPE), (15, POLYHEDRALSURFACETYPE), (16, TINTYPE),
      (17, TRIANGLETYPE)]"

section \<open>The WKB wire format, as the spec gives it\<close>

text \<open>
  Modelled from the spec: the sources hold the decoder only, so the encoding of a
  geometry is written from section 6 of the spec. A geometry is an endianness byte
  (0 big, 1 little), a type code, an SRID if the type code says so, and a payload: one
  coordinate tuple; or a point count and the tuples; or a ring count and the rings, each
  a point count and its tuples; or a child count and the children, each a whole
  geometry. "All multi-byte fields are in the declared endianness; doubles are raw
  IEEE-754 bit patterns."

  The type code is the type number with either the extended flag bits for Z and M or,
  in the ISO form, 1000 added for Z and 2000 for M; the SRID flag is a bit of the code.
  A tuple has X and Y, Z if the geometry has Z, and M if it has M.
\<close>

datatype points_kind = LineString | CircularString

datatype rings_kind = Polygon | Triangle

datatype geoms_kind =
    MultiPoint
  | MultiLineString
  | MultiPolygon
  | GeometryCollection
  | CompoundCurve
  | CurvePolygon
  | MultiCurve
  | MultiSurface
  | Curve
  | Surface
  | PolyhedralSurface
  | TIN

record wkb_flags =
  iso_form :: bool
  with_z :: bool
  with_m :: bool
  with_srid :: "uint32 option"

type_synonym tuple = "double \<times> double \<times> double \<times> double"

datatype geometry =
    Point wkb_flags tuple
  | Points points_kind wkb_flags "tuple list"
  | Rings rings_kind wkb_flags "tuple list list"
  | Geoms geoms_kind wkb_flags "geometry list"

fun points_number :: "points_kind \<Rightarrow> uint32" where
  "points_number LineString = 2"
| "points_number CircularString = 8"

fun rings_number :: "rings_kind \<Rightarrow> uint32" where
  "rings_number Polygon = 3"
| "rings_number Triangle = 17"

fun geoms_number :: "geoms_kind \<Rightarrow> uint32" where
  "geoms_number MultiPoint = 4"
| "geoms_number MultiLineString = 5"
| "geoms_number MultiPolygon = 6"
| "geoms_number GeometryCollection = 7"
| "geoms_number CompoundCurve = 9"
| "geoms_number CurvePolygon = 10"
| "geoms_number MultiCurve = 11"
| "geoms_number MultiSurface = 12"
| "geoms_number Curve = 13"
| "geoms_number Surface = 14"
| "geoms_number PolyhedralSurface = 15"
| "geoms_number TIN = 16"

text \<open>The bytes of a word, least significant first.\<close>

fun le_bytes :: "nat \<Rightarrow> 'a::len word \<Rightarrow> byte list" where
  "le_bytes 0 w = []"
| "le_bytes (Suc n) w = ucast w # le_bytes n (drop_bit 8 w)"

definition wkb_uint32 :: "bool \<Rightarrow> uint32 \<Rightarrow> byte list" where
  "wkb_uint32 little w = (if little then le_bytes 4 w else rev (le_bytes 4 w))"

definition wkb_double :: "bool \<Rightarrow> double \<Rightarrow> byte list" where
  "wkb_double little d = (if little then le_bytes 8 d else rev (le_bytes 8 d))"

definition tuple_doubles :: "wkb_flags \<Rightarrow> tuple \<Rightarrow> double list" where
  "tuple_doubles f t =
     (case t of (x, y, z, m) \<Rightarrow>
        [x, y] @ (if with_z f then [z] else []) @ (if with_m f then [m] else []))"

definition wkb_tuple :: "bool \<Rightarrow> wkb_flags \<Rightarrow> tuple \<Rightarrow> byte list" where
  "wkb_tuple little f t = concat (map (wkb_double little) (tuple_doubles f t))"

definition wkb_type_code :: "uint32 \<Rightarrow> wkb_flags \<Rightarrow> uint32" where
  "wkb_type_code number f =
     (if iso_form f
      then number + (if with_z f then 1000 else 0) + (if with_m f then 2000 else 0)
      else number OR (if with_z f then WKBZOFFSET else 0) OR (if with_m f then WKBMOFFSET else 0))
     OR (if with_srid f = None then 0 else WKBSRIDFLAG)"

definition wkb_header :: "bool \<Rightarrow> uint32 \<Rightarrow> wkb_flags \<Rightarrow> byte list" where
  "wkb_header little number f =
     (if little then 1 else 0) # wkb_uint32 little (wkb_type_code number f)
       @ (case with_srid f of None \<Rightarrow> [] | Some v \<Rightarrow> wkb_uint32 little v)"

definition wkb_points :: "bool \<Rightarrow> wkb_flags \<Rightarrow> tuple list \<Rightarrow> byte list" where
  "wkb_points little f ts =
     wkb_uint32 little (of_nat (length ts)) @ concat (map (wkb_tuple little f) ts)"

fun wkb_encode :: "bool \<Rightarrow> geometry \<Rightarrow> byte list" where
  "wkb_encode little (Point f t) = wkb_header little 1 f @ wkb_tuple little f t"
| "wkb_encode little (Points k f ts) =
     wkb_header little (points_number k) f @ wkb_points little f ts"
| "wkb_encode little (Rings k f rs) =
     wkb_header little (rings_number k) f @ wkb_uint32 little (of_nat (length rs))
       @ concat (map (wkb_points little f) rs)"
| "wkb_encode little (Geoms k f gs) =
     wkb_header little (geoms_number k) f @ wkb_uint32 little (of_nat (length gs))
       @ concat (map (wkb_encode little) gs)"

text \<open>
  A geometry whose counts fit the format and the decoder: every count fits its 4-byte
  field, and no point array has more points than \<^verbatim>\<open>ptarray_from_wkb_state\<close> accepts
  (\<^verbatim>\<open>UINT_MAX / WKB_DOUBLE_SIZE / 4\<close>, that is 134217727).
\<close>

fun wkb_sized :: "geometry \<Rightarrow> bool" where
  "wkb_sized (Point f t) = True"
| "wkb_sized (Points k f ts) = (length ts \<le> 134217727)"
| "wkb_sized (Rings k f rs) =
     (length rs < 2 ^ 32 \<and> list_all (\<lambda>r. length r \<le> 134217727) rs)"
| "wkb_sized (Geoms k f gs) = (length gs < 2 ^ 32 \<and> list_all wkb_sized gs)"

section \<open>Concrete inputs\<close>

text \<open>
  One choice of the parameters, for the theorems about concrete inputs: a little-endian
  host, 0 for \<^verbatim>\<open>SRID_UNKNOWN\<close>, an SRID that is kept as read, a subtype table after the
  collection kinds of the spec, closure tests that compare the first tuple of a
  point array with its last, on X and Y or on X, Y and Z, and the type names of the
  spec's enumeration.
\<close>

definition sample_allows_subtype :: "lwtype \<Rightarrow> lwtype \<Rightarrow> bool" where
  "sample_allows_subtype c t =
     (c = COLLECTIONTYPE
      \<or> (c = MULTIPOINTTYPE \<and> t = POINTTYPE)
      \<or> (c = MULTILINETYPE \<and> t = LINETYPE)
      \<or> (c = MULTIPOLYGONTYPE \<and> t = POLYGONTYPE)
      \<or> (c = COMPOUNDTYPE \<and> (t = LINETYPE \<or> t = CIRCSTRINGTYPE))
      \<or> (c = MULTICURVETYPE \<and> (t = CIRCSTRINGTYPE \<or> t = LINETYPE \<or> t = COMPOUNDTYPE))
      \<or> (c = MULTISURFACETYPE \<and> (t = POLYGONTYPE \<or> t = CURVEPOLYTYPE))
      \<or> (c = POLYHEDRALSURFACETYPE \<and> t = POLYGONTYPE)
      \<or> (c = TINTYPE \<and> t = TRIANGLETYPE))"

definition sample_is_closed :: "nat \<Rightarrow> POINTARRAY \<Rightarrow> bool" where
  "sample_is_closed k pa =
     (let stride = 2 + (if pa_has_z pa then 1 else 0) + (if pa_has_m pa then 1 else 0)
      in take k (pointlist pa) = take k (drop (stride * (unat (npoints pa) - 1)) (pointlist pa)))"

fun sample_lwtype_name :: "lwtype \<Rightarrow> string" where
  "sample_lwtype_name POINTTYPE = ''Point''"
| "sample_lwtype_name LINETYPE = ''LineString''"
| "sample_lwtype_name POLYGONTYPE = ''Polygon''"
| "sample_lwtype_name MULTIPOINTTYPE = ''MultiPoint''"
| "sample_lwtype_name MULTILINETYPE = ''MultiLineString''"
| "sample_lwtype_name MULTIPOLYGONTYPE = ''MultiPolygon''"
| "sample_lwtype_name COLLECTIONTYPE = ''GeometryCollection''"
| "sample_lwtype_name CIRCSTRINGTYPE = ''CircularString''"
| "sample_lwtype_name COMPOUNDTYPE = ''CompoundCurve''"
| "sample_lwtype_name CURVEPOLYTYPE = ''CurvePolygon''"
| "sample_lwtype_name MULTICURVETYPE = ''MultiCurve''"
| "sample_lwtype_name MULTISURFACETYPE = ''MultiSurface''"
| "sample_lwtype_name POLYHEDRALSURFACETYPE = ''PolyhedralSurface''"
| "sample_lwtype_name TRIANGLETYPE = ''Triangle''"
| "sample_lwtype_name TINTYPE = ''TIN''"
| "sample_lwtype_name NOTYPE = ''Unknown''"

definition sample_externals :: externals where
  "sample_externals =
     \<lparr>IS_BIG_ENDIAN = False, SRID_UNKNOWN = 0, clamp_srid = (\<lambda>v. v),
      lwcollection_allows_subtype = sample_allows_subtype,
      ptarray_is_closed_2d = sample_is_closed 2,
      ptarray_is_closed_z = sample_is_closed 3,
      lwtype_name = sample_lwtype_name\<rparr>"

definition xy_flags :: wkb_flags where
  "xy_flags = \<lparr>iso_form = False, with_z = False, with_m = False, with_srid = None\<rparr>"

text \<open>The doubles 0.0, 1.0 and a quiet NaN.\<close>

definition d_zero :: double where
  "d_zero = 0"

definition d_one :: double where
  "d_one = 0x3FF0000000000000"

definition d_nan :: double where
  "d_nan = 0x7FF8000000000000"

definition xy :: "double \<Rightarrow> double \<Rightarrow> tuple" where
  "xy x y = (x, y, 0, 0)"

text \<open>\<open>n\<close> collections, each the only child of the one before, around a geometry.\<close>

fun nested_collections :: "nat \<Rightarrow> geometry \<Rightarrow> geometry" where
  "nested_collections 0 g = g"
| "nested_collections (Suc n) g = Geoms GeometryCollection xy_flags [nested_collections n g]"

text \<open>The same with curve polygons, around an empty curve polygon.\<close>

fun nested_curvepolygons :: "nat \<Rightarrow> geometry" where
  "nested_curvepolygons 0 = Geoms CurvePolygon xy_flags []"
| "nested_curvepolygons (Suc n) = Geoms CurvePolygon xy_flags [nested_curvepolygons n]"

text \<open>A line of one vertex, at the origin.\<close>

definition one_point_line :: lwgeom where
  "one_point_line = LWLINE 0 False False (ptarray_construct False False 1 [d_zero, d_zero])"

text \<open>A triangle in the plane: one closed ring of four points.\<close>

definition sample_triangle :: geometry where
  "sample_triangle =
     Rings Triangle xy_flags
       [[xy d_zero d_zero, xy d_one d_one, xy d_one d_zero, xy d_zero d_zero]]"

text \<open>A collection of a point, a line and the triangle above.\<close>

definition sample_collection :: geometry where
  "sample_collection =
     Geoms GeometryCollection xy_flags
       [Point xy_flags (xy d_one d_zero),
        Points LineString xy_flags [xy d_zero d_zero, xy d_one d_one],
        sample_triangle]"

section \<open>Notions for the proofs\<close>

text \<open>The bytes from the read position on, and a state whose declared size is its buffer's.\<close>

definition unread :: "wkb_parse_state \<Rightarrow> byte list" where
  "unread s = drop (pos s) (wkb s)"

definition sized :: "wkb_parse_state \<Rightarrow> bool" where
  "sized s = (wkb_size s = length (wkb s))"

text \<open>
  Whether the decoder flips the bytes of an input of the given endianness: what
  \<^verbatim>\<open>lwgeom_from_wkb_state\<close> stores in \<^verbatim>\<open>swap_bytes\<close> after the endian byte.
\<close>

definition swap_for :: "externals \<Rightarrow> bool \<Rightarrow> bool" where
  "swap_for ext little = (IS_BIG_ENDIAN ext = little)"

text \<open>The geometry types that the decoder gives to the type numbers of the encoding.\<close>

fun points_lwtype :: "points_kind \<Rightarrow> lwtype" where
  "points_lwtype LineString = LINETYPE"
| "points_lwtype CircularString = CIRCSTRINGTYPE"

fun rings_lwtype :: "rings_kind \<Rightarrow> lwtype" where
  "rings_lwtype Polygon = POLYGONTYPE"
| "rings_lwtype Triangle = TRIANGLETYPE"

fun geoms_lwtype :: "geoms_kind \<Rightarrow> lwtype" where
  "geoms_lwtype MultiPoint = MULTIPOINTTYPE"
| "geoms_lwtype MultiLineString = MULTILINETYPE"
| "geoms_lwtype MultiPolygon = MULTIPOLYGONTYPE"
| "geoms_lwtype GeometryCollection = COLLECTIONTYPE"
| "geoms_lwtype CompoundCurve = COMPOUNDTYPE"
| "geoms_lwtype CurvePolygon = CURVEPOLYTYPE"
| "geoms_lwtype MultiCurve = MULTICURVETYPE"
| "geoms_lwtype MultiSurface = MULTISURFACETYPE"
| "geoms_lwtype Curve = CURVEPOLYTYPE"
| "geoms_lwtype Surface = MULTICURVETYPE"
| "geoms_lwtype PolyhedralSurface = POLYHEDRALSURFACETYPE"
| "geoms_lwtype TIN = TINTYPE"

text \<open>The state at the \<^verbatim>\<open>switch\<close> of \<^verbatim>\<open>lwgeom_from_wkb_state\<close>, after an encoded header.\<close>

definition after_header ::
  "externals \<Rightarrow> bool \<Rightarrow> uint32 \<Rightarrow> wkb_flags \<Rightarrow> lwtype \<Rightarrow> wkb_parse_state \<Rightarrow> wkb_parse_state" where
  "after_header ext e n f k s =
     s\<lparr>pos := pos s + length (wkb_header e n f), swap_bytes := swap_for ext e,
       has_z := with_z f, has_m := with_m f, has_srid := (with_srid f \<noteq> None),
       lwtype := k,
       srid := (case with_srid f of None \<Rightarrow> srid s | Some v \<Rightarrow> clamp_srid ext v)\<rparr>"

text \<open>How many geometries of a geometry are inside one another, itself included.\<close>

fun nesting :: "geometry \<Rightarrow> nat" where
  "nesting (Point f t) = 1"
| "nesting (Points k f ts) = 1"
| "nesting (Rings k f rs) = 1"
| "nesting (Geoms k f gs) = Suc (foldr (\<lambda>g n. max (nesting g) n) gs 0)"

text \<open>
  Two states of two runs of the decoder, on two buffers: equal but for the buffer, its
  size and the flip. And two results of two such runs: the same geometry or NULL, states
  that are equal in this sense, no error; after a geometry, each run stands at the given
  rest of its buffer.
\<close>

definition sim :: "wkb_parse_state \<Rightarrow> wkb_parse_state \<Rightarrow> bool" where
  "sim s1 s2 =
     (srid s1 = srid s2 \<and> check s1 = check s2 \<and> lwtype s1 = lwtype s2
      \<and> has_z s1 = has_z s2 \<and> has_m s1 = has_m s2 \<and> has_srid s1 = has_srid s2
      \<and> error s1 = error s2 \<and> depth s1 = depth s2 \<and> pos s1 = pos s2
      \<and> reported s1 = reported s2 \<and> oob s1 = oob s2)"

definition sim_result ::
  "byte list \<Rightarrow> byte list \<Rightarrow> 'a option \<times> wkb_parse_state \<Rightarrow> 'a option \<times> wkb_parse_state \<Rightarrow> bool" where
  "sim_result r1 r2 x1 x2 =
     (fst x1 = fst x2 \<and> sim (snd x1) (snd x2) \<and> \<not> error (snd x1)
      \<and> sized (snd x1) \<and> sized (snd x2)
      \<and> (if fst x1 = None then True else unread (snd x1) = r1 \<and> unread (snd x2) = r2))"

fun sim_run :: "byte list \<Rightarrow> byte list \<Rightarrow> wkb_result \<Rightarrow> wkb_result \<Rightarrow> bool" where
  "sim_run r1 r2 None None = True"
| "sim_run r1 r2 (Some x1) (Some x2) = sim_result r1 r2 x1 x2"
| "sim_run r1 r2 _ _ = False"

text \<open>
  What the proofs ask of the recursive call, for a child \<open>g\<close> and \<open>c\<close> nested calls: two
  runs that stand at two encodings of \<open>g\<close>, in states that are equal in the sense above,
  have results that are equal in that sense; and \<open>c\<close> nested calls are enough when \<open>g\<close> has
  no more than \<open>c\<close> geometries inside one another.
\<close>

definition sim_child ::
  "(wkb_parse_state \<Rightarrow> wkb_result) \<Rightarrow> bool \<Rightarrow> bool \<Rightarrow> nat \<Rightarrow> geometry \<Rightarrow> bool" where
  "sim_child child e1 e2 c g =
     (\<forall>s1 s2 r1 r2.
        sim s1 s2 \<and> \<not> error s1 \<and> sized s1 \<and> sized s2
        \<and> unread s1 = wkb_encode e1 g @ r1 \<and> unread s2 = wkb_encode e2 g @ r2
        \<longrightarrow> sim_run r1 r2 (child s1) (child s2) \<and> (nesting g \<le> c \<longrightarrow> child s1 \<noteq> None))"

text \<open>
  What \<^verbatim>\<open>lwgeom_from_wkb\<close> returns for a buffer and its length: \<open>Some (Some g)\<close> is the
  geometry \<open>g\<close> and \<open>Some None\<close> is NULL.
\<close>

definition decoded :: "externals \<Rightarrow> byte list \<Rightarrow> parser_check set \<Rightarrow> lwgeom option option" where
  "decoded ext buf chk = map_option fst (lwgeom_from_wkb ext buf (length buf) chk)"

definition accepts :: "externals \<Rightarrow> byte list \<Rightarrow> parser_check set \<Rightarrow> bool" where
  "accepts ext buf chk = (case decoded ext buf chk of Some (Some g) \<Rightarrow> True | _ \<Rightarrow> False)"

definition rejects :: "externals \<Rightarrow> byte list \<Rightarrow> parser_check set \<Rightarrow> bool" where
  "rejects ext buf chk = (decoded ext buf chk = Some None)"

text \<open>The SRID of the outermost geometry of an encoding, as the decoder stores it.\<close>

definition srid_of_flags :: "externals \<Rightarrow> wkb_flags \<Rightarrow> uint32" where
  "srid_of_flags ext f = (case with_srid f of None \<Rightarrow> SRID_UNKNOWN ext | Some v \<Rightarrow> clamp_srid ext v)"

text \<open>The point array that the decoder builds from the tuples of an encoding.\<close>

definition pa_of_tuples :: "wkb_flags \<Rightarrow> tuple list \<Rightarrow> POINTARRAY" where
  "pa_of_tuples f ts =
     ptarray_construct (with_z f) (with_m f) (of_nat (length ts)) (concat (map (tuple_doubles f) ts))"


text \<open>
  What \<^verbatim>\<open>lwerror\<close> has been given during \<^verbatim>\<open>lwgeom_from_wkb\<close> on a buffer and its length,
  first message first.
\<close>

definition reports :: "externals \<Rightarrow> byte list \<Rightarrow> parser_check set \<Rightarrow> string list option" where
  "reports ext buf chk = map_option (\<lambda>x. reported (snd x)) (lwgeom_from_wkb ext buf (length buf) chk)"

text \<open>
  \<open>n\<close> collections of the decoder, each the only child of the one before, around a
  geometry.
\<close>

fun nested_lwcollections :: "nat \<Rightarrow> uint32 \<Rightarrow> lwgeom \<Rightarrow> lwgeom" where
  "nested_lwcollections 0 sr g = g"
| "nested_lwcollections (Suc n) sr g =
     LWCOLLECTION COLLECTIONTYPE sr False False [nested_lwcollections n sr g]"

text \<open>The point that \<^verbatim>\<open>lwpoint_from_wkb_state\<close> makes of a tuple.\<close>

definition lwpoint_of_tuple :: "uint32 \<Rightarrow> wkb_flags \<Rightarrow> tuple \<Rightarrow> lwgeom" where
  "lwpoint_of_tuple sr f t =
     (if isnan (fst t) \<and> isnan (fst (snd t))
      then lwpoint_construct_empty sr (with_z f) (with_m f)
      else lwpoint_construct sr (ptarray_construct (with_z f) (with_m f) 1 (tuple_doubles f t)))"

section \<open>The type number\<close>

text \<open>
  \<^verbatim>\<open>lwtype_from_wkb_state\<close> follows the enumeration of the spec on the
  masked type code \<open>t AND 0x0FFFFFFF\<close>: the table sends 13 (Curve) to the curve polygon
  type and 14 (Surface) to the multi curve type; a masked code below 4000 whose last three
  decimal digits are in the table makes the table's entry the current type and reports
  nothing; a masked code of 4000 or more, or one whose last three digits are not in the
  table, is reported to \<^verbatim>\<open>lwerror\<close> as an unknown WKB type and leaves the current
  type as it was. The function never touches the error flag.
\<close>

lemma lwtype_from_wkb_state_follows_table:
  "map_of wkb_type_table 13 = Some CURVEPOLYTYPE \<and>
   map_of wkb_type_table 14 = Some MULTICURVETYPE \<and>
   lwtype (lwtype_from_wkb_state s t) =
     (if 4000 \<le> (t AND 0x0FFFFFFF) then lwtype s
      else case map_of wkb_type_table ((t AND 0x0FFFFFFF) mod 1000) of
             None \<Rightarrow> lwtype s
           | Some k \<Rightarrow> k) \<and>
   reported (lwtype_from_wkb_state s t) =
     (if 4000 \<le> (t AND 0x0FFFFFFF) then reported s @ [''Unknown WKB type (%d)!'']
      else case map_of wkb_type_table ((t AND 0x0FFFFFFF) mod 1000) of
             None \<Rightarrow> reported s @ [''Unknown WKB type (%d)! Full WKB type number was (%d).'']
           | Some k \<Rightarrow> reported s)"
proof -
  have a: "map_of wkb_type_table 13 = Some CURVEPOLYTYPE"
    by (simp add: wkb_type_table_def)
  have b: "map_of wkb_type_table 14 = Some MULTICURVETYPE"
    by (simp add: wkb_type_table_def)
  have c: "lwtype (lwtype_from_wkb_state s t) =
     (if 4000 \<le> (t AND 0x0FFFFFFF) then lwtype s
      else case map_of wkb_type_table ((t AND 0x0FFFFFFF) mod 1000) of
             None \<Rightarrow> lwtype s
           | Some k \<Rightarrow> k)"
    by (simp add: lwtype_from_wkb_state_def Let_def lwerror_def wkb_type_table_def)
  have d: "reported (lwtype_from_wkb_state s t) =
     (if 4000 \<le> (t AND 0x0FFFFFFF) then reported s @ [''Unknown WKB type (%d)!'']
      else case map_of wkb_type_table ((t AND 0x0FFFFFFF) mod 1000) of
             None \<Rightarrow> reported s @ [''Unknown WKB type (%d)! Full WKB type number was (%d).'']
           | Some k \<Rightarrow> reported s)"
    by (simp add: lwtype_from_wkb_state_def Let_def lwerror_def wkb_type_table_def)
  from a b c d show ?thesis by blast
qed

lemma lwtype_from_wkb_state_keeps_error: "error (lwtype_from_wkb_state s t) = error s"
  by (simp add: lwtype_from_wkb_state_def Let_def lwerror_def)

section \<open>Bytes and words\<close>

lemma length_le_bytes [simp]: "length (le_bytes n w) = n"
  by (induction n arbitrary: w) auto

lemma length_wkb_uint32 [simp]: "length (wkb_uint32 e w) = 4"
  by (simp add: wkb_uint32_def)

lemma length_wkb_double [simp]: "length (wkb_double e w) = 8"
  by (simp add: wkb_double_def)

lemma upt_0_2: "[0..<(2::nat)] = [0, 1]"
  by code_simp

lemma upt_0_4: "[0..<(4::nat)] = [0, 1, 2, 3]"
  by code_simp

lemma flip_bytes_4: "length bs = 4 \<Longrightarrow> flip_bytes 4 bs = rev bs"
proof -
  assume "length bs = 4"
  then obtain a b c d where "bs = [a, b, c, d]"
    by (auto simp: length_Suc_conv numeral_eq_Suc)
  then show ?thesis
    by (simp add: flip_bytes_def upt_0_2 del: upt_Suc)
qed

lemma flip_bytes_8: "length bs = 8 \<Longrightarrow> flip_bytes 8 bs = rev bs"
proof -
  assume "length bs = 8"
  then obtain a b c d e f g h where "bs = [a, b, c, d, e, f, g, h]"
    by (auto simp: length_Suc_conv numeral_eq_Suc)
  then show ?thesis
    by (simp add: flip_bytes_def upt_0_4 del: upt_Suc)
qed

lemma word_le_le_bytes: "word_le (le_bytes n w) = (take_bit (8 * n) w :: 'a::len word)"
proof (induction n arbitrary: w)
  case 0
  then show ?case by simp
next
  case (Suc n)
  have "ucast (ucast w :: byte) OR push_bit 8 (take_bit (8 * n) (drop_bit 8 w))
          = take_bit (8 * Suc n) w"
  proof (rule bit_word_eqI)
    fix k assume k: "k < LENGTH('a)"
    show "bit (ucast (ucast w :: byte) OR push_bit 8 (take_bit (8 * n) (drop_bit 8 w))) k
            = bit (take_bit (8 * Suc n) w) k"
    proof (cases "k < 8")
      case True
      with k show ?thesis by (simp add: bit_simps)
    next
      case False
      then have "8 + (k - 8) = k" by simp
      with False k show ?thesis by (auto simp add: bit_simps)
    qed
  qed
  then show ?case by (simp add: Suc)
qed

lemma word_le_le_bytes_32: "word_le (le_bytes 4 w) = (w :: 32 word)"
  by (simp add: word_le_le_bytes take_bit_word_eq_self)

lemma word_le_le_bytes_64: "word_le (le_bytes 8 w) = (w :: 64 word)"
  by (simp add: word_le_le_bytes take_bit_word_eq_self)

text \<open>
  A field written in either endianness is read back by either host, given the flip that
  \<^verbatim>\<open>lwgeom_from_wkb_state\<close> chooses for that endianness.
\<close>

lemma host_word_uint32:
  "host_word ext (if swap_for ext e then flip_bytes 4 (wkb_uint32 e w) else wkb_uint32 e w) = w"
  by (simp add: host_word_def swap_for_def flip_bytes_4 word_be_def wkb_uint32_def
      word_le_le_bytes_32)

lemma host_word_double:
  "host_word ext (if swap_for ext e then flip_bytes 8 (wkb_double e d) else wkb_double e d) = d"
  by (simp add: host_word_def swap_for_def flip_bytes_8 word_be_def wkb_double_def
      word_le_le_bytes_64)


section \<open>Reads at an encoded field\<close>

lemma unread_pos [simp]: "unread (s\<lparr>pos := p\<rparr>) = drop p (wkb s)"
  by (simp add: unread_def)

lemma integer_from_wkb_state_at:
  assumes "\<not> error s" and "sized s" and "unread s = wkb_uint32 e w @ r"
    and "swap_bytes s = swap_for ext e"
  shows "integer_from_wkb_state ext s = (w, s\<lparr>pos := pos s + 4\<rparr>)"
proof -
  from assms(3) have len: "4 \<le> length (unread s)" by simp
  then have b: "pos s + 4 \<le> length (wkb s)" by (simp add: unread_def)
  have t: "wkb_bytes s 4 = wkb_uint32 e w"
    using assms(3) by (simp add: wkb_bytes_def unread_def)
  show ?thesis
    using assms(1,2,4) b t host_word_uint32[of ext e w]
    by (simp add: integer_from_wkb_state_def wkb_parse_state_check_def Let_def sized_def
        touch_def)
qed

lemma byte_from_wkb_state_at:
  assumes "\<not> error s" and "sized s" and "unread s = b # r"
  shows "byte_from_wkb_state s = (b, s\<lparr>pos := pos s + 1\<rparr>)"
proof -
  from assms(3) have len: "1 \<le> length (unread s)" by simp
  then have b: "pos s + 1 \<le> length (wkb s)" by (simp add: unread_def)
  have t: "wkb_bytes s 1 = [b]"
    using assms(3) by (simp add: wkb_bytes_def unread_def)
  show ?thesis
    using assms(1,2) b t
    by (simp add: byte_from_wkb_state_def wkb_parse_state_check_def Let_def sized_def
        touch_def)
qed

lemma unread_after:
  assumes "unread s = a @ r" and "wkb s' = wkb s" and "pos s' = pos s + length a"
  shows "unread s' = r"
proof -
  have "unread s' = drop (length a) (drop (pos s) (wkb s))"
    using assms(2,3) by (simp add: unread_def add.commute)
  with assms(1) show ?thesis by (simp add: unread_def)
qed


section \<open>The type number: the switch and the table\<close>

lemma type_switch:
  "(if u = (1::uint32) then s\<lparr>lwtype := POINTTYPE\<rparr>
    else if u = 2 then s\<lparr>lwtype := LINETYPE\<rparr>
    else if u = 3 then s\<lparr>lwtype := POLYGONTYPE\<rparr>
    else if u = 8 then s\<lparr>lwtype := CIRCSTRINGTYPE\<rparr>
    else if u = 4 then s\<lparr>lwtype := MULTIPOINTTYPE\<rparr>
    else if u = 5 then s\<lparr>lwtype := MULTILINETYPE\<rparr>
    else if u = 6 then s\<lparr>lwtype := MULTIPOLYGONTYPE\<rparr>
    else if u = 17 then s\<lparr>lwtype := TRIANGLETYPE\<rparr>
    else if u = 7 then s\<lparr>lwtype := COLLECTIONTYPE\<rparr>
    else if u = 9 then s\<lparr>lwtype := COMPOUNDTYPE\<rparr>
    else if u = 10 then s\<lparr>lwtype := CURVEPOLYTYPE\<rparr>
    else if u = 11 then s\<lparr>lwtype := MULTICURVETYPE\<rparr>
    else if u = 12 then s\<lparr>lwtype := MULTISURFACETYPE\<rparr>
    else if u = 15 then s\<lparr>lwtype := POLYHEDRALSURFACETYPE\<rparr>
    else if u = 16 then s\<lparr>lwtype := TINTYPE\<rparr>
    else if u = 13 then s\<lparr>lwtype := CURVEPOLYTYPE\<rparr>
    else if u = 14 then s\<lparr>lwtype := MULTICURVETYPE\<rparr>
    else e)
   = (case map_of wkb_type_table u of None \<Rightarrow> e | Some k \<Rightarrow> s\<lparr>lwtype := k\<rparr>)"
  by (simp add: wkb_type_table_def)

text \<open>
  \<^verbatim>\<open>lwtype_from_wkb_state\<close> in one piece: the flags, from the high bits of an extended
  code or from the ISO range of the masked code, and the type, from the table.
\<close>

lemma lwtype_from_wkb_state_eq:
  "lwtype_from_wkb_state s t =
     (let m = t AND 0x0FFFFFFF;
          x = (t AND 0xF0000000 \<noteq> 0);
          s1 = s\<lparr>has_z := (x \<and> t AND 0x80000000 \<noteq> 0) \<or> (1000 \<le> m \<and> m < 2000)
                            \<or> (3000 \<le> m \<and> m < 4000),
                 has_m := (x \<and> t AND 0x40000000 \<noteq> 0) \<or> (2000 \<le> m \<and> m < 4000),
                 has_srid := (x \<and> t AND 0x20000000 \<noteq> 0)\<rparr>
      in if 4000 \<le> m then lwerror ''Unknown WKB type (%d)!'' s1
         else case map_of wkb_type_table (m mod 1000) of
                None \<Rightarrow> lwerror ''Unknown WKB type (%d)! Full WKB type number was (%d).'' s1
              | Some k \<Rightarrow> s1\<lparr>lwtype := k\<rparr>)"
proof -
  define m where "m = t AND 0x0FFFFFFF"
  define u where "u = m mod 1000"
  define r where "r = map_of wkb_type_table u"
  note defs = lwtype_from_wkb_state_def Let_def type_switch m_def[symmetric] u_def[symmetric]
    r_def[symmetric]
  consider "4000 \<le> m" | "3000 \<le> m" "m < 4000" | "2000 \<le> m" "m < 3000"
    | "1000 \<le> m" "m < 2000" | "m < 1000"
    by (metis linorder_not_le)
  then show ?thesis
  proof cases
    case 1
    then have "\<not> m < 2000" "\<not> m < 4000"
      by (simp_all add: word_le_nat_alt word_less_nat_alt)
    with 1 show ?thesis
      unfolding defs by simp
  next
    case 2
    then have "\<not> m < 2000" "2000 \<le> m" "1000 \<le> m" "\<not> 4000 \<le> m"
      by (simp_all add: word_le_nat_alt word_less_nat_alt)
    with 2 show ?thesis
      unfolding defs by (cases r) (simp_all add: lwerror_def)
  next
    case 3
    then have "\<not> m < 2000" "\<not> 3000 \<le> m" "1000 \<le> m" "\<not> 4000 \<le> m" "m < 4000"
      by (simp_all add: word_le_nat_alt word_less_nat_alt)
    with 3 show ?thesis
      unfolding defs by (cases r) (simp_all add: lwerror_def)
  next
    case 4
    then have "\<not> 2000 \<le> m" "\<not> 3000 \<le> m" "\<not> 4000 \<le> m" "m < 4000"
      by (simp_all add: word_le_nat_alt word_less_nat_alt)
    with 4 show ?thesis
      unfolding defs by (cases r) (simp_all add: lwerror_def)
  next
    case 5
    then have "\<not> 1000 \<le> m" "\<not> 2000 \<le> m" "\<not> 3000 \<le> m" "\<not> 4000 \<le> m" "m < 4000"
      by (simp_all add: word_le_nat_alt word_less_nat_alt)
    with 5 show ?thesis
      unfolding defs by (cases r) (simp_all add: lwerror_def)
  qed
qed

text \<open>The type codes that the encoding writes: small numbers under the flag bits.\<close>

lemma small_word:
  fixes c :: uint32
  assumes "c \<le> 3017"
  shows "c AND 0x0FFFFFFF = c" "c AND 0xF0000000 = 0" "c AND 0x80000000 = 0"
    "c AND 0x40000000 = 0" "c AND 0x20000000 = 0"
proof -
  from assms have "unat c < 2 ^ 12" by (simp add: word_le_nat_alt)
  then have "c < 2 ^ 12" by (simp add: word_less_nat_alt)
  then have "c AND mask 12 = c" by (rule less_mask_eq)
  then have t: "take_bit 12 c = c" by (simp add: take_bit_eq_mask)
  have z: "take_bit 12 c AND push_bit 28 v = 0" for v :: uint32
    by (rule bit_word_eqI) (simp add: bit_simps)
  have m: "take_bit 12 c AND mask 28 = take_bit 12 c"
    by (rule bit_word_eqI) (auto simp add: bit_simps)
  have k: "(0x0FFFFFFF :: uint32) = mask 28" by (simp add: mask_eq_exp_minus_1)
  show "c AND 0x0FFFFFFF = c"
    unfolding k by (rule m[unfolded t])
  have h: "(0xF0000000 :: uint32) = push_bit 28 15" "(0x80000000 :: uint32) = push_bit 28 8"
    "(0x40000000 :: uint32) = push_bit 28 4" "(0x20000000 :: uint32) = push_bit 28 2"
    by (simp_all add: push_bit_eq_mult)
  show "c AND 0xF0000000 = 0" unfolding h by (rule z[unfolded t])
  show "c AND 0x80000000 = 0" unfolding h by (rule z[unfolded t])
  show "c AND 0x40000000 = 0" unfolding h by (rule z[unfolded t])
  show "c AND 0x20000000 = 0" unfolding h by (rule z[unfolded t])
qed

lemma iso_arith:
  fixes n :: uint32
  assumes "n \<le> 17"
  shows "n < 1000" "n mod 1000 = n"
    "1000 \<le> n + 1000" "n + 1000 < 2000" "(n + 1000) mod 1000 = n"
    "2000 \<le> n + 2000" "n + 2000 < 3000" "(n + 2000) mod 1000 = n"
    "3000 \<le> n + 1000 + 2000" "n + 1000 + 2000 < 4000" "(n + 1000 + 2000) mod 1000 = n"
    "n + 1000 + 2000 \<le> 3017" "n + 1000 \<le> 3017" "n + 2000 \<le> 3017" "n \<le> 3017"
proof -
  from assms have u: "unat n \<le> 17" by (simp add: word_le_nat_alt)
  then have a: "unat (n + 1000) = unat n + 1000" "unat (n + 2000) = unat n + 2000"
     "unat (n + 1000 + 2000) = unat n + 3000"
    by (simp_all add: unat_word_ariths)
  from u have d: "unat n mod 1000 = unat n" by simp
  have "(unat n + 1000 * 1) mod 1000 = unat n mod 1000"
    "(unat n + 1000 * 2) mod 1000 = unat n mod 1000"
    "(unat n + 1000 * 3) mod 1000 = unat n mod 1000"
    by (rule mod_mult_self2)+
  with d have e: "(unat n + 1000) mod 1000 = unat n" "(unat n + 2000) mod 1000 = unat n"
    "(unat n + 3000) mod 1000 = unat n"
    by simp_all
  show "n < 1000" "1000 \<le> n + 1000" "n + 1000 < 2000"  "2000 \<le> n + 2000" "n + 2000 < 3000"
    "3000 \<le> n + 1000 + 2000" "n + 1000 + 2000 < 4000"
    "n + 1000 + 2000 \<le> 3017" "n + 1000 \<le> 3017" "n + 2000 \<le> 3017" "n \<le> 3017"
    using u a by (simp_all add: word_le_nat_alt word_less_nat_alt)
  show "n mod 1000 = n" "(n + 1000) mod 1000 = n" "(n + 2000) mod 1000 = n"
    "(n + 1000 + 2000) mod 1000 = n"
    using u a d e by (simp_all add: word_unat_eq_iff unat_mod_distrib)
qed


lemma table_number:
  assumes "map_of wkb_type_table n = Some k"
  shows "n \<le> 17"
proof -
  from assms have "(n, k) \<in> set wkb_type_table" by (rule map_of_SomeD)
  then have "n \<in> {1,2,3,4,5,6,7,8,9,10,11,12,13,14,15,16,17}"
    by (auto simp: wkb_type_table_def)
  then show "n \<le> 17" by auto
qed

lemma flag_bits:
  fixes t :: uint32
  shows "(t AND 0x80000000 \<noteq> 0) = bit t 31" "(t AND 0x40000000 \<noteq> 0) = bit t 30"
    "(t AND 0x20000000 \<noteq> 0) = bit t 29"
proof -
  have e: "(0x80000000 :: uint32) = 2 ^ 31" "(0x40000000 :: uint32) = 2 ^ 30"
    "(0x20000000 :: uint32) = 2 ^ 29"
    by simp_all
  show "(t AND 0x80000000 \<noteq> 0) = bit t 31" "(t AND 0x40000000 \<noteq> 0) = bit t 30"
    "(t AND 0x20000000 \<noteq> 0) = bit t 29"
    unfolding e by (simp_all only: and_exp_eq_0_iff_not_bit not_not)
qed

lemma extended_bits:
  fixes t :: uint32
  assumes "bit t 31 \<or> bit t 30 \<or> bit t 29"
  shows "t AND 0xF0000000 \<noteq> 0"
proof
  assume z: "t AND 0xF0000000 = 0"
  have f: "(0xF0000000 :: uint32) = push_bit 28 (mask 4)"
    by (simp add: mask_eq_exp_minus_1 push_bit_eq_mult)
  have "bit (t AND 0xF0000000) k = (bit t k \<and> 28 \<le> k \<and> k < 32)" for k
    unfolding f by (auto simp add: bit_simps)
  then have "\<not> (bit t k \<and> 28 \<le> k \<and> k < 32)" for k
    unfolding z by simp
  from this[of 31] this[of 30] this[of 29] assms show False by simp
qed

lemma small_bits:
  fixes c :: uint32
  assumes "c \<le> 3017"
  shows "\<not> bit c 31" "\<not> bit c 30" "\<not> bit c 29"
  using small_word(3,4,5)[OF assms] by (simp_all flip: flag_bits)

lemma lwtype_from_wkb_state_parts:
  fixes c0 h :: uint32
  assumes c0: "c0 \<le> 3017" and h: "h AND 0x0FFFFFFF = 0"
    and tab: "map_of wkb_type_table (c0 mod 1000) = Some k"
  shows "lwtype_from_wkb_state s (c0 OR h) =
     s\<lparr>has_z := bit h 31 \<or> (1000 \<le> c0 \<and> c0 < 2000) \<or> 3000 \<le> c0,
       has_m := bit h 30 \<or> 2000 \<le> c0,
       has_srid := bit h 29,
       lwtype := k\<rparr>"
proof -
  note sm = small_word[OF c0]
  from c0 have lt: "c0 < 4000" "\<not> 4000 \<le> c0" by (simp_all add: word_le_nat_alt word_less_nat_alt)
  have m: "(c0 OR h) AND 0x0FFFFFFF = c0"
    by (simp add: bit.conj_disj_distrib2 sm h)
  have b: "bit (c0 OR h) 31 = bit h 31" "bit (c0 OR h) 30 = bit h 30" "bit (c0 OR h) 29 = bit h 29"
    using small_bits[OF c0] by (simp_all add: bit_or_iff)
  have x: "((c0 OR h) AND 0xF0000000 \<noteq> 0 \<and> bit h 31) = bit h 31"
    "((c0 OR h) AND 0xF0000000 \<noteq> 0 \<and> bit h 30) = bit h 30"
    "((c0 OR h) AND 0xF0000000 \<noteq> 0 \<and> bit h 29) = bit h 29"
    using extended_bits[of "c0 OR h"] b by blast+
  show ?thesis
    unfolding lwtype_from_wkb_state_eq Let_def m flag_bits b x
    using lt tab by simp
qed


lemma lwtype_from_wkb_state_code:
  assumes tab: "map_of wkb_type_table n = Some k"
  shows "lwtype_from_wkb_state s (wkb_type_code n f) =
           s\<lparr>has_z := with_z f, has_m := with_m f, has_srid := (with_srid f \<noteq> None), lwtype := k\<rparr>"
proof -
  note n = table_number[OF tab]
  note ar = iso_arith[OF n]
  define c0 where "c0 = (if iso_form f
      then n + (if with_z f then 1000 else 0) + (if with_m f then 2000 else 0) else n)"
  define h :: uint32 where "h = (if iso_form f then 0
      else (if with_z f then 0x80000000 else 0) OR (if with_m f then 0x40000000 else 0))
     OR (if with_srid f = None then 0 else 0x20000000)"
  have code: "wkb_type_code n f = c0 OR h"
    by (simp add: wkb_type_code_def c0_def h_def or.assoc)
  have c0: "c0 \<le> 3017"
    unfolding c0_def using ar(12-15) by (simp split: if_splits)
  have hm: "h AND 0x0FFFFFFF = 0"
    by (simp add: h_def)
  have md: "c0 mod 1000 = n"
    unfolding c0_def using ar(2,5,8,11) by (simp split: if_splits)
  have hb: "bit h 31 = (\<not> iso_form f \<and> with_z f)" "bit h 30 = (\<not> iso_form f \<and> with_m f)"
    "bit h 29 = (with_srid f \<noteq> None)"
    by (simp_all add: h_def bit_or_iff)
  have nl: "\<not> 1000 \<le> n" "\<not> 2000 \<le> n + 1000" "\<not> 3000 \<le> n + 1000"
    "\<not> 3000 \<le> n + 2000" "\<not> n + 2000 < 2000" "\<not> n + 1000 + 2000 < 2000"
    "\<not> 3000 \<le> n" "\<not> 2000 \<le> n" "2000 \<le> n + 1000 + 2000" "\<not> 1000 \<le> n + 2000 \<or> \<not> n + 2000 < 2000"
    using ar by (simp_all add: word_le_nat_alt word_less_nat_alt)
  have rz: "((1000 \<le> c0 \<and> c0 < 2000) \<or> 3000 \<le> c0) = (iso_form f \<and> with_z f)"
    unfolding c0_def using ar nl by (simp split: if_splits)
  have rm: "(2000 \<le> c0) = (iso_form f \<and> with_m f)"
    unfolding c0_def using ar nl by (simp split: if_splits)
  have "lwtype_from_wkb_state s (c0 OR h) =
     s\<lparr>has_z := bit h 31 \<or> (1000 \<le> c0 \<and> c0 < 2000) \<or> 3000 \<le> c0,
       has_m := bit h 30 \<or> 2000 \<le> c0,
       has_srid := bit h 29,
       lwtype := k\<rparr>"
    using c0 hm tab[folded md] by (rule lwtype_from_wkb_state_parts)
  moreover have "(\<not> iso_form f \<and> with_z f \<or> iso_form f \<and> with_z f) = with_z f"
    "(\<not> iso_form f \<and> with_m f \<or> iso_form f \<and> with_m f) = with_m f"
    by blast+
  ultimately show ?thesis
    unfolding code hb rz rm by simp
qed


section \<open>The front of a geometry\<close>

lemma drop_unread:
  assumes "unread s = a @ r" and "length a = n" and "0 < n"
  shows "drop (n + pos s) (wkb s) = r" and "n + pos s \<le> length (wkb s)"
proof -
  have "drop (n + pos s) (wkb s) = drop n (drop (pos s) (wkb s))"
    by simp
  with assms show "drop (n + pos s) (wkb s) = r" by (simp add: unread_def)
  from assms have "n \<le> length (drop (pos s) (wkb s))" by (simp add: unread_def)
  then show "n + pos s \<le> length (wkb s)" using assms
    by (cases "pos s \<le> length (wkb s)") (auto simp: unread_def)
qed

lemma wkb_header_from_wkb_state_at:
  assumes ne: "\<not> error s" and sz: "sized s"
    and un: "unread s = wkb_header e n f @ r"
    and tab: "map_of wkb_type_table n = Some k"
  shows "wkb_header_from_wkb_state ext s =
     Inr (s\<lparr>pos := pos s + length (wkb_header e n f), swap_bytes := swap_for ext e,
            has_z := with_z f, has_m := with_m f, has_srid := (with_srid f \<noteq> None),
            lwtype := k,
            srid := (case with_srid f of None \<Rightarrow> srid s | Some v \<Rightarrow> clamp_srid ext v)\<rparr>)"
proof -
  define b :: byte where "b = (if e then 1 else 0)"
  define c where "c = wkb_type_code n f"
  define sb where "sb = (case with_srid f of None \<Rightarrow> [] | Some v \<Rightarrow> wkb_uint32 e v)"
  have un0: "drop (pos s) (wkb s) = b # wkb_uint32 e c @ sb @ r"
    using un by (simp add: wkb_header_def b_def sb_def c_def unread_def)
  have un1: "unread s = [b] @ (wkb_uint32 e c @ sb @ r)"
    using un0 by (simp add: unread_def)
  have un5: "unread s = (b # wkb_uint32 e c) @ (sb @ r)"
    using un0 by (simp add: unread_def)
  note d1 = drop_unread[OF un1, of 1, simplified]
  note d5 = drop_unread[OF un5, of 5, simplified]
  have hw: "host_word ext (if IS_BIG_ENDIAN ext = e then flip_bytes 4 (wkb_uint32 e w) else wkb_uint32 e w) = w" for w
    using host_word_uint32[of ext e w] by (simp add: swap_for_def)
  have lt: "lwtype_from_wkb_state s' c = s'\<lparr>has_z := with_z f, has_m := with_m f, has_srid := (with_srid f \<noteq> None), lwtype := k\<rparr>" for s'
    unfolding c_def by (rule lwtype_from_wkb_state_code[OF tab])
  show ?thesis
  proof (cases "with_srid f")
    case None
    then show ?thesis
      using ne sz un0 d1 d5 hw[of c] lt
      by (cases e; cases "IS_BIG_ENDIAN ext")
         (simp_all add: wkb_header_from_wkb_state_def byte_from_wkb_state_def
          integer_from_wkb_state_def wkb_parse_state_check_def touch_def wkb_bytes_def Let_def
          b_def sb_def sized_def swap_for_def wkb_header_def c_def[symmetric])
  next
    case (Some v)
    have un9: "unread s = (b # wkb_uint32 e c @ wkb_uint32 e v) @ r"
      using un0 Some by (simp add: unread_def sb_def)
    note d9 = drop_unread[OF un9, of 9, simplified]
    show ?thesis
      using ne sz un0 d1 d5 d9 hw[of c] hw[of v] lt Some
      by (cases e; cases "IS_BIG_ENDIAN ext")
         (simp_all add: wkb_header_from_wkb_state_def byte_from_wkb_state_def
          integer_from_wkb_state_def wkb_parse_state_check_def touch_def wkb_bytes_def Let_def
          b_def sb_def sized_def swap_for_def wkb_header_def c_def[symmetric])
  qed
qed

lemma table_point: "map_of wkb_type_table 1 = Some POINTTYPE"
  by (simp add: wkb_type_table_def)

lemma table_points: "map_of wkb_type_table (points_number pk) = Some (points_lwtype pk)"
  by (cases pk) (simp_all add: wkb_type_table_def)

lemma table_rings: "map_of wkb_type_table (rings_number rk) = Some (rings_lwtype rk)"
  by (cases rk) (simp_all add: wkb_type_table_def)

lemma table_geoms: "map_of wkb_type_table (geoms_number gk) = Some (geoms_lwtype gk)"
  by (cases gk) (simp_all add: wkb_type_table_def)

lemma after_header_simps [simp]:
  "error (after_header ext e n f k s) = error s"
  "sized (after_header ext e n f k s) = sized s"
  "swap_bytes (after_header ext e n f k s) = swap_for ext e"
  "has_z (after_header ext e n f k s) = with_z f"
  "has_m (after_header ext e n f k s) = with_m f"
  "lwtype (after_header ext e n f k s) = k"
  "check (after_header ext e n f k s) = check s"
  "depth (after_header ext e n f k s) = depth s"
  "reported (after_header ext e n f k s) = reported s"
  "oob (after_header ext e n f k s) = oob s"
  "wkb (after_header ext e n f k s) = wkb s"
  "wkb_size (after_header ext e n f k s) = wkb_size s"
  "pos (after_header ext e n f k s) = pos s + length (wkb_header e n f)"
  "srid (after_header ext e n f k s)
     = (case with_srid f of None \<Rightarrow> srid s | Some v \<Rightarrow> clamp_srid ext v)"
  by (simp_all add: after_header_def sized_def)

lemma header_at:
  assumes "\<not> error s" and "sized s" and "unread s = wkb_header e n f @ r"
    and "map_of wkb_type_table n = Some k"
  shows "wkb_header_from_wkb_state ext s = Inr (after_header ext e n f k s)"
    and "unread (after_header ext e n f k s) = r"
proof -
  show "wkb_header_from_wkb_state ext s = Inr (after_header ext e n f k s)"
    unfolding after_header_def using assms by (rule wkb_header_from_wkb_state_at)
  show "unread (after_header ext e n f k s) = r"
    using unread_after[OF assms(3), of "after_header ext e n f k s"] by simp
qed


section \<open>Doubles, tuples and point arrays\<close>

lemma length_concat_doubles [simp]:
  "length (concat (map (wkb_double e) ds)) = 8 * length ds"
  by (induction ds) auto

lemma doubles_of_bytes_at:
  assumes "\<not> swap_for ext e"
  shows "doubles_of_bytes ext (length ds) (concat (map (wkb_double e) ds) @ r) = ds"
proof (induction ds)
  case Nil
  then show ?case by simp
next
  case (Cons d ds)
  have "host_word ext (wkb_double e d) = d"
    using host_word_double[of ext e d] assms by simp
  with Cons show ?case by simp
qed

lemma double_from_wkb_state_at:
  assumes "unread s = wkb_double e d @ r" and "swap_bytes s = swap_for ext e"
  shows "double_from_wkb_state ext s = (d, s\<lparr>pos := pos s + 8\<rparr>)"
proof -
  from assms(1) have len: "8 \<le> length (unread s)" by simp
  then have b: "pos s + 8 \<le> length (wkb s)" by (simp add: unread_def)
  have t: "wkb_bytes s 8 = wkb_double e d"
    using assms(1) by (simp add: wkb_bytes_def unread_def)
  show ?thesis
    using assms(2) b t host_word_double[of ext e d]
    by (simp add: double_from_wkb_state_def Let_def touch_def)
qed

lemma doubles_from_wkb_state_at:
  assumes "unread s = concat (map (wkb_double e) ds) @ r" and "swap_bytes s = swap_for ext e"
  shows "doubles_from_wkb_state ext (length ds) s = (ds, s\<lparr>pos := pos s + 8 * length ds\<rparr>)"
  using assms
proof (induction ds arbitrary: s)
  case Nil
  then show ?case by simp
next
  case (Cons d ds)
  let ?s1 = "s\<lparr>pos := pos s + 8\<rparr>"
  have u: "unread s = wkb_double e d @ (concat (map (wkb_double e) ds) @ r)"
    using Cons.prems(1) by simp
  have r1: "double_from_wkb_state ext s = (d, ?s1)"
    using u Cons.prems(2) by (rule double_from_wkb_state_at)
  have u1: "unread ?s1 = concat (map (wkb_double e) ds) @ r"
    using unread_after[OF u, of ?s1] by simp
  have "doubles_from_wkb_state ext (length ds) ?s1 = (ds, ?s1\<lparr>pos := pos ?s1 + 8 * length ds\<rparr>)"
    using u1 Cons.prems(2) by (intro Cons.IH) simp_all
  with r1 show ?case by (simp add: add.assoc)
qed


lemma in_buffer:
  assumes "unread s = a @ r" and "0 < length a"
  shows "pos s + length a \<le> length (wkb s)"
proof -
  from assms(1) have "length a \<le> length (unread s)" by simp
  then have "length a \<le> length (wkb s) - pos s" by (simp add: unread_def)
  with assms(2) show ?thesis by arith
qed

lemma tuple_doubles_not_Nil [simp]: "tuple_doubles f t \<noteq> []"
  by (cases t) (simp add: tuple_doubles_def)

lemma length_tuple_doubles:
  "length (tuple_doubles f t) = 2 + (if with_z f then 1 else 0) + (if with_m f then 1 else 0)"
  by (cases t) (simp add: tuple_doubles_def)

lemma wkb_tuple_length [simp]: "length (wkb_tuple e f t) = 8 * length (tuple_doubles f t)"
  by (simp add: wkb_tuple_def)

lemma ndims_of_flags:
  assumes "has_z s = with_z f" and "has_m s = with_m f"
  shows "unat (ndims_of s) = length (tuple_doubles f t)"
    and "unat (ndims_of s * 8) = 8 * length (tuple_doubles f t)"
  using assms by (simp_all add: ndims_of_def length_tuple_doubles)

lemma getPoint2d_cp_0_tuple:
  "getPoint2d_cp_0 (ptarray_construct hz hm n (tuple_doubles f (x, y, z, m))) = (x, y)"
  by (simp add: getPoint2d_cp_0_def ptarray_construct_def tuple_doubles_def)

lemma ptarray_construct_copy_data_eq:
  "ptarray_construct_copy_data ext hz hm n k bs = ptarray_construct hz hm n (doubles_of_bytes ext k bs)"
  by (simp add: ptarray_construct_copy_data_def ptarray_construct_def)

lemma lwpoint_from_wkb_state_at:
  assumes ne: "\<not> error s" and sz: "sized s"
    and un: "unread s = wkb_tuple e f (x, y, z, m) @ r"
    and sw: "swap_bytes s = swap_for ext e"
    and hz: "has_z s = with_z f" and hm: "has_m s = with_m f"
  shows "lwpoint_from_wkb_state ext s =
     (Some (if isnan x \<and> isnan y
            then lwpoint_construct_empty (srid s) (with_z f) (with_m f)
            else lwpoint_construct (srid s)
                   (ptarray_construct (with_z f) (with_m f) 1 (tuple_doubles f (x, y, z, m)))),
      s\<lparr>pos := pos s + length (wkb_tuple e f (x, y, z, m))\<rparr>)"
proof -
  let ?ds = "tuple_doubles f (x, y, z, m)"
  note nd = ndims_of_flags[OF hz hm, of "(x, y, z, m)"]
  have un': "unread s = concat (map (wkb_double e) ?ds) @ r"
    using un by (simp add: wkb_tuple_def)
  have "0 < length (concat (map (wkb_double e) ?ds))"
    by (simp add: length_tuple_doubles)
  from in_buffer[OF un' this] have b: "pos s + 8 * length ?ds \<le> length (wkb s)"
    by simp
  have chk: "wkb_parse_state_check s (8 * length ?ds) = s"
    using b sz by (simp add: wkb_parse_state_check_def sized_def)
  have tch: "touch s (8 * length ?ds) = s"
    using b by (simp add: touch_def)
  have wb: "wkb_bytes s (8 * length ?ds) = concat (map (wkb_double e) ?ds)"
    using un' by (simp add: wkb_bytes_def unread_def)
  have dl: "doubles_from_wkb_state ext (length ?ds) s = (?ds, s\<lparr>pos := pos s + 8 * length ?ds\<rparr>)"
    if "swap_bytes s"
    using un' sw by (rule doubles_from_wkb_state_at)
  have cp: "doubles_of_bytes ext (length ?ds) (concat (map (wkb_double e) ?ds)) = ?ds"
    if "\<not> swap_bytes s"
    using doubles_of_bytes_at[of ext e ?ds "[]"] that sw by simp
  show ?thesis
  proof (cases "swap_bytes s")
    case True
    then show ?thesis
      using ne hz hm dl[OF True]
      by (simp add: lwpoint_from_wkb_state_def Let_def nd chk getPoint2d_cp_0_tuple
          lwpoint_construct_def lwpoint_construct_empty_def)
  next
    case False
    then show ?thesis
      using ne hz hm cp[OF False]
      by (simp add: lwpoint_from_wkb_state_def Let_def nd chk tch wb getPoint2d_cp_0_tuple
          ptarray_construct_copy_data_eq lwpoint_construct_def lwpoint_construct_empty_def)
  qed
qed


lemma maxpoints_eq: "(maxpoints :: uint32) = 134217727"
  by simp

lemma pa_size_eq:
  fixes np :: uint32
  assumes "np \<le> maxpoints" and hz: "has_z s = with_z f" and hm: "has_m s = with_m f"
  shows "unat (np * ndims_of s) = unat np * length (tuple_doubles f t)"
    and "unat (np * ndims_of s * 8) = 8 * (unat np * length (tuple_doubles f t))"
proof -
  from assms(1) have n: "unat np \<le> 134217727" by (simp add: word_le_nat_alt)
  have d: "unat (ndims_of s) = length (tuple_doubles f t)" "length (tuple_doubles f t) \<le> 4"
    using hz hm by (simp_all add: ndims_of_def length_tuple_doubles)
  from n d have "unat np * unat (ndims_of s) \<le> 134217727 * 4"
    by (intro mult_mono) simp_all
  then have lt: "unat np * unat (ndims_of s) < 2 ^ LENGTH(32)" by simp
  then have a: "unat (np * ndims_of s) = unat np * unat (ndims_of s)"
    by (rule unat_mult_lem[THEN iffD1])
  with d show "unat (np * ndims_of s) = unat np * length (tuple_doubles f t)" by simp
  from n d have "unat np * unat (ndims_of s) * 8 \<le> 134217727 * 4 * 8"
    by (intro mult_mono) simp_all
  then have "unat (np * ndims_of s) * unat (8 :: uint32) < 2 ^ LENGTH(32)" by (simp add: a)
  then have "unat (np * ndims_of s * 8) = unat (np * ndims_of s) * unat (8 :: uint32)"
    by (rule unat_mult_lem[THEN iffD1])
  with a d show "unat (np * ndims_of s * 8) = 8 * (unat np * length (tuple_doubles f t))" by simp
qed


lemma concat_tuples:
  "concat (map (wkb_tuple e f) ts) = concat (map (wkb_double e) (concat (map (tuple_doubles f) ts)))"
  by (induction ts) (simp_all add: wkb_tuple_def)

lemma length_concat_tuple_doubles:
  "length (concat (map (tuple_doubles f) ts)) = length ts * length (tuple_doubles f t)"
  by (induction ts) (simp_all add: length_tuple_doubles)

lemma unat_of_nat_length:
  assumes "length (ts :: 'a list) < 2 ^ 32"
  shows "unat (of_nat (length ts) :: uint32) = length ts"
  using assms by (simp add: unsigned_of_nat take_bit_nat_eq_self)

lemma ptarray_from_wkb_state_at:
  assumes ne: "\<not> error s" and sz: "sized s"
    and un: "unread s = wkb_points e f ts @ r"
    and sw: "swap_bytes s = swap_for ext e"
    and hz: "has_z s = with_z f" and hm: "has_m s = with_m f"
    and len: "length ts < 2 ^ 32"
  shows "ptarray_from_wkb_state ext s =
     (if maxpoints < (of_nat (length ts) :: uint32)
      then (None, s\<lparr>pos := pos s + 4, error := True\<rparr>)
      else (Some (ptarray_construct (with_z f) (with_m f) (of_nat (length ts))
                    (concat (map (tuple_doubles f) ts))),
            s\<lparr>pos := pos s + length (wkb_points e f ts)\<rparr>))"
proof -
  define np :: uint32 where "np = of_nat (length ts)"
  define ds where "ds = concat (map (tuple_doubles f) ts)"
  define s1 where "s1 = s\<lparr>pos := pos s + 4\<rparr>"
  have unp: "unat np = length ts" unfolding np_def using len by (rule unat_of_nat_length)
  have un0: "unread s = wkb_uint32 e np @ (concat (map (wkb_double e) ds) @ r)"
    using un by (simp add: wkb_points_def np_def ds_def concat_tuples)
  have r1: "integer_from_wkb_state ext s = (np, s1)"
    unfolding s1_def using ne sz un0 sw by (rule integer_from_wkb_state_at)
  have un1: "unread s1 = concat (map (wkb_double e) ds) @ r"
    using unread_after[OF un0, of s1] by (simp add: s1_def)
  have lp: "length (wkb_points e f ts) = 4 + 8 * length ds"
    by (simp add: wkb_points_def concat_tuples ds_def)
  show ?thesis
  proof (cases "maxpoints < np")
    case True
    then show ?thesis
      using ne by (simp add: ptarray_from_wkb_state_def r1 s1_def np_def[symmetric])
  next
    case False
    then have le: "np \<le> maxpoints" by simp
    have hz1: "has_z s1 = with_z f" and hm1: "has_m s1 = with_m f"
      using hz hm by (simp_all add: s1_def)
    note ps = pa_size_eq[OF le hz1 hm1, of "(0,0,0,0)"]
    have lds: "length ds = unat np * length (tuple_doubles f (0,0,0,0))"
      unfolding ds_def unp by (rule length_concat_tuple_doubles)
    show ?thesis
    proof (cases "ts = []")
      case True
      then have "np = 0" by (simp add: np_def)
      with True False show ?thesis
        using ne hz hm
        by (simp add: ptarray_from_wkb_state_def r1 s1_def wkb_points_def)
    next
      case nonempty: False
      then have np0: "np \<noteq> 0" using unp by (auto simp: unat_eq_0[symmetric] simp del: unat_eq_0)
      from nonempty have "0 < length ds"
        unfolding lds unp by (simp add: length_tuple_doubles)
      then have "0 < length (concat (map (wkb_double e) ds))" by simp
      from in_buffer[OF un1 this] have b: "pos s1 + 8 * length ds \<le> length (wkb s1)"
        by simp
      have chk: "wkb_parse_state_check s1 (8 * length ds) = s1"
        using b sz by (simp add: wkb_parse_state_check_def sized_def s1_def)
      have tch: "touch s1 (8 * length ds) = s1"
        using b by (simp add: touch_def)
      have wb: "wkb_bytes s1 (8 * length ds) = concat (map (wkb_double e) ds)"
        using un1 by (simp add: wkb_bytes_def unread_def)
      have sw1: "swap_bytes s1 = swap_for ext e" using sw by (simp add: s1_def)
      have dl: "doubles_from_wkb_state ext (length ds) s1 = (ds, s1\<lparr>pos := pos s1 + 8 * length ds\<rparr>)"
        using un1 sw1 by (rule doubles_from_wkb_state_at)
      have cp: "doubles_of_bytes ext (length ds) (concat (map (wkb_double e) ds)) = ds"
        if "\<not> swap_for ext e"
        using doubles_of_bytes_at[OF that, of ds "[]"] by simp
      have e1: "\<not> error s1" using ne by (simp add: s1_def)
      show ?thesis
        using False np0 e1 hz1 hm1 sw1 cp
        by (simp add: ptarray_from_wkb_state_def r1 Let_def ps lds[symmetric] chk tch wb dl
            ptarray_construct_copy_data_eq np_def[symmetric] ds_def[symmetric] lp)
           (simp add: s1_def)
    qed
  qed
qed


section \<open>Decoding an encoded geometry\<close>

lemma init_simps [simp]:
  "error (wkb_parse_state_init ext buf n chk) = False"
  "sized (wkb_parse_state_init ext buf n chk) = (n = length buf)"
  "unread (wkb_parse_state_init ext buf n chk) = buf"
  "srid (wkb_parse_state_init ext buf n chk) = SRID_UNKNOWN ext"
  "check (wkb_parse_state_init ext buf n chk) = chk"
  "depth (wkb_parse_state_init ext buf n chk) = 1"
  "reported (wkb_parse_state_init ext buf n chk) = []"
  "pos (wkb_parse_state_init ext buf n chk) = 0"
  "wkb (wkb_parse_state_init ext buf n chk) = buf"
  "wkb_size (wkb_parse_state_init ext buf n chk) = n"
  "oob (wkb_parse_state_init ext buf n chk) = False"
  "lwtype (wkb_parse_state_init ext buf n chk) = NOTYPE"
  by (simp_all add: wkb_parse_state_init_def sized_def unread_def)

lemma wkb_header_not_Nil [simp]: "wkb_header e n f \<noteq> []"
  by (simp add: wkb_header_def)

lemma wkb_encode_not_Nil [simp]: "wkb_encode e g \<noteq> []"
  by (cases g) simp_all

lemma lwgeom_from_wkb_encoded:
  "lwgeom_from_wkb ext (wkb_encode e g) (length (wkb_encode e g)) chk =
     lwgeom_from_wkb_state ext (Suc (length (wkb_encode e g)))
       (wkb_parse_state_init ext (wkb_encode e g) (length (wkb_encode e g)) chk)"
  by (simp add: lwgeom_from_wkb_def Let_def)


lemma lwgeom_from_wkb_state_header:
  assumes "\<not> error s" and "sized s" and "unread s = wkb_header e n f @ r"
    and "map_of wkb_type_table n = Some k"
  shows "lwgeom_from_wkb_state ext (Suc calls) s =
     (let s1 = after_header ext e n f k s
      in case k of
           POINTTYPE \<Rightarrow> Some (lwpoint_from_wkb_state ext s1)
         | LINETYPE \<Rightarrow> Some (lwline_from_wkb_state ext s1)
         | POLYGONTYPE \<Rightarrow> Some (lwpoly_from_wkb_state ext s1)
         | CIRCSTRINGTYPE \<Rightarrow> Some (lwcircstring_from_wkb_state ext s1)
         | TRIANGLETYPE \<Rightarrow> Some (lwtriangle_from_wkb_state ext s1)
         | CURVEPOLYTYPE \<Rightarrow> lwcurvepoly_from_wkb_state ext (lwgeom_from_wkb_state ext calls) s1
         | NOTYPE \<Rightarrow> Some (None, lwerror ''%s: Unsupported geometry type: %s'' s1)
         | _ \<Rightarrow> lwcollection_from_wkb_state ext (lwgeom_from_wkb_state ext calls) s1)"
  by (simp add: header_at[OF assms] Let_def)

lemma of_nat_le_maxpoints:
  assumes "n \<le> 134217727"
  shows "\<not> 134217727 < (of_nat n :: uint32)" and "unat (of_nat n :: uint32) = n"
proof -
  from assms have u: "unat (of_nat n :: uint32) = n"
    by (simp add: unsigned_of_nat take_bit_nat_eq_self)
  then show "unat (of_nat n :: uint32) = n" .
  from u assms show "\<not> 134217727 < (of_nat n :: uint32)"
    by (simp add: word_less_nat_alt)
qed

lemma of_nat_less:
  assumes "n \<le> 134217727"
  shows "((of_nat n :: uint32) < 2) = (n < 2)" "((of_nat n :: uint32) < 3) = (n < 3)"
    "((of_nat n :: uint32) < 4) = (n < 4)" "((of_nat n :: uint32) = 0) = (n = 0)"
  using of_nat_le_maxpoints(2)[OF assms]
  by (simp_all add: word_less_nat_alt word_unat_eq_iff)

lemma lwline_from_wkb_state_at:
  assumes ne: "\<not> error s" and sz: "sized s"
    and un: "unread s = wkb_points e f ts @ r"
    and sw: "swap_bytes s = swap_for ext e"
    and hz: "has_z s = with_z f" and hm: "has_m s = with_m f"
    and len: "length ts \<le> 134217727"
  shows "lwline_from_wkb_state ext s =
     (let s1 = s\<lparr>pos := pos s + length (wkb_points e f ts)\<rparr>
      in if ts = [] then (Some (lwline_construct_empty (srid s) (with_z f) (with_m f)), s1)
         else if LW_PARSER_CHECK_MINPOINTS \<in> check s \<and> length ts < 2
           then (None, lwerror (lwtype_name ext (lwtype s1) @ '' must have at least two points'') s1)
         else (Some (lwline_construct (srid s)
                 (ptarray_construct (with_z f) (with_m f) (of_nat (length ts))
                    (concat (map (tuple_doubles f) ts)))), s1))"
proof -
  from len have l: "length ts < 2 ^ 32" by simp
  show ?thesis
    using ne hz hm
    by (simp add: lwline_from_wkb_state_def ptarray_from_wkb_state_at[OF ne sz un sw hz hm l]
        of_nat_le_maxpoints[OF len] of_nat_less[OF len] Let_def ptarray_construct_def)
qed

lemma lwcircstring_from_wkb_state_at:
  assumes ne: "\<not> error s" and sz: "sized s"
    and un: "unread s = wkb_points e f ts @ r"
    and sw: "swap_bytes s = swap_for ext e"
    and hz: "has_z s = with_z f" and hm: "has_m s = with_m f"
    and len: "length ts \<le> 134217727"
  shows "lwcircstring_from_wkb_state ext s =
     (let s1 = s\<lparr>pos := pos s + length (wkb_points e f ts)\<rparr>
      in if ts = [] then (Some (lwcircstring_construct_empty (srid s) (with_z f) (with_m f)), s1)
         else if LW_PARSER_CHECK_MINPOINTS \<in> check s \<and> length ts < 3
           then (None, s1)
         else if LW_PARSER_CHECK_ODD \<in> check s \<and> even (length ts)
           then (None, s1)
         else (Some (lwcircstring_construct (srid s)
                 (ptarray_construct (with_z f) (with_m f) (of_nat (length ts))
                    (concat (map (tuple_doubles f) ts)))), s1))"
proof -
  from len have l: "length ts < 2 ^ 32" by simp
  have ev: "((of_nat (length ts) :: uint32) mod 2 = 0) = even (length ts)"
    using of_nat_le_maxpoints(2)[OF len]
    by (simp add: word_unat_eq_iff unat_mod_distrib even_iff_mod_2_eq_zero)
  show ?thesis
    using ne hz hm
    by (simp add: lwcircstring_from_wkb_state_def ptarray_from_wkb_state_at[OF ne sz un sw hz hm l]
        of_nat_le_maxpoints[OF len] of_nat_less[OF len] Let_def ptarray_construct_def ev)
qed


lemma wkb_points_length:
  "length (wkb_points e f ts) = 4 + 8 * length (concat (map (tuple_doubles f) ts))"
  by (simp add: wkb_points_def concat_tuples)

lemma lwpoly_ring_step:
  assumes "\<not> error s" and "sized s"
    and "unread s = concat (map (wkb_points e f) (ts # rs)) @ r"
    and "swap_bytes s = swap_for ext e"
    and "has_z s = with_z f" and "has_m s = with_m f"
    and "length ts \<le> 134217727"
  shows "lwpoly_rings_from_wkb_state ext (Suc n) (LWPOLY sr hz hm rings0) s =
     (if LW_PARSER_CHECK_MINPOINTS \<in> check s \<and> length ts < 4
      then (None, lwerror ''%s must have at least four points in each ring''
                    (s\<lparr>pos := pos s + length (wkb_points e f ts)\<rparr>))
      else if LW_PARSER_CHECK_CLOSURE \<in> check s
              \<and> \<not> ptarray_is_closed_2d ext (pa_of_tuples f ts)
      then (None, lwerror ''%s must have closed rings''
                    (s\<lparr>pos := pos s + length (wkb_points e f ts)\<rparr>))
      else lwpoly_rings_from_wkb_state ext n
             (LWPOLY sr hz hm (rings0 @ [pa_of_tuples f ts]))
             (s\<lparr>pos := pos s + length (wkb_points e f ts)\<rparr>))"
    and "unread (s\<lparr>pos := pos s + length (wkb_points e f ts)\<rparr>)
           = concat (map (wkb_points e f) rs) @ r"
proof -
  let ?s1 = "s\<lparr>pos := pos s + length (wkb_points e f ts)\<rparr>"
  from assms(7) have l: "length ts < 2 ^ 32" by simp
  have un: "unread s = wkb_points e f ts @ (concat (map (wkb_points e f) rs) @ r)"
    using assms(3) by simp
  have pa: "ptarray_from_wkb_state ext s = (Some (pa_of_tuples f ts), ?s1)"
    using ptarray_from_wkb_state_at[OF assms(1,2) un assms(4,5,6) l]
      of_nat_le_maxpoints(1)[OF assms(7)]
    by (simp add: pa_of_tuples_def)
  have np: "npoints (pa_of_tuples f ts) < 4 \<longleftrightarrow> length ts < 4"
    using of_nat_less(3)[OF assms(7)] by (simp add: ptarray_construct_def pa_of_tuples_def)
  show "unread ?s1 = concat (map (wkb_points e f) rs) @ r"
    using unread_after[OF un, of ?s1] by simp
  show "lwpoly_rings_from_wkb_state ext (Suc n) (LWPOLY sr hz hm rings0) s =
     (if LW_PARSER_CHECK_MINPOINTS \<in> check s \<and> length ts < 4
      then (None, lwerror ''%s must have at least four points in each ring'' ?s1)
      else if LW_PARSER_CHECK_CLOSURE \<in> check s
              \<and> \<not> ptarray_is_closed_2d ext (pa_of_tuples f ts)
      then (None, lwerror ''%s must have closed rings'' ?s1)
      else lwpoly_rings_from_wkb_state ext n (LWPOLY sr hz hm (rings0 @ [pa_of_tuples f ts])) ?s1)"
    by (simp add: pa np)
qed

lemma lwpoly_rings_accept:
  assumes "\<not> error s" and "sized s"
    and "unread s = concat (map (wkb_points e f) rs) @ r"
    and "swap_bytes s = swap_for ext e"
    and "has_z s = with_z f" and "has_m s = with_m f"
    and "\<forall>ts\<in>set rs. length ts \<le> 134217727"
    and "LW_PARSER_CHECK_MINPOINTS \<in> check s"
    and "\<forall>ts\<in>set rs. 4 \<le> length ts
           \<and> (LW_PARSER_CHECK_CLOSURE \<in> check s
                \<longrightarrow> ptarray_is_closed_2d ext (pa_of_tuples f ts))"
  shows "lwpoly_rings_from_wkb_state ext (length rs) (LWPOLY sr hz hm rings0) s =
     (Some (LWPOLY sr hz hm (rings0 @ map (pa_of_tuples f) rs)),
      s\<lparr>pos := pos s + length (concat (map (wkb_points e f) rs))\<rparr>)"
  using assms
proof (induction rs arbitrary: s rings0)
  case Nil
  then show ?case by simp
next
  case (Cons ts rs)
  let ?s1 = "s\<lparr>pos := pos s + length (wkb_points e f ts)\<rparr>"
  from Cons.prems(7,9) have len: "length ts \<le> 134217727" "\<not> length ts < 4"
    and cl: "\<not> (LW_PARSER_CHECK_CLOSURE \<in> check s
              \<and> \<not> ptarray_is_closed_2d ext (pa_of_tuples f ts))"
    and lens: "\<forall>ts\<in>set rs. length ts \<le> 134217727"
      "\<forall>ts\<in>set rs. 4 \<le> length ts
           \<and> (LW_PARSER_CHECK_CLOSURE \<in> check ?s1
                \<longrightarrow> ptarray_is_closed_2d ext (pa_of_tuples f ts))"
    by simp_all
  note st = lwpoly_ring_step[OF Cons.prems(1,2,3,4,5,6) len(1)]
  have "lwpoly_rings_from_wkb_state ext (length rs)
          (LWPOLY sr hz hm (rings0 @ [pa_of_tuples f ts])) ?s1
        = (Some (LWPOLY sr hz hm ((rings0 @ [pa_of_tuples f ts]) @ map (pa_of_tuples f) rs)),
      ?s1\<lparr>pos := pos ?s1 + length (concat (map (wkb_points e f) rs))\<rparr>)"
    using Cons.prems(1,2,4,5,6,8) st(2) lens
    by (intro Cons.IH) (simp_all add: sized_def)
  then show ?case
    using len(2) cl Cons.prems(8)
    by (simp add: st(1) add.assoc del: lwpoly_rings_from_wkb_state.simps)
qed

lemma lwpoly_rings_reject:
  assumes "\<not> error s" and "sized s"
    and "unread s = concat (map (wkb_points e f) rs) @ r"
    and "swap_bytes s = swap_for ext e"
    and "has_z s = with_z f" and "has_m s = with_m f"
    and "\<forall>ts\<in>set rs. length ts \<le> 134217727"
    and "LW_PARSER_CHECK_MINPOINTS \<in> check s"
    and "\<exists>ts\<in>set rs. length ts < 4
           \<or> (LW_PARSER_CHECK_CLOSURE \<in> check s
                \<and> \<not> ptarray_is_closed_2d ext (pa_of_tuples f ts))"
  shows "fst (lwpoly_rings_from_wkb_state ext (length rs) (LWPOLY sr hz hm rings0) s) = None"
  using assms
proof (induction rs arbitrary: s rings0)
  case Nil
  then show ?case by simp
next
  case (Cons ts rs)
  let ?s1 = "s\<lparr>pos := pos s + length (wkb_points e f ts)\<rparr>"
  let ?bad = "\<lambda>ts. length ts < 4
           \<or> (LW_PARSER_CHECK_CLOSURE \<in> check s
                \<and> \<not> ptarray_is_closed_2d ext (pa_of_tuples f ts))"
  from Cons.prems(7) have len: "length ts \<le> 134217727"
    and lens: "\<forall>ts\<in>set rs. length ts \<le> 134217727"
    by simp_all
  note st = lwpoly_ring_step[OF Cons.prems(1,2,3,4,5,6) len(1)]
  show ?case
  proof (cases "?bad ts")
    case True
    with Cons.prems(8) show ?thesis
      by (auto simp add: st(1) simp del: lwpoly_rings_from_wkb_state.simps)
  next
    case False
    with Cons.prems(9) have ex: "\<exists>ts\<in>set rs. length ts < 4
           \<or> (LW_PARSER_CHECK_CLOSURE \<in> check ?s1
                \<and> \<not> ptarray_is_closed_2d ext (pa_of_tuples f ts))" by auto
    have "fst (lwpoly_rings_from_wkb_state ext (length rs)
          (LWPOLY sr hz hm (rings0 @ [pa_of_tuples f ts])) ?s1) = None"
      using Cons.prems(1,2,4,5,6,8) st(2) lens ex
      by (intro Cons.IH) (simp_all add: sized_def)
    with False Cons.prems(8) show ?thesis
      by (simp add: st(1) del: lwpoly_rings_from_wkb_state.simps)
  qed
qed

subsection \<open>Decoding the encoding of a line, a circular string, a polygon\<close>

lemma decoded_encoded:
  "decoded ext (wkb_encode e g) chk =
     map_option fst (lwgeom_from_wkb_state ext (Suc (length (wkb_encode e g)))
       (wkb_parse_state_init ext (wkb_encode e g) (length (wkb_encode e g)) chk))"
  by (simp add: decoded_def lwgeom_from_wkb_encoded del: wkb_encode.simps)

lemma srid_after_header_init:
  "srid (after_header ext e n f k (wkb_parse_state_init ext buf len chk)) = srid_of_flags ext f"
  by (simp add: srid_of_flags_def cong: option.case_cong)

lemma decoded_linestring:
  assumes len: "length ts \<le> 134217727"
  shows "decoded ext (wkb_encode e (Points LineString f ts)) chk =
     Some (if ts = [] then Some (lwline_construct_empty (srid_of_flags ext f) (with_z f) (with_m f))
           else if LW_PARSER_CHECK_MINPOINTS \<in> chk \<and> length ts < 2 then None
           else Some (lwline_construct (srid_of_flags ext f) (pa_of_tuples f ts)))"
proof -
  let ?g = "Points LineString f ts"
  let ?s0 = "wkb_parse_state_init ext (wkb_encode e ?g) (length (wkb_encode e ?g)) chk"
  let ?s1 = "after_header ext e 2 f LINETYPE ?s0"
  have un: "unread ?s0 = wkb_header e 2 f @ (wkb_points e f ts @ [])"
    by simp
  have tab: "map_of wkb_type_table 2 = Some LINETYPE"
    using table_points[of LineString] by simp
  have h: "lwgeom_from_wkb_state ext (Suc calls) ?s0 = Some (lwline_from_wkb_state ext ?s1)" for calls
    using lwgeom_from_wkb_state_header[OF _ _ un tab] by simp
  have un1: "unread ?s1 = wkb_points e f ts @ []"
    using header_at(2)[OF _ _ un tab] by simp
  have l: "lwline_from_wkb_state ext ?s1 = 
     (let s1 = ?s1\<lparr>pos := pos ?s1 + length (wkb_points e f ts)\<rparr>
      in if ts = [] then (Some (lwline_construct_empty (srid ?s1) (with_z f) (with_m f)), s1)
         else if LW_PARSER_CHECK_MINPOINTS \<in> check ?s1 \<and> length ts < 2
           then (None, lwerror (lwtype_name ext (lwtype s1) @ '' must have at least two points'') s1)
         else (Some (lwline_construct (srid ?s1)
                 (ptarray_construct (with_z f) (with_m f) (of_nat (length ts))
                    (concat (map (tuple_doubles f) ts)))), s1))"
    using un1 len by (intro lwline_from_wkb_state_at) simp_all
  show ?thesis
    unfolding decoded_encoded h l Let_def srid_after_header_init
    by (simp add: pa_of_tuples_def del: wkb_encode.simps)
qed

lemma decoded_circularstring:
  assumes len: "length ts \<le> 134217727"
  shows "decoded ext (wkb_encode e (Points CircularString f ts)) chk =
     Some (if ts = []
           then Some (lwcircstring_construct_empty (srid_of_flags ext f) (with_z f) (with_m f))
           else if LW_PARSER_CHECK_MINPOINTS \<in> chk \<and> length ts < 3 then None
           else if LW_PARSER_CHECK_ODD \<in> chk \<and> even (length ts) then None
           else Some (lwcircstring_construct (srid_of_flags ext f) (pa_of_tuples f ts)))"
proof -
  let ?g = "Points CircularString f ts"
  let ?s0 = "wkb_parse_state_init ext (wkb_encode e ?g) (length (wkb_encode e ?g)) chk"
  let ?s1 = "after_header ext e 8 f CIRCSTRINGTYPE ?s0"
  have un: "unread ?s0 = wkb_header e 8 f @ (wkb_points e f ts @ [])"
    by simp
  have tab: "map_of wkb_type_table 8 = Some CIRCSTRINGTYPE"
    using table_points[of CircularString] by simp
  have h: "lwgeom_from_wkb_state ext (Suc calls) ?s0 = Some (lwcircstring_from_wkb_state ext ?s1)"
    for calls
    using lwgeom_from_wkb_state_header[OF _ _ un tab] by simp
  have un1: "unread ?s1 = wkb_points e f ts @ []"
    using header_at(2)[OF _ _ un tab] by simp
  have l: "lwcircstring_from_wkb_state ext ?s1 =
     (let s1 = ?s1\<lparr>pos := pos ?s1 + length (wkb_points e f ts)\<rparr>
      in if ts = []
         then (Some (lwcircstring_construct_empty (srid ?s1) (with_z f) (with_m f)), s1)
         else if LW_PARSER_CHECK_MINPOINTS \<in> check ?s1 \<and> length ts < 3
           then (None, s1)
         else if LW_PARSER_CHECK_ODD \<in> check ?s1 \<and> even (length ts)
           then (None, s1)
         else (Some (lwcircstring_construct (srid ?s1)
                 (ptarray_construct (with_z f) (with_m f) (of_nat (length ts))
                    (concat (map (tuple_doubles f) ts)))), s1))"
    using un1 len by (intro lwcircstring_from_wkb_state_at) simp_all
  show ?thesis
    unfolding decoded_encoded h l Let_def srid_after_header_init
    by (simp add: pa_of_tuples_def del: wkb_encode.simps)
qed

lemma decoded_polygon:
  assumes len: "length rs < 2 ^ 32" and lens: "\<forall>ts\<in>set rs. length ts \<le> 134217727"
    and mp: "LW_PARSER_CHECK_MINPOINTS \<in> chk"
  shows "decoded ext (wkb_encode e (Rings Polygon f rs)) chk =
     Some (if \<forall>ts\<in>set rs. 4 \<le> length ts
                \<and> (LW_PARSER_CHECK_CLOSURE \<in> chk
                     \<longrightarrow> ptarray_is_closed_2d ext (pa_of_tuples f ts))
           then Some (LWPOLY (srid_of_flags ext f) (with_z f) (with_m f) (map (pa_of_tuples f) rs))
           else None)"
proof -
  let ?g = "Rings Polygon f rs"
  let ?s0 = "wkb_parse_state_init ext (wkb_encode e ?g) (length (wkb_encode e ?g)) chk"
  let ?s1 = "after_header ext e 3 f POLYGONTYPE ?s0"
  let ?s2 = "?s1\<lparr>pos := pos ?s1 + 4\<rparr>"
  let ?ok = "\<lambda>ts. 4 \<le> length ts
                \<and> (LW_PARSER_CHECK_CLOSURE \<in> chk
                     \<longrightarrow> ptarray_is_closed_2d ext (pa_of_tuples f ts))"
  have un: "unread ?s0 = wkb_header e 3 f
      @ (wkb_uint32 e (of_nat (length rs)) @ concat (map (wkb_points e f) rs) @ [])"
    by simp
  have tab: "map_of wkb_type_table 3 = Some POLYGONTYPE"
    using table_rings[of Polygon] by simp
  have h: "lwgeom_from_wkb_state ext (Suc calls) ?s0 = Some (lwpoly_from_wkb_state ext ?s1)"
    for calls
    using lwgeom_from_wkb_state_header[OF _ _ un tab] by simp
  have un1: "unread ?s1 = wkb_uint32 e (of_nat (length rs)) @ (concat (map (wkb_points e f) rs) @ [])"
    using header_at(2)[OF _ _ un tab] by simp
  have i: "integer_from_wkb_state ext ?s1 = (of_nat (length rs), ?s2)"
    using un1 by (intro integer_from_wkb_state_at) simp_all
  have un2: "unread ?s2 = concat (map (wkb_points e f) rs) @ []"
    using unread_after[OF un1, of ?s2] by simp
  have n: "unat (of_nat (length rs) :: uint32) = length rs"
    using len by (rule unat_of_nat_length)
  then have z: "((of_nat (length rs) :: uint32) = 0) = (rs = [])"
    by (metis length_0_conv unat_eq_zero)
  show ?thesis
  proof (cases "\<forall>ts\<in>set rs. ?ok ts")
    case True
    have "lwpoly_rings_from_wkb_state ext (length rs)
            (LWPOLY (srid ?s2) (has_z ?s2) (has_m ?s2) []) ?s2 =
     (Some (LWPOLY (srid ?s2) (has_z ?s2) (has_m ?s2) ([] @ map (pa_of_tuples f) rs)),
      ?s2\<lparr>pos := pos ?s2 + length (concat (map (wkb_points e f) rs))\<rparr>)"
      using un2 lens mp True by (intro lwpoly_rings_accept) (simp_all add: sized_def)
    then show ?thesis
      unfolding decoded_encoded h
      using True
      by (simp add: lwpoly_from_wkb_state_def Let_def i n z lwpoly_construct_empty_def
          srid_of_flags_def del: wkb_encode.simps cong: option.case_cong)
  next
    case False
    then have ex: "\<exists>ts\<in>set rs. length ts < 4
           \<or> (LW_PARSER_CHECK_CLOSURE \<in> chk
                \<and> \<not> ptarray_is_closed_2d ext (pa_of_tuples f ts))"
      by (auto simp: not_le)
    then have ne: "rs \<noteq> []" by auto
    have "fst (lwpoly_rings_from_wkb_state ext (length rs)
            (LWPOLY (srid ?s2) (has_z ?s2) (has_m ?s2) []) ?s2) = None"
      using un2 lens mp ex by (intro lwpoly_rings_reject) (simp_all add: sized_def)
    then show ?thesis
      unfolding decoded_encoded h
      using False ne
      by (simp add: lwpoly_from_wkb_state_def Let_def i n z lwpoly_construct_empty_def
          del: wkb_encode.simps)
  qed
qed

subsection \<open>Nested collections\<close>

lemma xy_flags_simps [simp]:
  "with_z xy_flags = False" "with_m xy_flags = False" "with_srid xy_flags = None"
  "iso_form xy_flags = False"
  by (simp_all add: xy_flags_def)

lemma nested_collections_step:
  fixes ext :: externals and e :: bool and s :: wkb_parse_state
  assumes ne: "\<not> error s" and sz: "sized s"
    and un: "unread s = wkb_encode e (nested_collections (Suc n) g) @ r"
  defines "s2 \<equiv> (after_header ext e 7 xy_flags COLLECTIONTYPE s)
                   \<lparr>pos := pos s + length (wkb_header e 7 xy_flags) + 4, depth := depth s + 1\<rparr>"
  shows "lwgeom_from_wkb_state ext (Suc calls) s =
     (if LW_PARSER_MAX_DEPTH \<le> depth s + 1
      then Some (None, lwerror ''Geometry has too many chained collections'' s2)
      else case lwgeom_from_wkb_state ext calls s2 of
          None \<Rightarrow> None
        | Some (geom, s3) \<Rightarrow>
            (case lwcollection_add_lwgeom ext
                    (LWCOLLECTION COLLECTIONTYPE (srid s) False False []) geom of
               None \<Rightarrow> Some (None, lwerror ''Unable to add geometry (%p) to collection (%p)'' s3)
             | Some col \<Rightarrow> Some (Some col, s3\<lparr>depth := depth s3 - 1\<rparr>)))"
    and "unread s2 = wkb_encode e (nested_collections n g) @ r"
    and "\<not> error s2" and "sized s2" and "srid s2 = srid s" and "depth s2 = depth s + 1"
    and "reported s2 = reported s"
proof -
  let ?s1 = "after_header ext e 7 xy_flags COLLECTIONTYPE s"
  have un0: "unread s = wkb_header e 7 xy_flags
      @ (wkb_uint32 e 1 @ (wkb_encode e (nested_collections n g) @ r))"
    using un by simp
  have tab: "map_of wkb_type_table 7 = Some COLLECTIONTYPE"
    using table_geoms[of GeometryCollection] by simp
  have h: "lwgeom_from_wkb_state ext (Suc calls) s
      = lwcollection_from_wkb_state ext (lwgeom_from_wkb_state ext calls) ?s1"
    using lwgeom_from_wkb_state_header[OF ne sz un0 tab] by simp
  have un1: "unread ?s1 = wkb_uint32 e 1 @ (wkb_encode e (nested_collections n g) @ r)"
    using header_at(2)[OF ne sz un0 tab] .
  have i: "integer_from_wkb_state ext ?s1 = (1, ?s1\<lparr>pos := pos ?s1 + 4\<rparr>)"
    using un1 ne sz by (intro integer_from_wkb_state_at) simp_all
  show "unread s2 = wkb_encode e (nested_collections n g) @ r"
    using unread_after[OF un1, of s2] by (simp add: s2_def)
  show "\<not> error s2" "sized s2" "srid s2 = srid s" "depth s2 = depth s + 1"
    "reported s2 = reported s"
    using ne sz by (simp_all add: s2_def sized_def xy_flags_def)
  have c: "lwcollection_from_wkb_state ext child ?s1 =
     (if LW_PARSER_MAX_DEPTH \<le> depth s + 1
      then Some (None, lwerror ''Geometry has too many chained collections'' s2)
      else case lwcollection_geoms_from_wkb_state ext child (Suc 0)
                  (LWCOLLECTION COLLECTIONTYPE (srid s) False False []) s2 of
          None \<Rightarrow> None
        | Some (None, s) \<Rightarrow> Some (None, s)
        | Some (Some col, s) \<Rightarrow> Some (Some col, s\<lparr>depth := depth s - 1\<rparr>))" for child
    using ne
    by (simp add: lwcollection_from_wkb_state_def i Let_def s2_def lwcollection_construct_empty_def
        add.assoc
        del: lwcollection_geoms_from_wkb_state.simps
        cong: option.case_cong)
  show "lwgeom_from_wkb_state ext (Suc calls) s =
     (if LW_PARSER_MAX_DEPTH \<le> depth s + 1
      then Some (None, lwerror ''Geometry has too many chained collections'' s2)
      else case lwgeom_from_wkb_state ext calls s2 of
          None \<Rightarrow> None
        | Some (geom, s3) \<Rightarrow>
            (case lwcollection_add_lwgeom ext
                    (LWCOLLECTION COLLECTIONTYPE (srid s) False False []) geom of
               None \<Rightarrow> Some (None, lwerror ''Unable to add geometry (%p) to collection (%p)'' s3)
             | Some col \<Rightarrow> Some (Some col, s3\<lparr>depth := depth s3 - 1\<rparr>)))"
  proof (cases "lwgeom_from_wkb_state ext calls s2")
    case None
    then show ?thesis unfolding h c by simp
  next
    case (Some x)
    obtain geom s3 where x: "x = (geom, s3)" by (cases x)
    show ?thesis
    proof (cases "lwcollection_add_lwgeom ext
                    (LWCOLLECTION COLLECTIONTYPE (srid s) False False []) geom")
      case None
      with Some x show ?thesis unfolding h c by simp
    next
      case (Some col)
      with \<open>lwgeom_from_wkb_state ext calls s2 = Some x\<close> x show ?thesis
        unfolding h c by simp
    qed
  qed
qed

lemma depth_Suc:
  assumes "unat (d :: 8 word) < 200"
  shows "unat (d + 1) = Suc (unat d)" and "(200 \<le> d + 1) = (199 \<le> unat d)"
proof -
  show u: "unat (d + 1) = Suc (unat d)"
    using assms by (simp add: unat_word_ariths)
  show "(200 \<le> d + 1) = (199 \<le> unat d)"
    using u by (simp add: word_le_nat_alt)
qed

lemma nested_collections_too_deep:
  assumes "\<not> error s" and "sized s"
    and "unread s = wkb_encode e (nested_collections n g) @ r"
    and "unat (depth s) < 200" and "200 \<le> unat (depth s) + n"
    and "200 - unat (depth s) \<le> calls"
  shows "\<exists>s'. lwgeom_from_wkb_state ext calls s = Some (None, s')
     \<and> reported s' = reported s @ ''Geometry has too many chained collections''
          # replicate (199 - unat (depth s)) ''Unable to add geometry (%p) to collection (%p)''"
  using assms
proof (induction n arbitrary: s calls)
  case 0
  then show ?case by simp
next
  case (Suc n)
  from Suc.prems(4,6) obtain c where calls: "calls = Suc c" by (cases calls) simp_all
  define s2 where "s2 = (after_header ext e 7 xy_flags COLLECTIONTYPE s)
                   \<lparr>pos := pos s + length (wkb_header e 7 xy_flags) + 4, depth := depth s + 1\<rparr>"
  note st1 = nested_collections_step(1)[OF Suc.prems(1,2,3), where ext = ext and calls = c, folded s2_def]
  note st = nested_collections_step(2-7)[OF Suc.prems(1,2,3), where ext = ext, folded s2_def]
  note d = depth_Suc[OF Suc.prems(4)]
  show ?case
  proof (cases "199 \<le> unat (depth s)")
    case True
    with Suc.prems(4) have "unat (depth s) = 199" by simp
    then show ?thesis
      unfolding calls st1 using d(2) st(6) by (simp add: lwerror_def)
  next
    case False
    have "\<exists>s'. lwgeom_from_wkb_state ext c s2 = Some (None, s')
       \<and> reported s' = reported s2 @ ''Geometry has too many chained collections''
          # replicate (199 - unat (depth s2)) ''Unable to add geometry (%p) to collection (%p)''"
      using st(1,2,3) False Suc.prems(4,5,6) d(1) calls
      by (intro Suc.IH) (simp_all add: st(5))
    then obtain s' where s': "lwgeom_from_wkb_state ext c s2 = Some (None, s')"
      and r: "reported s' = reported s @ ''Geometry has too many chained collections''
          # replicate (198 - unat (depth s)) ''Unable to add geometry (%p) to collection (%p)''"
      by (auto simp: st(5,6) d(1))
    have "199 - unat (depth s) = Suc (198 - unat (depth s))"
      using False by simp
    then have rep: "replicate (199 - unat (depth s)) x = replicate (198 - unat (depth s)) x @ [x]"
      for x :: string
      by (simp add: replicate_append_same)
    show ?thesis
      unfolding calls st1 using False d(2) s' r
      by (simp add: lwerror_def rep del: replicate_Suc)
  qed
qed


lemma lwgeom_type_nested:
  "lwgeom_type (nested_lwcollections n sr (lwpoint_of_tuple sr' f t))
     = (if n = 0 then POINTTYPE else COLLECTIONTYPE)"
  by (cases n) (simp_all add: lwpoint_of_tuple_def lwpoint_construct_empty_def
      lwpoint_construct_def)

lemma point_decoded:
  assumes ne: "\<not> error s" and sz: "sized s"
    and un: "unread s = wkb_encode e (Point f t) @ r"
  shows "\<exists>s'. lwgeom_from_wkb_state ext (Suc calls) s
        = Some (Some (lwpoint_of_tuple (srid (after_header ext e 1 f POINTTYPE s)) f t), s')
     \<and> depth s' = depth s \<and> reported s' = reported s"
proof -
  obtain x y z m where t: "t = (x, y, z, m)" by (cases t)
  let ?s1 = "after_header ext e 1 f POINTTYPE s"
  have un0: "unread s = wkb_header e 1 f @ (wkb_tuple e f (x, y, z, m) @ r)"
    using un t by simp
  have h: "lwgeom_from_wkb_state ext (Suc calls) s = Some (lwpoint_from_wkb_state ext ?s1)"
    using lwgeom_from_wkb_state_header[OF ne sz un0 table_point] by simp
  have un1: "unread ?s1 = wkb_tuple e f (x, y, z, m) @ r"
    using header_at(2)[OF ne sz un0 table_point] .
  have p: "lwpoint_from_wkb_state ext ?s1 =
     (Some (if isnan x \<and> isnan y
            then lwpoint_construct_empty (srid ?s1) (with_z f) (with_m f)
            else lwpoint_construct (srid ?s1)
                   (ptarray_construct (with_z f) (with_m f) 1 (tuple_doubles f (x, y, z, m)))),
      ?s1\<lparr>pos := pos ?s1 + length (wkb_tuple e f (x, y, z, m))\<rparr>)"
    using un1 ne sz by (intro lwpoint_from_wkb_state_at) simp_all
  show ?thesis
    unfolding h p by (simp add: lwpoint_of_tuple_def t)
qed

lemma nested_collections_decoded:
  assumes "\<not> error s" and "sized s"
    and "unread s = wkb_encode e (nested_collections n (Point xy_flags t)) @ r"
    and "lwcollection_allows_subtype ext COLLECTIONTYPE COLLECTIONTYPE"
    and "lwcollection_allows_subtype ext COLLECTIONTYPE POINTTYPE"
    and "unat (depth s) + n < 200" and "n < calls"
  shows "\<exists>s'. lwgeom_from_wkb_state ext calls s
        = Some (Some (nested_lwcollections n (srid s) (lwpoint_of_tuple (srid s) xy_flags t)), s')
     \<and> depth s' = depth s \<and> reported s' = reported s"
  using assms
proof (induction n arbitrary: s calls)
  case 0
  from 0(7) obtain c where calls: "calls = Suc c" by (cases calls) simp_all
  from 0(3) have un: "unread s = wkb_encode e (Point xy_flags t) @ r" by simp
  show ?case
    using point_decoded[OF 0(1,2) un, of ext c] unfolding calls by simp
next
  case (Suc n)
  from Suc.prems(7) obtain c where calls: "calls = Suc c" by (cases calls) simp_all
  define s2 where "s2 = (after_header ext e 7 xy_flags COLLECTIONTYPE s)
                   \<lparr>pos := pos s + length (wkb_header e 7 xy_flags) + 4, depth := depth s + 1\<rparr>"
  note st1 = nested_collections_step(1)[OF Suc.prems(1,2,3), where ext = ext and calls = c,
      folded s2_def]
  note st = nested_collections_step(2-7)[OF Suc.prems(1,2,3), where ext = ext, folded s2_def]
  from Suc.prems(6) have lt: "unat (depth s) < 200" and nd: "\<not> 199 \<le> unat (depth s)"
    by simp_all
  note d = depth_Suc[OF lt]
  have "\<exists>s'. lwgeom_from_wkb_state ext c s2
        = Some (Some (nested_lwcollections n (srid s2) (lwpoint_of_tuple (srid s2) xy_flags t)), s')
     \<and> depth s' = depth s2 \<and> reported s' = reported s2"
    using st(1,2,3) Suc.prems(4,5,6,7) d(1) calls
    by (intro Suc.IH) (simp_all add: st(5))
  then obtain s3 where s3: "lwgeom_from_wkb_state ext c s2
        = Some (Some (nested_lwcollections n (srid s) (lwpoint_of_tuple (srid s) xy_flags t)), s3)"
    and d3: "depth s3 = depth s + 1" and r3: "reported s3 = reported s"
    by (auto simp: st(4,5,6))
  show ?case
    unfolding calls st1 using nd d(2) s3 d3 r3 Suc.prems(4,5)
    by (simp add: lwgeom_type_nested)
qed

lemma length_wkb_header_xy [simp]: "length (wkb_header e n xy_flags) = 5"
  by (simp add: wkb_header_def)

lemma length_nested_collections:
  "length (wkb_encode e (nested_collections n g)) = 9 * n + length (wkb_encode e g)"
  by (induction n) simp_all

lemma nested_collections_rejected:
  assumes "199 \<le> n"
  shows "decoded ext (wkb_encode e (nested_collections n g)) chk = Some None"
    and "reports ext (wkb_encode e (nested_collections n g)) chk
      = Some (''Geometry has too many chained collections''
              # replicate 198 ''Unable to add geometry (%p) to collection (%p)'')"
proof -
  let ?buf = "wkb_encode e (nested_collections n g)"
  let ?s0 = "wkb_parse_state_init ext ?buf (length ?buf) chk"
  have un: "unread ?s0 = ?buf @ []" by simp
  have calls: "200 - unat (depth ?s0) \<le> Suc (length ?buf)"
    using assms by (simp add: length_nested_collections)
  have "\<exists>s'. lwgeom_from_wkb_state ext (Suc (length ?buf)) ?s0 = Some (None, s')
     \<and> reported s' = reported ?s0 @ ''Geometry has too many chained collections''
          # replicate (199 - unat (depth ?s0)) ''Unable to add geometry (%p) to collection (%p)''"
    using nested_collections_too_deep[OF _ _ un _ _ calls, where ext = ext] assms by simp
  then obtain s' where s': "lwgeom_from_wkb_state ext (Suc (length ?buf)) ?s0 = Some (None, s')"
    and r: "reported s' = ''Geometry has too many chained collections''
          # replicate 198 ''Unable to add geometry (%p) to collection (%p)''"
    by auto
  show "decoded ext ?buf chk = Some None"
    unfolding decoded_encoded s' by simp
  show "reports ext ?buf chk
      = Some (''Geometry has too many chained collections''
              # replicate 198 ''Unable to add geometry (%p) to collection (%p)'')"
    unfolding reports_def lwgeom_from_wkb_encoded s' using r by simp
qed

lemma nested_collections_accepted:
  assumes "lwcollection_allows_subtype ext COLLECTIONTYPE COLLECTIONTYPE"
    and "lwcollection_allows_subtype ext COLLECTIONTYPE POINTTYPE"
    and "n < 199"
  shows "decoded ext (wkb_encode e (nested_collections n (Point xy_flags t))) chk
      = Some (Some (nested_lwcollections n (SRID_UNKNOWN ext)
                      (lwpoint_of_tuple (SRID_UNKNOWN ext) xy_flags t)))"
    and "reports ext (wkb_encode e (nested_collections n (Point xy_flags t))) chk = Some []"
proof -
  let ?buf = "wkb_encode e (nested_collections n (Point xy_flags t))"
  let ?s0 = "wkb_parse_state_init ext ?buf (length ?buf) chk"
  have un: "unread ?s0 = ?buf @ []" by simp
  have calls: "n < Suc (length ?buf)"
    by (simp add: length_nested_collections)
  have "\<exists>s'. lwgeom_from_wkb_state ext (Suc (length ?buf)) ?s0
        = Some (Some (nested_lwcollections n (srid ?s0) (lwpoint_of_tuple (srid ?s0) xy_flags t)), s')
     \<and> depth s' = depth ?s0 \<and> reported s' = reported ?s0"
    using nested_collections_decoded[OF _ _ un assms(1,2) _ calls] assms(3) by simp
  then obtain s' where s': "lwgeom_from_wkb_state ext (Suc (length ?buf)) ?s0
        = Some (Some (nested_lwcollections n (SRID_UNKNOWN ext)
                  (lwpoint_of_tuple (SRID_UNKNOWN ext) xy_flags t)), s')"
    and r: "reported s' = []"
    by auto
  show "decoded ext ?buf chk
      = Some (Some (nested_lwcollections n (SRID_UNKNOWN ext)
                      (lwpoint_of_tuple (SRID_UNKNOWN ext) xy_flags t)))"
    unfolding decoded_encoded s' by simp
  show "reports ext ?buf chk = Some []"
    unfolding reports_def lwgeom_from_wkb_encoded s' using r by simp
qed

subsection \<open>Nested curve polygons\<close>

lemma empty_curvepolygon_decoded:
  fixes ext :: externals and e :: bool and s :: wkb_parse_state
  assumes ne: "\<not> error s" and sz: "sized s"
    and un: "unread s = wkb_encode e (nested_curvepolygons 0) @ r"
  shows "\<exists>s'. lwgeom_from_wkb_state ext (Suc calls) s
            = Some (Some (LWCURVEPOLY (srid s) False False []), s')
          \<and> depth s' = depth s \<and> reported s' = reported s \<and> \<not> error s'"
proof -
  let ?s1 = "after_header ext e 10 xy_flags CURVEPOLYTYPE s"
  have un0: "unread s = wkb_header e 10 xy_flags @ (wkb_uint32 e 0 @ r)"
    using un by simp
  have tab: "map_of wkb_type_table 10 = Some CURVEPOLYTYPE"
    using table_geoms[of CurvePolygon] by simp
  have h: "lwgeom_from_wkb_state ext (Suc calls) s
      = lwcurvepoly_from_wkb_state ext (lwgeom_from_wkb_state ext calls) ?s1"
    using lwgeom_from_wkb_state_header[OF ne sz un0 tab] by simp
  have un1: "unread ?s1 = wkb_uint32 e 0 @ r"
    using header_at(2)[OF ne sz un0 tab] .
  have i: "integer_from_wkb_state ext ?s1 = (0, ?s1\<lparr>pos := pos ?s1 + 4\<rparr>)"
    using un1 ne sz by (intro integer_from_wkb_state_at) simp_all
  show ?thesis
    unfolding h using ne
    by (simp add: lwcurvepoly_from_wkb_state_def i lwcurvepoly_construct_empty_def)
qed

lemma nested_curvepolygons_step:
  fixes ext :: externals and e :: bool and s :: wkb_parse_state
  assumes ne: "\<not> error s" and sz: "sized s"
    and un: "unread s = wkb_encode e (nested_curvepolygons (Suc n)) @ r"
  defines "s2 \<equiv> (after_header ext e 10 xy_flags CURVEPOLYTYPE s)
                   \<lparr>pos := pos s + length (wkb_header e 10 xy_flags) + 4\<rparr>"
  shows "lwgeom_from_wkb_state ext (Suc calls) s =
     (case lwgeom_from_wkb_state ext calls s2 of
          None \<Rightarrow> None
        | Some (geom, s3) \<Rightarrow>
            (case lwcurvepoly_add_ring (LWCURVEPOLY (srid s) False False []) geom of
               None \<Rightarrow> Some (None, lwerror ''Unable to add geometry (%p) to curvepoly (%p)'' s3)
             | Some cp \<Rightarrow> Some (Some cp, s3)))"
    and "unread s2 = wkb_encode e (nested_curvepolygons n) @ r"
    and "\<not> error s2" and "sized s2" and "srid s2 = srid s" and "depth s2 = depth s"
    and "reported s2 = reported s"
proof -
  let ?s1 = "after_header ext e 10 xy_flags CURVEPOLYTYPE s"
  have un0: "unread s = wkb_header e 10 xy_flags
      @ (wkb_uint32 e 1 @ (wkb_encode e (nested_curvepolygons n) @ r))"
    using un by simp
  have tab: "map_of wkb_type_table 10 = Some CURVEPOLYTYPE"
    using table_geoms[of CurvePolygon] by simp
  have h: "lwgeom_from_wkb_state ext (Suc calls) s
      = lwcurvepoly_from_wkb_state ext (lwgeom_from_wkb_state ext calls) ?s1"
    using lwgeom_from_wkb_state_header[OF ne sz un0 tab] by simp
  have un1: "unread ?s1 = wkb_uint32 e 1 @ (wkb_encode e (nested_curvepolygons n) @ r)"
    using header_at(2)[OF ne sz un0 tab] .
  have i: "integer_from_wkb_state ext ?s1 = (1, ?s1\<lparr>pos := pos ?s1 + 4\<rparr>)"
    using un1 ne sz by (intro integer_from_wkb_state_at) simp_all
  show "unread s2 = wkb_encode e (nested_curvepolygons n) @ r"
    using unread_after[OF un1, of s2] by (simp add: s2_def)
  show "\<not> error s2" "sized s2" "srid s2 = srid s" "depth s2 = depth s"
    "reported s2 = reported s"
    using ne sz by (simp_all add: s2_def sized_def)
  have c: "lwcurvepoly_from_wkb_state ext child ?s1 =
     lwcurvepoly_rings_from_wkb_state child (Suc 0) (LWCURVEPOLY (srid s) False False []) s2"
    for child
    using ne
    by (simp add: lwcurvepoly_from_wkb_state_def i Let_def s2_def lwcurvepoly_construct_empty_def
        add.assoc
        del: lwcurvepoly_rings_from_wkb_state.simps
        cong: option.case_cong)
  show "lwgeom_from_wkb_state ext (Suc calls) s =
     (case lwgeom_from_wkb_state ext calls s2 of
          None \<Rightarrow> None
        | Some (geom, s3) \<Rightarrow>
            (case lwcurvepoly_add_ring (LWCURVEPOLY (srid s) False False []) geom of
               None \<Rightarrow> Some (None, lwerror ''Unable to add geometry (%p) to curvepoly (%p)'' s3)
             | Some cp \<Rightarrow> Some (Some cp, s3)))"
    unfolding h c by (simp split: option.splits prod.splits)
qed

lemma nested_curvepolygons_calls:
  fixes ext :: externals and e :: bool and s :: wkb_parse_state
  assumes "\<not> error s" and "sized s"
    and "unread s = wkb_encode e (nested_curvepolygons n) @ r"
  shows "calls \<le> n \<Longrightarrow> lwgeom_from_wkb_state ext calls s = None"
    and "n < calls \<Longrightarrow> \<exists>s'. lwgeom_from_wkb_state ext calls s
            = Some (if n = 0 then Some (LWCURVEPOLY (srid s) False False []) else None, s')
          \<and> depth s' = depth s \<and> \<not> error s'
          \<and> reported s' = reported s
               @ replicate n ''Unable to add geometry (%p) to curvepoly (%p)''"
  using assms
proof (induction n arbitrary: s calls)
  case 0
  {
    case 1
    then show ?case by simp
  next
    case 2
    from 2(1) obtain c where calls: "calls = Suc c" by (cases calls) simp_all
    show ?case
      using empty_curvepolygon_decoded[OF 2(2,3,4), of ext c] unfolding calls
      by (auto simp del: lwgeom_from_wkb_state.simps)
  }
next
  case (Suc n)
  {
    case 1
    show ?case
    proof (cases calls)
      case 0
      then show ?thesis by simp
    next
      case (Suc c)
      note st1 = nested_curvepolygons_step(1)[OF 1(2,3,4), where ext = ext and calls = c]
      note st = nested_curvepolygons_step(2-7)[OF 1(2,3,4), where ext = ext]
      from 1(1) Suc have "c \<le> n" by simp
      from Suc.IH(1)[OF this st(2,3,1)] show ?thesis
        unfolding Suc st1 by simp
    qed
  next
    case 2
    from 2(1) obtain c where calls: "calls = Suc c" and c: "n < c" by (cases calls) simp_all
    note st1 = nested_curvepolygons_step(1)[OF 2(2,3,4), where ext = ext and calls = c]
    note st = nested_curvepolygons_step(2-7)[OF 2(2,3,4), where ext = ext]
    from Suc.IH(2)[OF c st(2,3,1)] obtain s' where
      s': "lwgeom_from_wkb_state ext c
             ((after_header ext e 10 xy_flags CURVEPOLYTYPE s)
                \<lparr>pos := pos s + length (wkb_header e 10 xy_flags) + 4\<rparr>)
            = Some (if n = 0 then Some (LWCURVEPOLY (srid s) False False []) else None, s')"
      and d: "depth s' = depth s" and ne: "\<not> error s'"
      and r: "reported s' = reported s
               @ replicate n ''Unable to add geometry (%p) to curvepoly (%p)''"
      by (auto simp: st(4,5,6))
    show ?case
      unfolding calls st1 s' using d ne r
      by (simp add: lwerror_def replicate_append_same)
  }
qed

subsection \<open>More nested calls change no result\<close>

lemma lwcollection_geoms_more_calls:
  assumes "\<And>s x. child s = Some x \<Longrightarrow> child' s = Some x"
    and "lwcollection_geoms_from_wkb_state ext child n col s = Some x"
  shows "lwcollection_geoms_from_wkb_state ext child' n col s = Some x"
  using assms(2)
proof (induction n arbitrary: col s)
  case 0
  then show ?case by simp
next
  case (Suc n)
  from Suc.prems obtain geom s1 where c: "child s = Some (geom, s1)"
    by (auto split: option.splits)
  with assms(1) have c': "child' s = Some (geom, s1)" by simp
  show ?case
  proof (cases "lwcollection_add_lwgeom ext col geom")
    case None
    with Suc.prems c c' show ?thesis by simp
  next
    case (Some col')
    with Suc.prems c have "lwcollection_geoms_from_wkb_state ext child n col' s1 = Some x"
      by simp
    from Suc.IH[OF this] Some c' show ?thesis by simp
  qed
qed

lemma lwcurvepoly_rings_more_calls:
  assumes "\<And>s x. child s = Some x \<Longrightarrow> child' s = Some x"
    and "lwcurvepoly_rings_from_wkb_state child n cp s = Some x"
  shows "lwcurvepoly_rings_from_wkb_state child' n cp s = Some x"
  using assms(2)
proof (induction n arbitrary: cp s)
  case 0
  then show ?case by simp
next
  case (Suc n)
  from Suc.prems obtain geom s1 where c: "child s = Some (geom, s1)"
    by (auto split: option.splits)
  with assms(1) have c': "child' s = Some (geom, s1)" by simp
  show ?case
  proof (cases "lwcurvepoly_add_ring cp geom")
    case None
    with Suc.prems c c' show ?thesis by simp
  next
    case (Some cp')
    with Suc.prems c have "lwcurvepoly_rings_from_wkb_state child n cp' s1 = Some x"
      by simp
    from Suc.IH[OF this] Some c' show ?thesis by simp
  qed
qed

lemma lwcollection_more_calls:
  assumes "\<And>s x. child s = Some x \<Longrightarrow> child' s = Some x"
    and "lwcollection_from_wkb_state ext child s = Some x"
  shows "lwcollection_from_wkb_state ext child' s = Some x"
  using assms(2) lwcollection_geoms_more_calls[of child child', OF assms(1)]
  unfolding lwcollection_from_wkb_state_def Let_def
  by (auto split: prod.splits if_splits option.splits)

lemma lwcurvepoly_more_calls:
  assumes "\<And>s x. child s = Some x \<Longrightarrow> child' s = Some x"
    and "lwcurvepoly_from_wkb_state ext child s = Some x"
  shows "lwcurvepoly_from_wkb_state ext child' s = Some x"
  using assms(2)
  unfolding lwcurvepoly_from_wkb_state_def Let_def
  by (auto split: prod.splits if_splits
      intro: lwcurvepoly_rings_more_calls[of child child', OF assms(1)])

lemma lwgeom_from_wkb_state_Suc_calls:
  "lwgeom_from_wkb_state ext n s = Some x \<Longrightarrow> lwgeom_from_wkb_state ext (Suc n) s = Some x"
proof (induction n arbitrary: s x)
  case 0
  then show ?case by simp
next
  case (Suc n)
  have m: "\<And>s x. lwgeom_from_wkb_state ext n s = Some x
             \<Longrightarrow> lwgeom_from_wkb_state ext (Suc n) s = Some x"
    by (rule Suc.IH)
  note col = lwcollection_more_calls[of "lwgeom_from_wkb_state ext n"
      "lwgeom_from_wkb_state ext (Suc n)" ext, OF m]
  note cp = lwcurvepoly_more_calls[of "lwgeom_from_wkb_state ext n"
      "lwgeom_from_wkb_state ext (Suc n)" ext, OF m]
  show ?case
  proof (cases "wkb_header_from_wkb_state ext s")
    case (Inl s1)
    with Suc.prems show ?thesis by simp
  next
    case (Inr s1)
    with Suc.prems col[of s1 x] cp[of s1 x] show ?thesis
      by (cases "lwtype s1") (simp_all del: lwgeom_from_wkb_state.simps
          add: lwgeom_from_wkb_state.simps(2)[of ext "Suc n"] lwgeom_from_wkb_state.simps(2)[of ext n])
  qed
qed

lemma lwgeom_from_wkb_state_more_calls:
  assumes "lwgeom_from_wkb_state ext n s = Some x" and "n \<le> m"
  shows "lwgeom_from_wkb_state ext m s = Some x"
  using assms(2,1)
  by (induction m rule: dec_induct) (simp_all add: lwgeom_from_wkb_state_Suc_calls del: lwgeom_from_wkb_state.simps)

section \<open>Two runs of the decoder on two encodings of one geometry\<close>

lemma length_wkb_header:
  "length (wkb_header e n f) = 5 + (if with_srid f = None then 0 else 4)"
  by (simp add: wkb_header_def split: option.splits)

lemma sim_lwerror: "sim s1 s2 \<Longrightarrow> sim (lwerror m s1) (lwerror m s2)"
  by (simp add: sim_def lwerror_def)

lemma sim_after_header:
  "sim s1 s2 \<Longrightarrow> sim (after_header ext e1 n f k s1) (after_header ext e2 n f k s2)"
  by (simp add: sim_def after_header_def length_wkb_header split: option.splits)

lemma sim_fields:
  assumes "sim s1 s2"
  shows "srid s1 = srid s2" "check s1 = check s2" "lwtype s1 = lwtype s2"
    "has_z s1 = has_z s2" "has_m s1 = has_m s2" "error s1 = error s2" "depth s1 = depth s2"
    "pos s1 = pos s2" "reported s1 = reported s2"
  using assms by (simp_all add: sim_def)

lemma sim_advance:
  assumes "sim s1 s2" and "\<not> error s1" and "sized s1" and "sized s2"
    and "unread s1 = a1 @ r1" and "unread s2 = a2 @ r2" and "length a1 = length a2"
  shows "sim_result r1 r2 (v, s1\<lparr>pos := pos s1 + length a1\<rparr>) (v, s2\<lparr>pos := pos s2 + length a2\<rparr>)"
proof -
  have "unread (s1\<lparr>pos := pos s1 + length a1\<rparr>) = r1"
    using unread_after[OF assms(5), of "s1\<lparr>pos := pos s1 + length a1\<rparr>"] by simp
  moreover have "unread (s2\<lparr>pos := pos s2 + length a2\<rparr>) = r2"
    using unread_after[OF assms(6), of "s2\<lparr>pos := pos s2 + length a2\<rparr>"] by simp
  ultimately show ?thesis
    using assms(1,2,3,4,7) unfolding sim_result_def
    by (simp add: sim_def sized_def del: unread_pos)
qed

lemma sim_null:
  assumes "sim t1 t2" and "\<not> error t1" and "sized t1" and "sized t2"
  shows "sim_result r1 r2 (None, t1) (None, t2)"
  using assms by (simp add: sim_result_def)

lemma sim_null_advance:
  assumes "sim s1 s2" and "\<not> error s1" and "sized s1" and "sized s2"
  shows "sim_result r1 r2 (None, s1\<lparr>pos := pos s1 + n\<rparr>) (None, s2\<lparr>pos := pos s2 + n\<rparr>)"
    and "sim_result r1 r2 (None, lwerror m (s1\<lparr>pos := pos s1 + n\<rparr>))
           (None, lwerror m (s2\<lparr>pos := pos s2 + n\<rparr>))"
  using assms by (simp_all add: sim_result_def sim_def sized_def lwerror_def)

lemma sim_point:
  assumes s: "sim s1 s2" and ne: "\<not> error s1" and sz: "sized s1" "sized s2"
    and un: "unread s1 = wkb_tuple e1 f t @ r1" "unread s2 = wkb_tuple e2 f t @ r2"
    and sw: "swap_bytes s1 = swap_for ext e1" "swap_bytes s2 = swap_for ext e2"
    and hz: "has_z s1 = with_z f" "has_m s1 = with_m f"
  shows "sim_result r1 r2 (lwpoint_from_wkb_state ext s1) (lwpoint_from_wkb_state ext s2)"
proof -
  obtain x y z m where t: "t = (x, y, z, m)" by (cases t)
  note f = sim_fields[OF s]
  from ne f have ne2: "\<not> error s2" by simp
  from hz f have hz2: "has_z s2 = with_z f" "has_m s2 = with_m f" by simp_all
  note p1 = lwpoint_from_wkb_state_at[OF ne sz(1) un(1)[unfolded t] sw(1) hz]
  note p2 = lwpoint_from_wkb_state_at[OF ne2 sz(2) un(2)[unfolded t] sw(2) hz2]
  have l: "length (wkb_tuple e1 f (x, y, z, m)) = length (wkb_tuple e2 f (x, y, z, m))"
    by simp
  show ?thesis
    unfolding p1 p2 f(1)
    by (rule sim_advance[OF s ne sz un[unfolded t] l])
qed

lemma length_wkb_points: "length (wkb_points e1 f ts) = length (wkb_points e2 f ts)"
  by (simp add: wkb_points_length)

lemma sim_line:
  assumes s: "sim s1 s2" and ne: "\<not> error s1" and sz: "sized s1" "sized s2"
    and un: "unread s1 = wkb_points e1 f ts @ r1" "unread s2 = wkb_points e2 f ts @ r2"
    and sw: "swap_bytes s1 = swap_for ext e1" "swap_bytes s2 = swap_for ext e2"
    and hz: "has_z s1 = with_z f" "has_m s1 = with_m f"
    and len: "length ts \<le> 134217727"
  shows "sim_result r1 r2 (lwline_from_wkb_state ext s1) (lwline_from_wkb_state ext s2)"
proof -
  note f = sim_fields[OF s]
  from ne f have ne2: "\<not> error s2" by simp
  from hz f have hz2: "has_z s2 = with_z f" "has_m s2 = with_m f" by simp_all
  define N where "N = length (wkb_points e1 f ts)"
  note l = length_wkb_points[of e1 f ts e2]
  note p1 = lwline_from_wkb_state_at[OF ne sz(1) un(1) sw(1) hz len, folded N_def]
  note p2 = lwline_from_wkb_state_at[OF ne2 sz(2) un(2) sw(2) hz2 len,
      unfolded l[symmetric], folded N_def]
  note a = sim_advance[OF s ne sz un l, unfolded l[symmetric], folded N_def]
  note n = sim_null_advance[OF s ne sz, where n = N]
  show ?thesis
    unfolding p1 p2 Let_def using f(1,2,3) by (simp add: a n)
qed

lemma sim_circstring:
  assumes s: "sim s1 s2" and ne: "\<not> error s1" and sz: "sized s1" "sized s2"
    and un: "unread s1 = wkb_points e1 f ts @ r1" "unread s2 = wkb_points e2 f ts @ r2"
    and sw: "swap_bytes s1 = swap_for ext e1" "swap_bytes s2 = swap_for ext e2"
    and hz: "has_z s1 = with_z f" "has_m s1 = with_m f"
    and len: "length ts \<le> 134217727"
  shows "sim_result r1 r2 (lwcircstring_from_wkb_state ext s1) (lwcircstring_from_wkb_state ext s2)"
proof -
  note f = sim_fields[OF s]
  from ne f have ne2: "\<not> error s2" by simp
  from hz f have hz2: "has_z s2 = with_z f" "has_m s2 = with_m f" by simp_all
  define N where "N = length (wkb_points e1 f ts)"
  note l = length_wkb_points[of e1 f ts e2]
  note p1 = lwcircstring_from_wkb_state_at[OF ne sz(1) un(1) sw(1) hz len, folded N_def]
  note p2 = lwcircstring_from_wkb_state_at[OF ne2 sz(2) un(2) sw(2) hz2 len,
      unfolded l[symmetric], folded N_def]
  note a = sim_advance[OF s ne sz un l, unfolded l[symmetric], folded N_def]
  note n = sim_null_advance[OF s ne sz, where n = N]
  show ?thesis
    unfolding p1 p2 Let_def using f(1,2,3) by (simp add: a n)
qed

lemma sim_pos:
  assumes "sim s1 s2" and "\<not> error s1" and "sized s1" and "sized s2"
  shows "sim (s1\<lparr>pos := pos s1 + n\<rparr>) (s2\<lparr>pos := pos s2 + n\<rparr>)"
    and "\<not> error (s1\<lparr>pos := pos s1 + n\<rparr>)"
    and "sized (s1\<lparr>pos := pos s1 + n\<rparr>)" and "sized (s2\<lparr>pos := pos s2 + n\<rparr>)"
  using assms by (simp_all add: sim_def sized_def)

lemma sim_poly_rings:
  assumes "sim s1 s2" and "\<not> error s1" and "sized s1" and "sized s2"
    and "unread s1 = concat (map (wkb_points e1 f) rs) @ r1"
    and "unread s2 = concat (map (wkb_points e2 f) rs) @ r2"
    and "swap_bytes s1 = swap_for ext e1" and "swap_bytes s2 = swap_for ext e2"
    and "has_z s1 = with_z f" and "has_m s1 = with_m f"
    and "\<forall>ts\<in>set rs. length ts \<le> 134217727"
  shows "sim_result r1 r2
           (lwpoly_rings_from_wkb_state ext (length rs) (LWPOLY sr hz hm rings0) s1)
           (lwpoly_rings_from_wkb_state ext (length rs) (LWPOLY sr hz hm rings0) s2)"
  using assms
proof (induction rs arbitrary: s1 s2 rings0)
  case Nil
  then show ?case by (simp add: sim_result_def)
next
  case (Cons ts rs)
  note f = sim_fields[OF Cons.prems(1)]
  from Cons.prems(2) f have ne2: "\<not> error s2" by simp
  from Cons.prems(9,10) f have hz2: "has_z s2 = with_z f" "has_m s2 = with_m f" by simp_all
  from Cons.prems(11) have len: "length ts \<le> 134217727"
    and lens: "\<forall>ts\<in>set rs. length ts \<le> 134217727" by simp_all
  define N where "N = length (wkb_points e1 f ts)"
  note l = length_wkb_points[of e1 f ts e2]
  note st1 = lwpoly_ring_step[OF Cons.prems(2,3,5,7,9,10) len, folded N_def]
  note st2 = lwpoly_ring_step[OF ne2 Cons.prems(4,6,8) hz2 len, unfolded l[symmetric],
      folded N_def]
  note p = sim_pos[OF Cons.prems(1,2,3,4), of N]
  note n = sim_null_advance[OF Cons.prems(1,2,3,4), where n = N]
  have sw: "swap_bytes (s1\<lparr>pos := pos s1 + N\<rparr>) = swap_for ext e1"
    "swap_bytes (s2\<lparr>pos := pos s2 + N\<rparr>) = swap_for ext e2"
    "has_z (s1\<lparr>pos := pos s1 + N\<rparr>) = with_z f"
    "has_m (s1\<lparr>pos := pos s1 + N\<rparr>) = with_m f"
    using Cons.prems(7,8,9,10) by simp_all
  note ih = Cons.IH[OF p st1(2) st2(2) sw lens]
  show ?case
    using f(2)
    by (simp add: st1(1) st2(1) n ih del: lwpoly_rings_from_wkb_state.simps)
qed

lemma of_nat_length_0:
  assumes "length (xs :: 'a list) < 2 ^ 32"
  shows "unat (of_nat (length xs) :: uint32) = length xs"
    and "((of_nat (length xs) :: uint32) = 0) = (xs = [])"
    and "((of_nat (length xs) :: uint32) = 1) = (length xs = 1)"
proof -
  show u: "unat (of_nat (length xs) :: uint32) = length xs"
    using assms by (rule unat_of_nat_length)
  show "((of_nat (length xs) :: uint32) = 0) = (xs = [])"
    using u by (metis length_0_conv unat_eq_zero)
  show "((of_nat (length xs) :: uint32) = 1) = (length xs = 1)"
    using u by (metis unat_1 word_unat_eq_iff)
qed

lemma sim_poly:
  assumes s: "sim s1 s2" and ne: "\<not> error s1" and sz: "sized s1" "sized s2"
    and un: "unread s1 = wkb_uint32 e1 (of_nat (length rs)) @ (concat (map (wkb_points e1 f) rs) @ r1)"
      "unread s2 = wkb_uint32 e2 (of_nat (length rs)) @ (concat (map (wkb_points e2 f) rs) @ r2)"
    and sw: "swap_bytes s1 = swap_for ext e1" "swap_bytes s2 = swap_for ext e2"
    and hz: "has_z s1 = with_z f" "has_m s1 = with_m f"
    and len: "length rs < 2 ^ 32" and lens: "\<forall>ts\<in>set rs. length ts \<le> 134217727"
  shows "sim_result r1 r2 (lwpoly_from_wkb_state ext s1) (lwpoly_from_wkb_state ext s2)"
proof -
  note f = sim_fields[OF s]
  from ne f have ne2: "\<not> error s2" by simp
  from hz f have hz2: "has_z s2 = with_z f" "has_m s2 = with_m f" by simp_all
  let ?t1 = "s1\<lparr>pos := pos s1 + 4\<rparr>" and ?t2 = "s2\<lparr>pos := pos s2 + 4\<rparr>"
  have i1: "integer_from_wkb_state ext s1 = (of_nat (length rs), ?t1)"
    using ne sz(1) un(1) sw(1) by (rule integer_from_wkb_state_at)
  have i2: "integer_from_wkb_state ext s2 = (of_nat (length rs), ?t2)"
    using ne2 sz(2) un(2) sw(2) by (rule integer_from_wkb_state_at)
  note p = sim_pos[OF s ne sz, of 4]
  have u1: "unread ?t1 = concat (map (wkb_points e1 f) rs) @ r1"
    using unread_after[OF un(1), of ?t1] by simp
  have u2: "unread ?t2 = concat (map (wkb_points e2 f) rs) @ r2"
    using unread_after[OF un(2), of ?t2] by simp
  have sw': "swap_bytes ?t1 = swap_for ext e1" "swap_bytes ?t2 = swap_for ext e2"
    "has_z ?t1 = with_z f" "has_m ?t1 = with_m f"
    using sw hz by simp_all
  note r = sim_poly_rings[OF p u1 u2 sw' lens]
  note z = of_nat_length_0[OF len]
  show ?thesis
  proof (cases "rs = []")
    case True
    have "sim_result r1 r2 (v, ?t1) (v, ?t2)" for v :: "lwgeom option"
      using p u1 u2 True by (simp add: sim_result_def del: unread_pos)
    then show ?thesis
      using True ne ne2 f(1,4,5)
      by (simp add: lwpoly_from_wkb_state_def i1 i2 Let_def)
  next
    case False
    then show ?thesis
      using ne ne2 f(1,4,5) r[of "srid s2" "has_z s2" "has_m s2" "[]"]
      by (simp add: lwpoly_from_wkb_state_def i1 i2 Let_def z lwpoly_construct_empty_def
          del: lwpoly_rings_from_wkb_state.simps)
  qed
qed

lemma sim_triangle:
  assumes s: "sim s1 s2" and ne: "\<not> error s1" and sz: "sized s1" "sized s2"
    and un: "unread s1 = wkb_uint32 e1 (of_nat (length rs)) @ (concat (map (wkb_points e1 f) rs) @ r1)"
      "unread s2 = wkb_uint32 e2 (of_nat (length rs)) @ (concat (map (wkb_points e2 f) rs) @ r2)"
    and sw: "swap_bytes s1 = swap_for ext e1" "swap_bytes s2 = swap_for ext e2"
    and hz: "has_z s1 = with_z f" "has_m s1 = with_m f"
    and len: "length rs < 2 ^ 32" and lens: "\<forall>ts\<in>set rs. length ts \<le> 134217727"
  shows "sim_result r1 r2 (lwtriangle_from_wkb_state ext s1) (lwtriangle_from_wkb_state ext s2)"
proof -
  note f = sim_fields[OF s]
  from ne f have ne2: "\<not> error s2" by simp
  from hz f have hz2: "has_z s2 = with_z f" "has_m s2 = with_m f" by simp_all
  let ?t1 = "s1\<lparr>pos := pos s1 + 4\<rparr>" and ?t2 = "s2\<lparr>pos := pos s2 + 4\<rparr>"
  have i1: "integer_from_wkb_state ext s1 = (of_nat (length rs), ?t1)"
    using ne sz(1) un(1) sw(1) by (rule integer_from_wkb_state_at)
  have i2: "integer_from_wkb_state ext s2 = (of_nat (length rs), ?t2)"
    using ne2 sz(2) un(2) sw(2) by (rule integer_from_wkb_state_at)
  note p = sim_pos[OF s ne sz, of 4]
  have u1: "unread ?t1 = concat (map (wkb_points e1 f) rs) @ r1"
    using unread_after[OF un(1), of ?t1] by simp
  have u2: "unread ?t2 = concat (map (wkb_points e2 f) rs) @ r2"
    using unread_after[OF un(2), of ?t2] by simp
  note z = of_nat_length_0[OF len]
  consider "rs = []" | "rs \<noteq> []" "length rs \<noteq> 1" | ts where "rs = [ts]"
    by (cases rs; cases "tl rs") auto
  then show ?thesis
  proof cases
    case 1
    have "sim_result r1 r2 (v, ?t1) (v, ?t2)" for v :: "lwgeom option"
      using p u1 u2 1 by (simp add: sim_result_def del: unread_pos)
    then show ?thesis
      using 1 ne ne2 f(1,4,5)
      by (simp add: lwtriangle_from_wkb_state_def i1 i2 Let_def)
  next
    case 2
    note n = sim_null_advance(2)[OF s ne sz, where n = 4]
    from 2 show ?thesis
      using ne ne2
      by (simp add: lwtriangle_from_wkb_state_def i1 i2 Let_def z n)
  next
    case 3
    from lens 3 have l: "length ts \<le> 134217727" by simp
    then have l32: "length ts < 2 ^ 32" by simp
    define N where "N = length (wkb_points e1 f ts)"
    note ll = length_wkb_points[of e1 f ts e2]
    have v1: "unread ?t1 = wkb_points e1 f ts @ r1" using u1 3 by simp
    have v2: "unread ?t2 = wkb_points e2 f ts @ r2" using u2 3 by simp
    have pa1: "ptarray_from_wkb_state ext ?t1 = (Some (pa_of_tuples f ts), ?t1\<lparr>pos := pos ?t1 + N\<rparr>)"
      using ptarray_from_wkb_state_at[OF p(2,3) v1 _ _ _ l32, of ext] sw hz
        of_nat_le_maxpoints(1)[OF l]
      by (simp add: pa_of_tuples_def N_def)
    have pa2: "ptarray_from_wkb_state ext ?t2 = (Some (pa_of_tuples f ts), ?t2\<lparr>pos := pos ?t2 + N\<rparr>)"
      using ptarray_from_wkb_state_at[OF _ p(4) v2 _ _ _ l32, of ext] sw hz2 ne2
        of_nat_le_maxpoints(1)[OF l] ll
      by (simp add: pa_of_tuples_def N_def)
    have np: "npoints (pa_of_tuples f ts) < 4 \<longleftrightarrow> length ts < 4"
      using of_nat_less(3)[OF l] by (simp add: ptarray_construct_def pa_of_tuples_def)
    note a = sim_advance[OF p v1 v2 ll, unfolded ll[symmetric], folded N_def, simplified]
    note n = sim_null_advance(2)[OF p, where n = N, simplified]
    show ?thesis
      using ne ne2 f(1,2) 3
      by (simp add: lwtriangle_from_wkb_state_def i1 i2 Let_def pa1 pa2 np a n)
  qed
qed

lemma sim_runE:
  assumes "sim_run r1 r2 x y"
  obtains "x = None" "y = None"
  | v t1 t2 where "x = Some (v, t1)" "y = Some (v, t2)" "sim t1 t2" "\<not> error t1"
      "sized t1" "sized t2" "v \<noteq> None \<Longrightarrow> unread t1 = r1 \<and> unread t2 = r2"
proof (cases x)
  case None
  with assms have "y = None" by (cases y) simp_all
  with None that(1) show ?thesis by simp
next
  case (Some a)
  with assms obtain b where y: "y = Some b" by (cases y) simp_all
  obtain v t1 where a: "a = (v, t1)" by (cases a)
  obtain w t2 where b: "b = (w, t2)" by (cases b)
  from assms Some y a b have "v = w" "sim t1 t2" "\<not> error t1" "sized t1" "sized t2"
    "v \<noteq> None \<Longrightarrow> unread t1 = r1 \<and> unread t2 = r2"
    by (simp_all add: sim_result_def split: if_splits)
  with Some y a b that(2) show ?thesis by simp
qed

lemma sim_lwerror_null:
  assumes "sim t1 t2" and "\<not> error t1" and "sized t1" and "sized t2"
  shows "sim_result r1 r2 (None, lwerror m t1) (None, lwerror m t2)"
  using assms by (simp add: sim_result_def sim_def sized_def lwerror_def)

lemma sim_collection_geoms:
  assumes ih: "\<And>g. g \<in> set gs \<Longrightarrow> sim_child child e1 e2 c g"
    and "sim s1 s2" and "\<not> error s1" and "sized s1" and "sized s2"
    and "unread s1 = concat (map (wkb_encode e1) gs) @ r1"
    and "unread s2 = concat (map (wkb_encode e2) gs) @ r2"
  shows "sim_run r1 r2 (lwcollection_geoms_from_wkb_state ext child (length gs) col s1)
           (lwcollection_geoms_from_wkb_state ext child (length gs) col s2)
       \<and> ((\<forall>g\<in>set gs. nesting g \<le> c)
            \<longrightarrow> lwcollection_geoms_from_wkb_state ext child (length gs) col s1 \<noteq> None)"
  using assms
proof (induction gs arbitrary: s1 s2 col)
  case Nil
  then show ?case by (simp add: sim_result_def)
next
  case (Cons g gs)
  have u1: "unread s1 = wkb_encode e1 g @ (concat (map (wkb_encode e1) gs) @ r1)"
    and u2: "unread s2 = wkb_encode e2 g @ (concat (map (wkb_encode e2) gs) @ r2)"
    using Cons.prems(6,7) by simp_all
  have "sim_child child e1 e2 c g" by (rule Cons.prems(1)) simp
  with Cons.prems(2,3,4,5) u1 u2
  have ch: "sim_run (concat (map (wkb_encode e1) gs) @ r1) (concat (map (wkb_encode e2) gs) @ r2)
              (child s1) (child s2)"
    and tot: "nesting g \<le> c \<Longrightarrow> child s1 \<noteq> None"
    unfolding sim_child_def by blast+
  have ih': "\<And>g. g \<in> set gs \<Longrightarrow> sim_child child e1 e2 c g"
    by (rule Cons.prems(1)) simp
  from ch show ?case
  proof (cases rule: sim_runE)
    case 1
    with tot show ?thesis by auto
  next
    case (2 v t1 t2)
    show ?thesis
    proof (cases "lwcollection_add_lwgeom ext col v")
      case None
      with 2 show ?thesis by (simp add: sim_lwerror_null)
    next
      case (Some col')
      then have "v \<noteq> None" by (cases col; cases v) auto
      with 2(7) have "unread t1 = concat (map (wkb_encode e1) gs) @ r1"
        "unread t2 = concat (map (wkb_encode e2) gs) @ r2" by simp_all
      from Cons.IH[OF ih' 2(3,4,5,6) this, of col'] Some 2(1,2) show ?thesis by simp
    qed
  qed
qed

lemma sim_curvepoly_rings:
  assumes ih: "\<And>g. g \<in> set gs \<Longrightarrow> sim_child child e1 e2 c g"
    and "sim s1 s2" and "\<not> error s1" and "sized s1" and "sized s2"
    and "unread s1 = concat (map (wkb_encode e1) gs) @ r1"
    and "unread s2 = concat (map (wkb_encode e2) gs) @ r2"
  shows "sim_run r1 r2 (lwcurvepoly_rings_from_wkb_state child (length gs) cp s1)
           (lwcurvepoly_rings_from_wkb_state child (length gs) cp s2)
       \<and> ((\<forall>g\<in>set gs. nesting g \<le> c)
            \<longrightarrow> lwcurvepoly_rings_from_wkb_state child (length gs) cp s1 \<noteq> None)"
  using assms
proof (induction gs arbitrary: s1 s2 cp)
  case Nil
  then show ?case by (simp add: sim_result_def)
next
  case (Cons g gs)
  have u1: "unread s1 = wkb_encode e1 g @ (concat (map (wkb_encode e1) gs) @ r1)"
    and u2: "unread s2 = wkb_encode e2 g @ (concat (map (wkb_encode e2) gs) @ r2)"
    using Cons.prems(6,7) by simp_all
  have "sim_child child e1 e2 c g" by (rule Cons.prems(1)) simp
  with Cons.prems(2,3,4,5) u1 u2
  have ch: "sim_run (concat (map (wkb_encode e1) gs) @ r1) (concat (map (wkb_encode e2) gs) @ r2)
              (child s1) (child s2)"
    and tot: "nesting g \<le> c \<Longrightarrow> child s1 \<noteq> None"
    unfolding sim_child_def by blast+
  have ih': "\<And>g. g \<in> set gs \<Longrightarrow> sim_child child e1 e2 c g"
    by (rule Cons.prems(1)) simp
  from ch show ?case
  proof (cases rule: sim_runE)
    case 1
    with tot show ?thesis by auto
  next
    case (2 v t1 t2)
    show ?thesis
    proof (cases "lwcurvepoly_add_ring cp v")
      case None
      with 2 show ?thesis by (simp add: sim_lwerror_null)
    next
      case (Some cp')
      then have "v \<noteq> None" by (cases cp; cases v) auto
      with 2(7) have "unread t1 = concat (map (wkb_encode e1) gs) @ r1"
        "unread t2 = concat (map (wkb_encode e2) gs) @ r2" by simp_all
      from Cons.IH[OF ih' 2(3,4,5,6) this, of cp'] Some 2(1,2) show ?thesis by simp
    qed
  qed
qed

lemma sim_collection:
  assumes ih: "\<And>g. g \<in> set gs \<Longrightarrow> sim_child child e1 e2 c g"
    and s: "sim s1 s2" and ne: "\<not> error s1" and sz: "sized s1" "sized s2"
    and un: "unread s1 = wkb_uint32 e1 (of_nat (length gs)) @ (concat (map (wkb_encode e1) gs) @ r1)"
      "unread s2 = wkb_uint32 e2 (of_nat (length gs)) @ (concat (map (wkb_encode e2) gs) @ r2)"
    and sw: "swap_bytes s1 = swap_for ext e1" "swap_bytes s2 = swap_for ext e2"
    and len: "length gs < 2 ^ 32"
  shows "sim_run r1 r2 (lwcollection_from_wkb_state ext child s1)
           (lwcollection_from_wkb_state ext child s2)
       \<and> ((\<forall>g\<in>set gs. nesting g \<le> c) \<longrightarrow> lwcollection_from_wkb_state ext child s1 \<noteq> None)"
proof -
  note f = sim_fields[OF s]
  from ne f have ne2: "\<not> error s2" by simp
  let ?t1 = "s1\<lparr>pos := pos s1 + 4\<rparr>" and ?t2 = "s2\<lparr>pos := pos s2 + 4\<rparr>"
  have i1: "integer_from_wkb_state ext s1 = (of_nat (length gs), ?t1)"
    using ne sz(1) un(1) sw(1) by (rule integer_from_wkb_state_at)
  have i2: "integer_from_wkb_state ext s2 = (of_nat (length gs), ?t2)"
    using ne2 sz(2) un(2) sw(2) by (rule integer_from_wkb_state_at)
  note p = sim_pos[OF s ne sz, of 4]
  have u1: "unread ?t1 = concat (map (wkb_encode e1) gs) @ r1"
    using unread_after[OF un(1), of ?t1] by simp
  have u2: "unread ?t2 = concat (map (wkb_encode e2) gs) @ r2"
    using unread_after[OF un(2), of ?t2] by simp
  note z = of_nat_length_0[OF len]
  define col where "col = lwcollection_construct_empty (lwtype s2) (srid s2) (has_z s2) (has_m s2)"
  show ?thesis
  proof (cases "gs = []")
    case True
    have "sim_result r1 r2 (v, ?t1) (v, ?t2)" for v :: "lwgeom option"
      using p u1 u2 True by (simp add: sim_result_def del: unread_pos)
    then show ?thesis
      using True ne ne2 f(1,3,4,5)
      by (simp add: lwcollection_from_wkb_state_def i1 i2 Let_def)
  next
    case False
    define w1 where "w1 = (if lwtype ?t1 = POLYHEDRALSURFACETYPE
        then ?t1\<lparr>check := insert LW_PARSER_CHECK_ZCLOSURE (check ?t1)\<rparr> else ?t1)
          \<lparr>depth := depth s1 + 1\<rparr>"
    define w2 where "w2 = (if lwtype ?t2 = POLYHEDRALSURFACETYPE
        then ?t2\<lparr>check := insert LW_PARSER_CHECK_ZCLOSURE (check ?t2)\<rparr> else ?t2)
          \<lparr>depth := depth s2 + 1\<rparr>"
    have w: "sim w1 w2" "\<not> error w1" "sized w1" "sized w2" "depth w1 = depth s2 + 1"
      "depth w2 = depth s2 + 1"
      using s ne sz by (simp_all add: w1_def w2_def sim_def sized_def)
    have v1: "unread w1 = concat (map (wkb_encode e1) gs) @ r1"
      using u1 by (simp add: w1_def unread_def)
    have v2: "unread w2 = concat (map (wkb_encode e2) gs) @ r2"
      using u2 by (simp add: w2_def unread_def)
    have c1: "lwcollection_from_wkb_state ext child s1 =
       (if LW_PARSER_MAX_DEPTH \<le> depth s2 + 1
        then Some (None, lwerror ''Geometry has too many chained collections'' w1)
        else case lwcollection_geoms_from_wkb_state ext child (length gs) col w1 of
            None \<Rightarrow> None
          | Some (None, s) \<Rightarrow> Some (None, s)
          | Some (Some col, s) \<Rightarrow> Some (Some col, s\<lparr>depth := depth s - 1\<rparr>))"
      using False ne f(1,3,4,5,7)
      by (simp add: lwcollection_from_wkb_state_def i1 Let_def z w1_def col_def
          del: lwcollection_geoms_from_wkb_state.simps cong: option.case_cong)
    have c2: "lwcollection_from_wkb_state ext child s2 =
       (if LW_PARSER_MAX_DEPTH \<le> depth s2 + 1
        then Some (None, lwerror ''Geometry has too many chained collections'' w2)
        else case lwcollection_geoms_from_wkb_state ext child (length gs) col w2 of
            None \<Rightarrow> None
          | Some (None, s) \<Rightarrow> Some (None, s)
          | Some (Some col, s) \<Rightarrow> Some (Some col, s\<lparr>depth := depth s - 1\<rparr>))"
      using False ne2
      by (simp add: lwcollection_from_wkb_state_def i2 Let_def z w2_def col_def
          del: lwcollection_geoms_from_wkb_state.simps cong: option.case_cong)
    show ?thesis
    proof (cases "LW_PARSER_MAX_DEPTH \<le> depth s2 + 1")
      case True
      then show ?thesis
        unfolding c1 c2 using sim_lwerror_null[OF w(1,2,3,4)] by simp
    next
      case deep: False
      note lp = sim_collection_geoms[OF ih w(1,2,3,4) v1 v2, where ext = ext and col = col]
      from lp have run: "sim_run r1 r2
          (lwcollection_geoms_from_wkb_state ext child (length gs) col w1)
          (lwcollection_geoms_from_wkb_state ext child (length gs) col w2)"
        and tot: "(\<forall>g\<in>set gs. nesting g \<le> c)
            \<Longrightarrow> lwcollection_geoms_from_wkb_state ext child (length gs) col w1 \<noteq> None"
        by blast+
      from run show ?thesis
      proof (cases rule: sim_runE)
        case 1
        with tot deep show ?thesis unfolding c1 c2 by auto
      next
        case (2 v t1 t2)
        show ?thesis
        proof (cases v)
          case None
          with 2 deep show ?thesis
            unfolding c1 c2 by (simp add: sim_result_def)
        next
          case (Some a)
          with 2(7) have "unread t1 = r1" "unread t2 = r2" by simp_all
          with 2 deep Some show ?thesis
            unfolding c1 c2 by (simp add: sim_result_def sim_def sized_def unread_def)
        qed
      qed
    qed
  qed
qed

lemma sim_curvepoly:
  assumes ih: "\<And>g. g \<in> set gs \<Longrightarrow> sim_child child e1 e2 c g"
    and s: "sim s1 s2" and ne: "\<not> error s1" and sz: "sized s1" "sized s2"
    and un: "unread s1 = wkb_uint32 e1 (of_nat (length gs)) @ (concat (map (wkb_encode e1) gs) @ r1)"
      "unread s2 = wkb_uint32 e2 (of_nat (length gs)) @ (concat (map (wkb_encode e2) gs) @ r2)"
    and sw: "swap_bytes s1 = swap_for ext e1" "swap_bytes s2 = swap_for ext e2"
    and len: "length gs < 2 ^ 32"
  shows "sim_run r1 r2 (lwcurvepoly_from_wkb_state ext child s1)
           (lwcurvepoly_from_wkb_state ext child s2)
       \<and> ((\<forall>g\<in>set gs. nesting g \<le> c) \<longrightarrow> lwcurvepoly_from_wkb_state ext child s1 \<noteq> None)"
proof -
  note f = sim_fields[OF s]
  from ne f have ne2: "\<not> error s2" by simp
  let ?t1 = "s1\<lparr>pos := pos s1 + 4\<rparr>" and ?t2 = "s2\<lparr>pos := pos s2 + 4\<rparr>"
  have i1: "integer_from_wkb_state ext s1 = (of_nat (length gs), ?t1)"
    using ne sz(1) un(1) sw(1) by (rule integer_from_wkb_state_at)
  have i2: "integer_from_wkb_state ext s2 = (of_nat (length gs), ?t2)"
    using ne2 sz(2) un(2) sw(2) by (rule integer_from_wkb_state_at)
  note p = sim_pos[OF s ne sz, of 4]
  have u1: "unread ?t1 = concat (map (wkb_encode e1) gs) @ r1"
    using unread_after[OF un(1), of ?t1] by simp
  have u2: "unread ?t2 = concat (map (wkb_encode e2) gs) @ r2"
    using unread_after[OF un(2), of ?t2] by simp
  note z = of_nat_length_0[OF len]
  show ?thesis
  proof (cases "gs = []")
    case True
    have "sim_result r1 r2 (v, ?t1) (v, ?t2)" for v :: "lwgeom option"
      using p u1 u2 True by (simp add: sim_result_def del: unread_pos)
    then show ?thesis
      using True ne ne2 f(1,3,4,5)
      by (simp add: lwcurvepoly_from_wkb_state_def i1 i2 Let_def)
  next
    case False
    note lp = sim_curvepoly_rings[OF ih p u1 u2,
        where cp = "lwcurvepoly_construct_empty (srid s2) (has_z s2) (has_m s2)"]
    with False show ?thesis
      using ne ne2 f(1,4,5)
      by (simp add: lwcurvepoly_from_wkb_state_def i1 i2 Let_def z
          del: lwcurvepoly_rings_from_wkb_state.simps)
  qed
qed

lemma sim_header:
  assumes s: "sim s1 s2" and ne: "\<not> error s1" and sz: "sized s1" "sized s2"
    and un: "unread s1 = wkb_header e1 n f @ r1" "unread s2 = wkb_header e2 n f @ r2"
  shows "sim (after_header ext e1 n f k s1) (after_header ext e2 n f k s2)"
    and "\<not> error (after_header ext e1 n f k s1)"
    and "sized (after_header ext e1 n f k s1)" and "sized (after_header ext e2 n f k s2)"
    and "unread (after_header ext e1 n f k s1) = r1"
    and "unread (after_header ext e2 n f k s2) = r2"
    and "swap_bytes (after_header ext e1 n f k s1) = swap_for ext e1"
    and "swap_bytes (after_header ext e2 n f k s2) = swap_for ext e2"
    and "has_z (after_header ext e1 n f k s1) = with_z f"
    and "has_m (after_header ext e1 n f k s1) = with_m f"
proof -
  show "sim (after_header ext e1 n f k s1) (after_header ext e2 n f k s2)"
    using s by (rule sim_after_header)
  show "unread (after_header ext e1 n f k s1) = r1"
    using unread_after[OF un(1), of "after_header ext e1 n f k s1"] by simp
  show "unread (after_header ext e2 n f k s2) = r2"
    using unread_after[OF un(2), of "after_header ext e2 n f k s2"] by simp
qed (use ne sz in simp_all)

lemma nesting_children:
  assumes "nesting (Geoms k f gs) \<le> Suc c" and "g \<in> set gs"
  shows "nesting g \<le> c"
proof -
  have "g \<in> set gs \<Longrightarrow> nesting g \<le> foldr (\<lambda>g n. max (nesting g) n) gs 0"
    by (induction gs) auto
  with assms show ?thesis by simp
qed

lemma sim_leaf:
  assumes "x = Some a" and "y = Some b" and "sim_result r1 r2 a b"
  shows "sim_run r1 r2 x y \<and> (P \<longrightarrow> x \<noteq> None)"
  using assms by simp

lemma sim_lwgeom:
  assumes "wkb_sized g"
  shows "sim_child (lwgeom_from_wkb_state ext calls) e1 e2 calls g"
  using assms
proof (induction g arbitrary: calls)
  case (Point f t)
  show ?case
    unfolding sim_child_def
  proof (intro allI impI, elim conjE)
    fix s1 s2 r1 r2
    assume s: "sim s1 s2" and ne: "\<not> error s1" and sz: "sized s1" "sized s2"
      and u1: "unread s1 = wkb_encode e1 (Point f t) @ r1"
      and u2: "unread s2 = wkb_encode e2 (Point f t) @ r2"
    from ne s have ne2: "\<not> error s2" by (simp add: sim_def)
    have un: "unread s1 = wkb_header e1 1 f @ (wkb_tuple e1 f t @ r1)"
      "unread s2 = wkb_header e2 1 f @ (wkb_tuple e2 f t @ r2)"
      using u1 u2 by simp_all
    show "sim_run r1 r2 (lwgeom_from_wkb_state ext calls s1) (lwgeom_from_wkb_state ext calls s2)
        \<and> (nesting (Point f t) \<le> calls \<longrightarrow> lwgeom_from_wkb_state ext calls s1 \<noteq> None)"
    proof (cases calls)
      case 0
      then show ?thesis by simp
    next
      case (Suc c)
      note hd = sim_header[OF s ne sz un, where ext = ext and k = POINTTYPE]
      have h1: "lwgeom_from_wkb_state ext (Suc c) s1
          = Some (lwpoint_from_wkb_state ext (after_header ext e1 1 f POINTTYPE s1))"
        using lwgeom_from_wkb_state_header[OF ne sz(1) un(1) table_point] by simp
      have h2: "lwgeom_from_wkb_state ext (Suc c) s2
          = Some (lwpoint_from_wkb_state ext (after_header ext e2 1 f POINTTYPE s2))"
        using lwgeom_from_wkb_state_header[OF ne2 sz(2) un(2) table_point] by simp
      show ?thesis
        unfolding Suc by (rule sim_leaf[OF h1 h2 sim_point[OF hd]])
    qed
  qed
next
  case (Points k f ts)
  then have len: "length ts \<le> 134217727" by simp
  show ?case
    unfolding sim_child_def
  proof (intro allI impI, elim conjE)
    fix s1 s2 r1 r2
    assume s: "sim s1 s2" and ne: "\<not> error s1" and sz: "sized s1" "sized s2"
      and u1: "unread s1 = wkb_encode e1 (Points k f ts) @ r1"
      and u2: "unread s2 = wkb_encode e2 (Points k f ts) @ r2"
    from ne s have ne2: "\<not> error s2" by (simp add: sim_def)
    have un: "unread s1 = wkb_header e1 (points_number k) f @ (wkb_points e1 f ts @ r1)"
      "unread s2 = wkb_header e2 (points_number k) f @ (wkb_points e2 f ts @ r2)"
      using u1 u2 by simp_all
    show "sim_run r1 r2 (lwgeom_from_wkb_state ext calls s1) (lwgeom_from_wkb_state ext calls s2)
        \<and> (nesting (Points k f ts) \<le> calls \<longrightarrow> lwgeom_from_wkb_state ext calls s1 \<noteq> None)"
    proof (cases calls)
      case 0
      then show ?thesis by simp
    next
      case (Suc c)
      note hd = sim_header[OF s ne sz un, where ext = ext and k = "points_lwtype k"]
      note g1 = lwgeom_from_wkb_state_header[OF ne sz(1) un(1) table_points, of ext c]
      note g2 = lwgeom_from_wkb_state_header[OF ne2 sz(2) un(2) table_points, of ext c]
      show ?thesis
      proof (cases k)
        case LineString
        have h1: "lwgeom_from_wkb_state ext (Suc c) s1
          = Some (lwline_from_wkb_state ext (after_header ext e1 (points_number k) f (points_lwtype k) s1))"
          using g1 LineString by simp
        have h2: "lwgeom_from_wkb_state ext (Suc c) s2
          = Some (lwline_from_wkb_state ext (after_header ext e2 (points_number k) f (points_lwtype k) s2))"
          using g2 LineString by simp
        show ?thesis
          unfolding Suc by (rule sim_leaf[OF h1 h2 sim_line[OF hd len]])
      next
        case CircularString
        have h1: "lwgeom_from_wkb_state ext (Suc c) s1
          = Some (lwcircstring_from_wkb_state ext (after_header ext e1 (points_number k) f (points_lwtype k) s1))"
          using g1 CircularString by simp
        have h2: "lwgeom_from_wkb_state ext (Suc c) s2
          = Some (lwcircstring_from_wkb_state ext (after_header ext e2 (points_number k) f (points_lwtype k) s2))"
          using g2 CircularString by simp
        show ?thesis
          unfolding Suc by (rule sim_leaf[OF h1 h2 sim_circstring[OF hd len]])
      qed
    qed
  qed
next
  case (Rings k f rs)
  then have len: "length rs < 2 ^ 32" and lens: "\<forall>ts\<in>set rs. length ts \<le> 134217727"
    by (simp_all add: list_all_iff)
  show ?case
    unfolding sim_child_def
  proof (intro allI impI, elim conjE)
    fix s1 s2 r1 r2
    assume s: "sim s1 s2" and ne: "\<not> error s1" and sz: "sized s1" "sized s2"
      and u1: "unread s1 = wkb_encode e1 (Rings k f rs) @ r1"
      and u2: "unread s2 = wkb_encode e2 (Rings k f rs) @ r2"
    from ne s have ne2: "\<not> error s2" by (simp add: sim_def)
    have un: "unread s1 = wkb_header e1 (rings_number k) f
        @ (wkb_uint32 e1 (of_nat (length rs)) @ (concat (map (wkb_points e1 f) rs) @ r1))"
      "unread s2 = wkb_header e2 (rings_number k) f
        @ (wkb_uint32 e2 (of_nat (length rs)) @ (concat (map (wkb_points e2 f) rs) @ r2))"
      using u1 u2 by simp_all
    show "sim_run r1 r2 (lwgeom_from_wkb_state ext calls s1) (lwgeom_from_wkb_state ext calls s2)
        \<and> (nesting (Rings k f rs) \<le> calls \<longrightarrow> lwgeom_from_wkb_state ext calls s1 \<noteq> None)"
    proof (cases calls)
      case 0
      then show ?thesis by simp
    next
      case (Suc c)
      note hd = sim_header[OF s ne sz un, where ext = ext and k = "rings_lwtype k"]
      note g1 = lwgeom_from_wkb_state_header[OF ne sz(1) un(1) table_rings, of ext c]
      note g2 = lwgeom_from_wkb_state_header[OF ne2 sz(2) un(2) table_rings, of ext c]
      show ?thesis
      proof (cases k)
        case Polygon
        have h1: "lwgeom_from_wkb_state ext (Suc c) s1
          = Some (lwpoly_from_wkb_state ext (after_header ext e1 (rings_number k) f (rings_lwtype k) s1))"
          using g1 Polygon by simp
        have h2: "lwgeom_from_wkb_state ext (Suc c) s2
          = Some (lwpoly_from_wkb_state ext (after_header ext e2 (rings_number k) f (rings_lwtype k) s2))"
          using g2 Polygon by simp
        show ?thesis
          unfolding Suc by (rule sim_leaf[OF h1 h2 sim_poly[OF hd len lens]])
      next
        case Triangle
        have h1: "lwgeom_from_wkb_state ext (Suc c) s1
          = Some (lwtriangle_from_wkb_state ext (after_header ext e1 (rings_number k) f (rings_lwtype k) s1))"
          using g1 Triangle by simp
        have h2: "lwgeom_from_wkb_state ext (Suc c) s2
          = Some (lwtriangle_from_wkb_state ext (after_header ext e2 (rings_number k) f (rings_lwtype k) s2))"
          using g2 Triangle by simp
        show ?thesis
          unfolding Suc by (rule sim_leaf[OF h1 h2 sim_triangle[OF hd len lens]])
      qed
    qed
  qed
next
  case (Geoms k f gs)
  from Geoms.prems have len: "length gs < 2 ^ 32" and all: "\<forall>g\<in>set gs. wkb_sized g"
    by (simp_all add: list_all_iff)
  show ?case
    unfolding sim_child_def
  proof (intro allI impI, elim conjE)
    fix s1 s2 r1 r2
    assume s: "sim s1 s2" and ne: "\<not> error s1" and sz: "sized s1" "sized s2"
      and u1: "unread s1 = wkb_encode e1 (Geoms k f gs) @ r1"
      and u2: "unread s2 = wkb_encode e2 (Geoms k f gs) @ r2"
    from ne s have ne2: "\<not> error s2" by (simp add: sim_def)
    have un: "unread s1 = wkb_header e1 (geoms_number k) f
        @ (wkb_uint32 e1 (of_nat (length gs)) @ (concat (map (wkb_encode e1) gs) @ r1))"
      "unread s2 = wkb_header e2 (geoms_number k) f
        @ (wkb_uint32 e2 (of_nat (length gs)) @ (concat (map (wkb_encode e2) gs) @ r2))"
      using u1 u2 by simp_all
    show "sim_run r1 r2 (lwgeom_from_wkb_state ext calls s1) (lwgeom_from_wkb_state ext calls s2)
        \<and> (nesting (Geoms k f gs) \<le> calls \<longrightarrow> lwgeom_from_wkb_state ext calls s1 \<noteq> None)"
    proof (cases calls)
      case 0
      then show ?thesis by simp
    next
      case (Suc c)
      have ih: "\<And>g. g \<in> set gs \<Longrightarrow> sim_child (lwgeom_from_wkb_state ext c) e1 e2 c g"
        using Geoms.IH all by blast
      note hd = sim_header[OF s ne sz un, where ext = ext and k = "geoms_lwtype k"]
      note g1 = lwgeom_from_wkb_state_header[OF ne sz(1) un(1) table_geoms, of ext c]
      note g2 = lwgeom_from_wkb_state_header[OF ne2 sz(2) un(2) table_geoms, of ext c]
      have nest: "nesting (Geoms k f gs) \<le> Suc c \<Longrightarrow> \<forall>g\<in>set gs. nesting g \<le> c"
        using nesting_children[of k f gs c] by blast
      show ?thesis
      proof (cases "geoms_lwtype k = CURVEPOLYTYPE")
        case True
        have h1: "lwgeom_from_wkb_state ext (Suc c) s1
          = lwcurvepoly_from_wkb_state ext (lwgeom_from_wkb_state ext c)
              (after_header ext e1 (geoms_number k) f (geoms_lwtype k) s1)"
          using g1 True by simp
        have h2: "lwgeom_from_wkb_state ext (Suc c) s2
          = lwcurvepoly_from_wkb_state ext (lwgeom_from_wkb_state ext c)
              (after_header ext e2 (geoms_number k) f (geoms_lwtype k) s2)"
          using g2 True by simp
        from sim_curvepoly[OF ih hd(1,2,3,4,5,6,7,8) len] nest
        show ?thesis unfolding Suc h1 h2 by blast
      next
        case False
        have h1: "lwgeom_from_wkb_state ext (Suc c) s1
          = lwcollection_from_wkb_state ext (lwgeom_from_wkb_state ext c)
              (after_header ext e1 (geoms_number k) f (geoms_lwtype k) s1)"
          using g1 False by (cases k) simp_all
        have h2: "lwgeom_from_wkb_state ext (Suc c) s2
          = lwcollection_from_wkb_state ext (lwgeom_from_wkb_state ext c)
              (after_header ext e2 (geoms_number k) f (geoms_lwtype k) s2)"
          using g2 False by (cases k) simp_all
        from sim_collection[OF ih hd(1,2,3,4,5,6,7,8) len] nest
        show ?thesis unfolding Suc h1 h2 by blast
      qed
    qed
  qed
qed

lemma length_wkb_encode: "length (wkb_encode e1 g) = length (wkb_encode e2 g)"
proof (induction g)
  case (Point f t)
  show ?case by (simp add: length_wkb_header)
next
  case (Points k f ts)
  show ?case by (simp add: length_wkb_header wkb_points_length)
next
  case (Rings k f rs)
  have "length (concat (map (wkb_points e1 f) rs)) = length (concat (map (wkb_points e2 f) rs))"
    by (induction rs) (simp_all add: wkb_points_length)
  then show ?case by (simp add: length_wkb_header)
next
  case (Geoms k f gs)
  then have "length (concat (map (wkb_encode e1) gs)) = length (concat (map (wkb_encode e2) gs))"
    by (induction gs) simp_all
  then show ?case by (simp add: length_wkb_header)
qed

lemma nesting_le_length: "nesting g \<le> length (wkb_encode e g)"
proof (induction g)
  case (Geoms k f gs)
  then have "foldr (\<lambda>g n. max (nesting g) n) gs 0 \<le> length (concat (map (wkb_encode e) gs))"
  proof (induction gs)
    case Nil
    show ?case by simp
  next
    case (Cons g gs)
    from Cons.prems have a: "nesting g \<le> length (wkb_encode e g)" by simp
    have "foldr (\<lambda>g n. max (nesting g) n) gs 0 \<le> length (concat (map (wkb_encode e) gs))"
      using Cons.prems by (intro Cons.IH) simp
    with a show ?case by simp
  qed
  then show ?case by (simp add: length_wkb_header)
qed (simp_all add: length_wkb_header)

lemma sim_init:
  "sim (wkb_parse_state_init ext buf1 n1 chk) (wkb_parse_state_init ext buf2 n2 chk)"
  by (simp add: sim_def wkb_parse_state_init_def)

lemma decoded_two_encodings:
  assumes "wkb_sized g"
  shows "\<exists>v t1 t2.
      lwgeom_from_wkb ext (wkb_encode e1 g) (length (wkb_encode e1 g)) chk = Some (v, t1)
    \<and> lwgeom_from_wkb ext (wkb_encode e2 g @ extra) (length (wkb_encode e2 g @ extra)) chk
        = Some (v, t2)
    \<and> sim t1 t2 \<and> \<not> error t1"
proof -
  let ?b1 = "wkb_encode e1 g" and ?b2 = "wkb_encode e2 g @ extra"
  let ?s1 = "wkb_parse_state_init ext ?b1 (length ?b1) chk"
  let ?s2 = "wkb_parse_state_init ext ?b2 (length ?b2) chk"
  let ?c = "Suc (length ?b1)"
  have c: "sim_child (lwgeom_from_wkb_state ext ?c) e1 e2 ?c g"
    using assms by (rule sim_lwgeom)
  have "sim ?s1 ?s2 \<and> \<not> error ?s1 \<and> sized ?s1 \<and> sized ?s2
      \<and> unread ?s1 = wkb_encode e1 g @ [] \<and> unread ?s2 = wkb_encode e2 g @ extra"
    by (simp add: sim_init)
  with c have run: "sim_run [] extra (lwgeom_from_wkb_state ext ?c ?s1)
      (lwgeom_from_wkb_state ext ?c ?s2)"
    and tot: "nesting g \<le> ?c \<longrightarrow> lwgeom_from_wkb_state ext ?c ?s1 \<noteq> None"
    unfolding sim_child_def by blast+
  from tot nesting_le_length[of g e1] have some: "lwgeom_from_wkb_state ext ?c ?s1 \<noteq> None"
    by simp
  from run some obtain v t1 t2 where
    r1: "lwgeom_from_wkb_state ext ?c ?s1 = Some (v, t1)"
    and r2: "lwgeom_from_wkb_state ext ?c ?s2 = Some (v, t2)"
    and st: "sim t1 t2" "\<not> error t1"
    by (cases rule: sim_runE) simp_all
  have "?c \<le> Suc (length ?b2)"
    using length_wkb_encode[of e1 g e2] by simp
  from lwgeom_from_wkb_state_more_calls[OF r2 this]
  have r2': "lwgeom_from_wkb_state ext (Suc (length ?b2)) ?s2 = Some (v, t2)" .
  have "lwgeom_from_wkb ext ?b1 (length ?b1) chk = Some (v, t1)"
    using r1 by (simp add: lwgeom_from_wkb_encoded del: lwgeom_from_wkb_state.simps)
  moreover have "lwgeom_from_wkb ext ?b2 (length ?b2) chk = Some (v, t2)"
    using r2' by (simp add: lwgeom_from_wkb_def Let_def del: lwgeom_from_wkb_state.simps)
  ultimately show ?thesis using st by blast
qed

section \<open>A truncated triangle\<close>

text \<open>
  Claim C1 at a concrete input. The 77 bytes are the little-endian encoding of a triangle
  with one closed ring of four points, and \<^verbatim>\<open>lwgeom_from_wkb\<close> decodes them, under the
  checks of minimum points, odd count and closure, to that triangle without any error.
  Cut to its first 20 bytes (the header, the ring count, the point count and 7 of the 64
  coordinate bytes) and decoded with the length 20, the buffer does make
  \<^verbatim>\<open>ptarray_from_wkb_state\<close> report that the structure does not match the size and set the
  error flag, but \<^verbatim>\<open>lwtriangle_from_wkb_state\<close> takes the missing point array for an
  empty ring without looking at the flag, and \<^verbatim>\<open>lwgeom_from_wkb\<close> returns an empty
  triangle.
\<close>

theorem truncated_triangle_is_decoded:
  "wkb_encode True sample_triangle =
     [1, 17, 0, 0, 0, 1, 0, 0, 0, 4, 0, 0, 0,
      0, 0, 0, 0, 0, 0, 0, 0, 0, 0, 0, 0, 0, 0, 0, 0,
      0, 0, 0, 0, 0, 0, 240, 63, 0, 0, 0, 0, 0, 0, 240, 63,
      0, 0, 0, 0, 0, 0, 240, 63, 0, 0, 0, 0, 0, 0, 0, 0,
      0, 0, 0, 0, 0, 0, 0, 0, 0, 0, 0, 0, 0, 0, 0, 0]
   \<and> map_option (\<lambda>x. (fst x, error (snd x), reported (snd x)))
       (lwgeom_from_wkb sample_externals (wkb_encode True sample_triangle) 77
          {LW_PARSER_CHECK_MINPOINTS, LW_PARSER_CHECK_ODD, LW_PARSER_CHECK_CLOSURE})
     = Some (Some (LWTRIANGLE 0 False False
                    (pa_of_tuples xy_flags
                       [xy d_zero d_zero, xy d_one d_one, xy d_one d_zero, xy d_zero d_zero])),
             False, [])
   \<and> map_option (\<lambda>x. (fst x, error (snd x), reported (snd x)))
       (lwgeom_from_wkb sample_externals (take 20 (wkb_encode True sample_triangle)) 20
          {LW_PARSER_CHECK_MINPOINTS, LW_PARSER_CHECK_ODD, LW_PARSER_CHECK_CLOSURE})
     = Some (Some (LWTRIANGLE 0 False False (ptarray_construct False False 0 [])),
             True, [''WKB structure does not match expected size!''])"
  by code_simp

section \<open>Curve polygons inside curve polygons\<close>

text \<open>
  Claim C2 at a concrete input: the little-endian encoding, 2709 bytes long, of 300 curve
  polygons, each the only ring of the one before, around an empty curve polygon.
  \<^verbatim>\<open>lwcurvepoly_from_wkb_state\<close> calls \<^verbatim>\<open>lwgeom_from_wkb_state\<close> for each ring and never
  looks at the depth counter. So 300 nested calls of \<^verbatim>\<open>lwgeom_from_wkb_state\<close> are not
  enough to decode the input and 301 are: the 301 curve polygons are all entered, one
  inside the other. The decoder then returns NULL, because a curve polygon is no ring of a curve
  polygon; the depth counter is still 1, the error flag is clear, and what has been
  reported is 300 times the failure to add a ring and never that the geometry has too many
  chained collections.
\<close>

theorem nested_curvepolygons_are_entered:
  "(let buf = wkb_encode True (nested_curvepolygons 300);
        s0 = wkb_parse_state_init sample_externals buf (length buf) {}
    in length buf = 2709
     \<and> lwgeom_from_wkb_state sample_externals 300 s0 = None
     \<and> lwgeom_from_wkb_state sample_externals 301 s0 \<noteq> None
     \<and> map_option (\<lambda>x. (fst x, depth (snd x), error (snd x), reported (snd x)))
          (lwgeom_from_wkb sample_externals buf (length buf) {})
        = Some (None, 1, False,
                replicate 300 ''Unable to add geometry (%p) to curvepoly (%p)''))"
proof -
  let ?buf = "wkb_encode True (nested_curvepolygons 300)"
  let ?s0 = "wkb_parse_state_init sample_externals ?buf (length ?buf) {}"
  have len: "length (wkb_encode e (nested_curvepolygons n)) = 9 * n + 9" for e n
    by (induction n) simp_all
  have un: "unread ?s0 = ?buf @ []" by simp
  have a: "lwgeom_from_wkb_state sample_externals 300 ?s0 = None"
    using nested_curvepolygons_calls(1)[OF _ _ un, of 300 sample_externals] by simp
  have a': "lwgeom_from_wkb_state sample_externals 301 ?s0 \<noteq> None"
    using nested_curvepolygons_calls(2)[OF _ _ un, of 301 sample_externals]
    by (auto simp del: lwgeom_from_wkb_state.simps)
  have "\<exists>s'. lwgeom_from_wkb_state sample_externals (Suc (length ?buf)) ?s0
            = Some (None, s')
          \<and> depth s' = 1 \<and> \<not> error s'
          \<and> reported s' = replicate 300 ''Unable to add geometry (%p) to curvepoly (%p)''"
    using nested_curvepolygons_calls(2)[OF _ _ un, of "Suc (length ?buf)" sample_externals]
    by (simp add: len del: lwgeom_from_wkb_state.simps)
  then obtain s' where b: "lwgeom_from_wkb sample_externals ?buf (length ?buf) {} = Some (None, s')"
    and c: "depth s' = 1" "\<not> error s'"
      "reported s' = replicate 300 ''Unable to add geometry (%p) to curvepoly (%p)''"
    unfolding lwgeom_from_wkb_encoded by auto
  show ?thesis
    unfolding Let_def a b using a' by (simp add: len c del: lwgeom_from_wkb_state.simps)
qed

section \<open>The limit on chained collections\<close>

text \<open>
  Claim C3, amended. \<open>nested_collections n g\<close> is \<open>n\<close> levels of geometry collections, each
  the only child of the one before, around the geometry \<open>g\<close>. With 199 levels or more
  (so with 201), around any geometry whatever, \<^verbatim>\<open>lwgeom_from_wkb\<close> returns NULL, and the
  first error it reports is "Geometry has too many chained collections": the 199th
  collection raises the depth counter, which starts at 1, to 200. The 198 collections
  around it then each report that they could not add their child. With 198 levels or
  fewer around a point, and a subtype table that lets a geometry collection hold
  collections and points, the decoder returns the collections and reports nothing. So the
  last number of levels that succeeds is 198, not 199.
\<close>

theorem nested_collections_limit:
  assumes "lwcollection_allows_subtype ext COLLECTIONTYPE COLLECTIONTYPE"
    and "lwcollection_allows_subtype ext COLLECTIONTYPE POINTTYPE"
  shows "(199 \<le> n \<longrightarrow>
            rejects ext (wkb_encode e (nested_collections n g)) chk
          \<and> reports ext (wkb_encode e (nested_collections n g)) chk
              = Some (''Geometry has too many chained collections''
                      # replicate 198 ''Unable to add geometry (%p) to collection (%p)''))
       \<and> (n \<le> 198 \<longrightarrow>
            decoded ext (wkb_encode e (nested_collections n (Point xy_flags t))) chk
              = Some (Some (nested_lwcollections n (SRID_UNKNOWN ext)
                              (lwpoint_of_tuple (SRID_UNKNOWN ext) xy_flags t)))
          \<and> reports ext (wkb_encode e (nested_collections n (Point xy_flags t))) chk = Some [])"
proof -
  have "rejects ext (wkb_encode e (nested_collections n g)) chk
      \<and> reports ext (wkb_encode e (nested_collections n g)) chk
              = Some (''Geometry has too many chained collections''
                      # replicate 198 ''Unable to add geometry (%p) to collection (%p)'')"
    if "199 \<le> n"
    using nested_collections_rejected[OF that, of ext e g chk] by (simp add: rejects_def)
  moreover have "decoded ext (wkb_encode e (nested_collections n (Point xy_flags t))) chk
              = Some (Some (nested_lwcollections n (SRID_UNKNOWN ext)
                              (lwpoint_of_tuple (SRID_UNKNOWN ext) xy_flags t)))
          \<and> reports ext (wkb_encode e (nested_collections n (Point xy_flags t))) chk = Some []"
    if "n \<le> 198"
  proof -
    from that have "n < 199" by simp
    from nested_collections_accepted[OF assms this, of e t chk] show ?thesis by simp
  qed
  ultimately show ?thesis by blast
qed

text \<open>
  On the sample parameters, around the point (0, 0) and in little-endian: 201 levels are
  rejected and 198 levels are accepted.
\<close>

theorem nested_collections_limit_witness:
  "rejects sample_externals
     (wkb_encode True (nested_collections 201 (Point xy_flags (xy d_zero d_zero)))) {}
   \<and> accepts sample_externals
     (wkb_encode True (nested_collections 198 (Point xy_flags (xy d_zero d_zero)))) {}"
  using nested_collections_limit[where ext = sample_externals and n = 201 and e = True
      and g = "Point xy_flags (xy d_zero d_zero)" and chk = "{}"]
    nested_collections_limit[where ext = sample_externals and n = 198 and e = True
      and t = "xy d_zero d_zero" and chk = "{}"]
  by (simp add: sample_externals_def sample_allows_subtype_def accepts_def)

text \<open>
  Claim C3 as stated fails: 199 levels of collections around the point (0, 0) are
  rejected, with "Geometry has too many chained collections" as the first error reported.
\<close>

theorem nested_collections_199_rejected:
  "rejects sample_externals
     (wkb_encode True (nested_collections 199 (Point xy_flags (xy d_zero d_zero)))) {}
   \<and> \<not> accepts sample_externals
     (wkb_encode True (nested_collections 199 (Point xy_flags (xy d_zero d_zero)))) {}
   \<and> reports sample_externals
     (wkb_encode True (nested_collections 199 (Point xy_flags (xy d_zero d_zero)))) {}
      = Some (''Geometry has too many chained collections''
              # replicate 198 ''Unable to add geometry (%p) to collection (%p)'')"
  using nested_collections_rejected[where n = 199 and ext = sample_externals and e = True
      and g = "Point xy_flags (xy d_zero d_zero)" and chk = "{}"]
  by (simp add: rejects_def accepts_def)

section \<open>Big-endian and little-endian encodings\<close>

text \<open>
  Claim C4. For a geometry whose counts fit the format and the decoder, on either host and
  under any check mask, \<^verbatim>\<open>lwgeom_from_wkb\<close> returns for the big-endian encoding what it
  returns for the little-endian encoding: the same geometry, equal in its type, its SRID,
  its flags and every bit of every coordinate, or NULL for both; it also reports the same
  errors for both. And it does return.
\<close>

theorem decoded_big_endian_little_endian:
  assumes "wkb_sized g"
  shows "decoded ext (wkb_encode False g) chk = decoded ext (wkb_encode True g) chk
       \<and> reports ext (wkb_encode False g) chk = reports ext (wkb_encode True g) chk
       \<and> decoded ext (wkb_encode False g) chk \<noteq> None"
proof -
  from decoded_two_encodings[OF assms, of ext False chk True "[]"]
  obtain v t1 t2 where
    "lwgeom_from_wkb ext (wkb_encode False g) (length (wkb_encode False g)) chk = Some (v, t1)"
    "lwgeom_from_wkb ext (wkb_encode True g) (length (wkb_encode True g)) chk = Some (v, t2)"
    "sim t1 t2"
    by auto
  then show ?thesis
    by (simp add: decoded_def reports_def sim_def)
qed

text \<open>
  The collection of a point, a line and a triangle decodes to the same geometry from both
  encodings.
\<close>

theorem decoded_big_endian_little_endian_witness:
  "decoded sample_externals (wkb_encode False sample_collection) {}
     = decoded sample_externals (wkb_encode True sample_collection) {}
   \<and> decoded sample_externals (wkb_encode False sample_collection) {} \<noteq> None"
proof -
  have "wkb_sized sample_collection"
    by (simp add: sample_collection_def sample_triangle_def)
  from decoded_big_endian_little_endian[OF this, of sample_externals "{}"]
  show ?thesis by blast
qed

section \<open>An unknown type number inside a collection\<close>

text \<open>
  Claim C5 at a concrete input. The 18 bytes are a little-endian geometry collection of
  one child whose type number is 99, followed by four zero bytes. 99 is in no row of the
  table, and \<^verbatim>\<open>lwtype_from_wkb_state\<close> reports it as an unknown WKB type. Nothing stops
  the parse: the error flag stays clear, the \<^verbatim>\<open>switch\<close> of \<^verbatim>\<open>lwgeom_from_wkb_state\<close>
  runs on the type that the parent left in the state, the four zero bytes are read as the
  count of an empty collection, and \<^verbatim>\<open>lwgeom_from_wkb\<close> returns a collection holding an
  empty collection.
\<close>

theorem unknown_type_child_is_decoded:
  "lwgeom_from_wkb sample_externals
     [1, 7, 0, 0, 0, 1, 0, 0, 0, 1, 0x63, 0, 0, 0, 0, 0, 0, 0] 18 {}
   = Some (Some (LWCOLLECTION COLLECTIONTYPE 0 False False
                  [LWCOLLECTION COLLECTIONTYPE 0 False False []]),
           \<lparr>wkb = [1, 7, 0, 0, 0, 1, 0, 0, 0, 1, 0x63, 0, 0, 0, 0, 0, 0, 0], srid = 0,
            wkb_size = 18, swap_bytes = False, check = {}, lwtype = COLLECTIONTYPE,
            has_z = False, has_m = False, has_srid = False, error = False, depth = 1,
            pos = 18,
            reported = [''Unknown WKB type (%d)! Full WKB type number was (%d).''],
            oob = False\<rparr>)"
  by code_simp

section \<open>The minimum number of points\<close>

text \<open>
  Claim C6, amended. With the check \<^verbatim>\<open>LW_PARSER_CHECK_MINPOINTS\<close> requested, whatever
  else the mask requests: the encoding of a non-empty line is decoded to a geometry when it
  has at least 2 points and to NULL otherwise. The encoding of a non-empty circular string
  is decoded to a geometry when it has at least 3 points (and an odd number of them, if
  \<^verbatim>\<open>LW_PARSER_CHECK_ODD\<close> is requested too) and to NULL otherwise: the minimum in
  \<^verbatim>\<open>lwcircstring_from_wkb_state\<close> is 3, not 2. The encoding of a polygon with a ring of
  fewer than 4 points is decoded to NULL; a polygon is decoded to a geometry when every ring
  has at least 4 points (and is closed, if \<^verbatim>\<open>LW_PARSER_CHECK_CLOSURE\<close> is requested too) and
  to NULL otherwise.
\<close>

theorem minpoints_check_accepts:
  assumes "LW_PARSER_CHECK_MINPOINTS \<in> chk"
    and "ts \<noteq> []" and "length ts \<le> 134217727"
    and "length rs < 2 ^ 32" and "\<forall>ts\<in>set rs. length ts \<le> 134217727"
  shows "(accepts ext (wkb_encode e (Points LineString f ts)) chk = (2 \<le> length ts))
       \<and> (rejects ext (wkb_encode e (Points LineString f ts)) chk = (length ts < 2))
       \<and> (accepts ext (wkb_encode e (Points CircularString f ts)) chk
            = (3 \<le> length ts \<and> (LW_PARSER_CHECK_ODD \<in> chk \<longrightarrow> odd (length ts))))
       \<and> (rejects ext (wkb_encode e (Points CircularString f ts)) chk
            = (length ts < 3 \<or> (LW_PARSER_CHECK_ODD \<in> chk \<and> even (length ts))))
       \<and> ((\<exists>ts\<in>set rs. length ts < 4)
            \<longrightarrow> rejects ext (wkb_encode e (Rings Polygon f rs)) chk)
       \<and> (accepts ext (wkb_encode e (Rings Polygon f rs)) chk
            = (\<forall>ts\<in>set rs. 4 \<le> length ts
                 \<and> (LW_PARSER_CHECK_CLOSURE \<in> chk
                      \<longrightarrow> ptarray_is_closed_2d ext (pa_of_tuples f ts))))
       \<and> (rejects ext (wkb_encode e (Rings Polygon f rs)) chk
            = (\<exists>ts\<in>set rs. length ts < 4
                 \<or> (LW_PARSER_CHECK_CLOSURE \<in> chk
                      \<and> \<not> ptarray_is_closed_2d ext (pa_of_tuples f ts))))"
proof -
  have l: "decoded ext (wkb_encode e (Points LineString f ts)) chk =
      Some (if length ts < 2 then None
            else Some (lwline_construct (srid_of_flags ext f) (pa_of_tuples f ts)))"
    using decoded_linestring[OF assms(3), of ext e f chk] assms(1,2) by simp
  have c: "decoded ext (wkb_encode e (Points CircularString f ts)) chk =
      Some (if length ts < 3 \<or> (LW_PARSER_CHECK_ODD \<in> chk \<and> even (length ts)) then None
            else Some (lwcircstring_construct (srid_of_flags ext f) (pa_of_tuples f ts)))"
    using decoded_circularstring[OF assms(3), of ext e f chk] assms(1,2) by simp
  note p = decoded_polygon[OF assms(4,5,1), of ext e f]
  have "accepts ext (wkb_encode e (Points LineString f ts)) chk = (2 \<le> length ts)"
    and "rejects ext (wkb_encode e (Points LineString f ts)) chk = (length ts < 2)"
    unfolding accepts_def rejects_def l by auto
  moreover have "accepts ext (wkb_encode e (Points CircularString f ts)) chk
            = (3 \<le> length ts \<and> (LW_PARSER_CHECK_ODD \<in> chk \<longrightarrow> odd (length ts)))"
    and "rejects ext (wkb_encode e (Points CircularString f ts)) chk
            = (length ts < 3 \<or> (LW_PARSER_CHECK_ODD \<in> chk \<and> even (length ts)))"
    unfolding accepts_def rejects_def c by auto
  moreover have a: "accepts ext (wkb_encode e (Rings Polygon f rs)) chk
            = (\<forall>ts\<in>set rs. 4 \<le> length ts
                 \<and> (LW_PARSER_CHECK_CLOSURE \<in> chk
                      \<longrightarrow> ptarray_is_closed_2d ext (pa_of_tuples f ts)))"
    and r: "rejects ext (wkb_encode e (Rings Polygon f rs)) chk
            = (\<exists>ts\<in>set rs. length ts < 4
                 \<or> (LW_PARSER_CHECK_CLOSURE \<in> chk
                      \<and> \<not> ptarray_is_closed_2d ext (pa_of_tuples f ts)))"
    unfolding accepts_def rejects_def p by (auto simp: not_le)
  moreover have "(\<exists>ts\<in>set rs. length ts < 4)
            \<longrightarrow> rejects ext (wkb_encode e (Rings Polygon f rs)) chk"
    unfolding r by blast
  ultimately show ?thesis by blast
qed

text \<open>
  Under the full mask of minimum points, odd count and closure: a line of two points, a
  circular string of three points and a polygon of one closed ring of four points are
  accepted; a polygon with a ring of three points is rejected.
\<close>

theorem minpoints_check_accepts_witness:
  "accepts sample_externals
     (wkb_encode True (Points LineString xy_flags [xy d_zero d_zero, xy d_one d_one]))
     {LW_PARSER_CHECK_MINPOINTS, LW_PARSER_CHECK_ODD, LW_PARSER_CHECK_CLOSURE}
   \<and> accepts sample_externals
     (wkb_encode True (Points CircularString xy_flags
        [xy d_zero d_zero, xy d_one d_one, xy d_one d_zero]))
     {LW_PARSER_CHECK_MINPOINTS, LW_PARSER_CHECK_ODD, LW_PARSER_CHECK_CLOSURE}
   \<and> accepts sample_externals
     (wkb_encode True (Rings Polygon xy_flags
        [[xy d_zero d_zero, xy d_one d_one, xy d_one d_zero, xy d_zero d_zero]]))
     {LW_PARSER_CHECK_MINPOINTS, LW_PARSER_CHECK_ODD, LW_PARSER_CHECK_CLOSURE}
   \<and> rejects sample_externals
     (wkb_encode True (Rings Polygon xy_flags
        [[xy d_zero d_zero, xy d_one d_one, xy d_zero d_zero]]))
     {LW_PARSER_CHECK_MINPOINTS, LW_PARSER_CHECK_ODD, LW_PARSER_CHECK_CLOSURE}"
  using minpoints_check_accepts[where
        chk = "{LW_PARSER_CHECK_MINPOINTS, LW_PARSER_CHECK_ODD, LW_PARSER_CHECK_CLOSURE}"
      and ts = "[xy d_zero d_zero, xy d_one d_one]"
      and rs = "[[xy d_zero d_zero, xy d_one d_one, xy d_zero d_zero]]"
      and ext = sample_externals and e = True and f = xy_flags]
    minpoints_check_accepts[where
        chk = "{LW_PARSER_CHECK_MINPOINTS, LW_PARSER_CHECK_ODD, LW_PARSER_CHECK_CLOSURE}"
      and ts = "[xy d_zero d_zero, xy d_one d_one, xy d_one d_zero]"
      and rs = "[[xy d_zero d_zero, xy d_one d_one, xy d_one d_zero, xy d_zero d_zero]]"
      and ext = sample_externals and e = True and f = xy_flags]
  by (simp add: sample_externals_def sample_is_closed_def pa_of_tuples_def ptarray_construct_def
      tuple_doubles_def xy_def xy_flags_def del: wkb_encode.simps)

text \<open>
  The circular string of the two points (0, 0) and (1, 1), encoded in little-endian and
  decoded with only \<^verbatim>\<open>LW_PARSER_CHECK_MINPOINTS\<close> requested, is rejected although it has
  2 points.
\<close>

theorem circularstring_of_two_points_rejected:
  "rejects sample_externals
     (wkb_encode True (Points CircularString xy_flags [xy d_zero d_zero, xy d_one d_one]))
     {LW_PARSER_CHECK_MINPOINTS}"
  using decoded_circularstring[where ext = sample_externals and e = True and f = xy_flags
      and chk = "{LW_PARSER_CHECK_MINPOINTS}" and ts = "[xy d_zero d_zero, xy d_one d_one]"]
  by (simp add: rejects_def del: wkb_encode.simps)

section \<open>A point of two NaNs is the empty point\<close>

lemma isnan_examples: "isnan d_nan" "\<not> isnan d_one" "\<not> isnan d_zero"
  by (simp_all add: isnan_def d_nan_def d_one_def d_zero_def)

text \<open>
  Claim C7. The encoding of a point, in either endianness, with or without Z, M and SRID,
  decodes on either host to the empty point when X and Y are both NaN, and to the point
  with the coordinates as they were written otherwise (so also when only one of X and Y is
  NaN); the empty point is empty and the other is not.
\<close>

theorem lwgeom_from_wkb_point_nan:
  "(let buf = wkb_encode e (Point f (x, y, z, m));
        sr = (case with_srid f of None \<Rightarrow> SRID_UNKNOWN ext | Some v \<Rightarrow> clamp_srid ext v);
        empty = lwpoint_construct_empty sr (with_z f) (with_m f);
        point = lwpoint_construct sr
                  (ptarray_construct (with_z f) (with_m f) 1 (tuple_doubles f (x, y, z, m)))
    in map_option fst (lwgeom_from_wkb ext buf (length buf) chk)
         = Some (Some (if isnan x \<and> isnan y then empty else point))
       \<and> lwgeom_is_empty empty \<and> \<not> lwgeom_is_empty point)"
proof -
  let ?s0 = "wkb_parse_state_init ext (wkb_encode e (Point f (x, y, z, m)))
               (length (wkb_encode e (Point f (x, y, z, m)))) chk"
  let ?s1 = "after_header ext e 1 f POINTTYPE ?s0"
  have un: "unread ?s0 = wkb_header e 1 f @ (wkb_tuple e f (x, y, z, m) @ [])"
    by simp
  have h: "wkb_header_from_wkb_state ext ?s0 = Inr ?s1"
    and un1: "unread ?s1 = wkb_tuple e f (x, y, z, m) @ []"
    using header_at[OF _ _ un table_point] by simp_all
  have p: "lwpoint_from_wkb_state ext ?s1 =
     (Some (if isnan x \<and> isnan y
            then lwpoint_construct_empty (srid ?s1) (with_z f) (with_m f)
            else lwpoint_construct (srid ?s1)
                   (ptarray_construct (with_z f) (with_m f) 1 (tuple_doubles f (x, y, z, m)))),
      ?s1\<lparr>pos := pos ?s1 + length (wkb_tuple e f (x, y, z, m))\<rparr>)"
    using un1 by (intro lwpoint_from_wkb_state_at) simp_all
  have e: "lwgeom_is_empty (lwpoint_construct_empty sr hz hm)"
    "\<not> lwgeom_is_empty (lwpoint_construct sr (ptarray_construct hz hm 1 ds))" for sr hz hm ds
    by (simp_all add: lwpoint_construct_empty_def lwpoint_construct_def ptarray_construct_def)
  show ?thesis
    unfolding Let_def lwgeom_from_wkb_encoded
    by (simp add: h p e del: wkb_encode.simps cong: option.case_cong)
qed


section \<open>Which geometries need a bounding box\<close>

text \<open>
  Claim C9, as amended. \<^verbatim>\<open>lwgeom_needs_bbox\<close> is false exactly for a point and for a
  line of at most two vertices (none, one or two); for a geometry of any other kind and
  for a line of more than two vertices it is true.
\<close>

theorem lwgeom_needs_bbox_false_iff:
  "lwgeom_needs_bbox geom =
     (\<not> (lwgeom_type geom = POINTTYPE
          \<or> (lwgeom_type geom = LINETYPE \<and> lwgeom_count_vertices geom \<le> 2)))"
  by (simp add: lwgeom_needs_bbox_def)

text \<open>
  Claim C9 as stated fails: a line of one vertex is a line whose vertex count is not 2,
  and \<^verbatim>\<open>lwgeom_needs_bbox\<close> is false for it.
\<close>

theorem lwgeom_needs_bbox_one_point_line:
  "lwgeom_type one_point_line = LINETYPE \<and> lwgeom_count_vertices one_point_line = 1
   \<and> lwgeom_count_vertices one_point_line \<noteq> 2 \<and> \<not> lwgeom_needs_bbox one_point_line"
  by (simp add: one_point_line_def lwgeom_needs_bbox_def ptarray_construct_def
      lwline_count_vertices_def)

section \<open>Bytes after the encoding\<close>



end
